(* ===== verification/Prelude.thy ===== *)
theory Prelude
  imports Main "HOL-Library.AList" "HOL-Library.List_Lexorder" "HOL-Library.Char_ord"
begin

text \<open>
  Shared vocabulary of the development: the Go conventions every component uses
  (an \<open>error\<close> result, a \<open>range\<close> loop with an early return, a map filled by a
  sequence of writes) and the generic lemmas about them.
\<close>

section \<open>Collections\<close>

named_theorems doc_simps \<open>encoders and decoders of the stored documents\<close>
named_theorems effect_simps \<open>definitions of the effects a handler may have\<close>
named_theorems key_simps \<open>the key paths, as lists of segments\<close>

section \<open>Errors and loops\<close>

text \<open>A Go \<open>error\<close> is its message; \<open>None\<close> is \<open>nil\<close>.\<close>

type_synonym error = string

text \<open>
  \<^verbatim>\<open>for _, x := range xs { if err := f(x); err != nil { return err } }\<close>
  over an explicit state.
\<close>

fun for_err :: "('a \<Rightarrow> 's \<Rightarrow> error option \<times> 's) \<Rightarrow> 'a list \<Rightarrow> 's \<Rightarrow> error option \<times> 's" where
  "for_err f [] s = (None, s)"
| "for_err f (x # xs) s =
     (case f x s of
        (Some e, s') \<Rightarrow> (Some e, s')
      | (None, s') \<Rightarrow> for_err f xs s')"

lemma for_err_invariant:
  assumes "P s" and "\<And>x s. x \<in> set xs \<Longrightarrow> P s \<Longrightarrow> P (snd (f x s))"
  shows "P (snd (for_err f xs s))"
  using assms
proof (induction xs arbitrary: s)
  case Nil
  then show ?case by simp
next
  case (Cons x xs)
  have "P (snd (f x s))" using Cons.prems by simp
  then show ?case
    using Cons.IH [of "snd (f x s)"] Cons.prems(2)
    by (auto split: prod.splits option.splits)
qed

lemma for_err_append:
  "for_err f (xs @ ys) s =
     (case for_err f xs s of (Some e, s') \<Rightarrow> (Some e, s') | (None, s') \<Rightarrow> for_err f ys s')"
  by (induction xs arbitrary: s) (auto split: prod.splits option.splits)

lemma for_err_skip:
  assumes "\<And>x s. x \<in> set xs \<Longrightarrow> f x s = (None, s)"
  shows "for_err f xs s = (None, s)"
  using assms by (induction xs) auto

lemma for_err_cong_set:
  assumes "\<And>x s. x \<in> set xs \<Longrightarrow> f x s = g x s"
  shows "for_err f xs s = for_err g xs s"
  using assms by (induction xs arbitrary: s) (auto split: prod.splits option.splits)

lemma for_err_map: "for_err f (map g xs) s = for_err (\<lambda>x. f (g x)) xs s"
  by (induction xs arbitrary: s) (auto split: prod.splits option.splits)

lemma for_err_filter: "for_err f (filter P xs) s = for_err (\<lambda>x s. if P x then f x s else (None, s)) xs s"
  by (induction xs arbitrary: s) (auto split: prod.splits option.splits)

text \<open>A loop without a result: \<^verbatim>\<open>for _, x := range xs { f(x) }\<close>.\<close>

fun for_each :: "('a \<Rightarrow> 's \<Rightarrow> 's) \<Rightarrow> 'a list \<Rightarrow> 's \<Rightarrow> 's" where
  "for_each f [] s = s"
| "for_each f (x # xs) s = for_each f xs (f x s)"

lemma for_each_invariant:
  assumes "P s" and "\<And>x s. x \<in> set xs \<Longrightarrow> P s \<Longrightarrow> P (f x s)"
  shows "P (for_each f xs s)"
  using assms by (induction xs arbitrary: s) auto

section \<open>Go maps\<close>

text \<open>
  A Go map that is iterated is an association list, in the (unspecified) order the
  runtime iterates it; \<open>map_of\<close> is the lookup. \<open>go_map\<close> is the map left by a sequence
  of writes \<^verbatim>\<open>m[k] = v\<close>.
\<close>

definition go_map :: "('k \<times> 'v) list \<Rightarrow> ('k \<times> 'v) list" where
  "go_map ws = fold (\<lambda>(k, v). AList.update k v) ws []"

lemma fold_update_fresh:
  assumes "distinct (map fst ws)" and "set (map fst ws) \<inter> set (map fst m) = {}"
  shows "fold (\<lambda>(k, v). AList.update k v) ws m = m @ ws"
  using assms
proof (induction ws arbitrary: m)
  case Nil
  then show ?case by simp
next
  case (Cons w ws)
  obtain k v where w: "w = (k, v)" by (cases w)
  have "k \<notin> set (map fst m)" using Cons.prems(2) w by simp
  then have "AList.update k v m = m @ [(k, v)]"
    by (induction m) auto
  then show ?case using Cons.IH [of "m @ [(k, v)]"] Cons.prems w by auto
qed

lemma go_map_distinct: "distinct (map fst ws) \<Longrightarrow> go_map ws = ws"
  by (simp add: go_map_def fold_update_fresh)

lemma distinct_go_map: "distinct (map fst (go_map ws))"
proof -
  have "distinct (map fst m) \<Longrightarrow> distinct (map fst (fold (\<lambda>(k, v). AList.update k v) ws m))" for m
    by (induction ws arbitrary: m) (auto simp: distinct_update split: prod.splits)
  from this [of "[]"] show ?thesis by (simp add: go_map_def)
qed

lemma map_of_go_map: "map_of (go_map ws) = map_of (rev ws)"
proof -
  have "map_of (fold (\<lambda>(k, v). AList.update k v) ws m) = map_of m ++ map_of (rev ws)" for m
    by (induction ws arbitrary: m) (auto simp: update_conv' map_add_upd_left fun_eq_iff map_add_def
        split: prod.splits option.splits)
  from this [of "[]"] show ?thesis by (simp add: go_map_def)
qed

lemma set_go_map:
  assumes "\<And>k b b'. (k, b) \<in> set ws \<Longrightarrow> (k, b') \<in> set ws \<Longrightarrow> b = b'"
  shows "set (go_map ws) = set ws"
proof -
  have "(k, b) \<in> set (go_map ws) \<longleftrightarrow> (k, b) \<in> set ws" for k b
  proof -
    have "(k, b) \<in> set (go_map ws) \<longleftrightarrow> map_of (rev ws) k = Some b"
      using distinct_go_map [of ws] map_of_go_map [of ws]
      by (metis map_of_SomeD map_of_is_SomeI)
    also have "\<dots> \<longleftrightarrow> (k, b) \<in> set ws"
    proof
      assume "map_of (rev ws) k = Some b"
      then have "(k, b) \<in> set (rev ws)" by (rule map_of_SomeD)
      then show "(k, b) \<in> set ws" by simp
    next
      assume b: "(k, b) \<in> set ws"
      then obtain b' where b': "map_of (rev ws) k = Some b'"
        using weak_map_of_SomeI [of k b "rev ws"] by auto
      then have "(k, b') \<in> set (rev ws)" by (rule map_of_SomeD)
      then have "b' = b" using assms b by simp
      then show "map_of (rev ws) k = Some b" using b' by simp
    qed
    finally show ?thesis .
  qed
  then show ?thesis by auto
qed

lemma set_update_subset: "set (AList.update k v m) \<subseteq> insert (k, v) (set m)"
  by (induction m) auto

lemma in_concat_pairs:
  "x \<in> set (concat (map (\<lambda>(k, v). f k v) kvs)) \<longleftrightarrow> (\<exists>k v. (k, v) \<in> set kvs \<and> x \<in> set (f k v))"
  by auto

text \<open>An index into a Go map of strings: a missing key reads as the zero value.\<close>

definition go_index :: "('k \<rightharpoonup> 'v) \<Rightarrow> 'v \<Rightarrow> 'k \<Rightarrow> 'v" where
  "go_index m z k = (case m k of None \<Rightarrow> z | Some v \<Rightarrow> v)"

lemma find_SomeD: "find P xs = Some x \<Longrightarrow> x \<in> set xs \<and> P x"
  by (induction xs) (auto split: if_splits)

section \<open>Strings\<close>

text \<open>The part of \<^verbatim>\<open>fmt\<close>'s \<^verbatim>\<open>%q\<close> the messages need: quotes and escapes.\<close>

definition quoted :: "string \<Rightarrow> string" where
  "quoted s = CHR 0x22 # concat (map (\<lambda>c.
      if c = CHR 0x22 \<or> c = CHR 0x5C then [CHR 0x5C, c]
      else if c = CHR 0x0A then [CHR 0x5C, CHR ''n'']
      else if c = CHR 0x09 then [CHR 0x5C, CHR ''t'']
      else if c = CHR 0x0D then [CHR 0x5C, CHR ''r''] else [c]) s) @ [CHR 0x22]"

text \<open>\<^verbatim>\<open>strings.Join\<close>.\<close>

fun join :: "string \<Rightarrow> string list \<Rightarrow> string" where
  "join sep [] = []"
| "join sep [x] = x"
| "join sep (x # y # ys) = x @ sep @ join sep (y # ys)"

text \<open>\<^verbatim>\<open>strings.HasPrefix\<close>, \<^verbatim>\<open>HasSuffix\<close>, \<^verbatim>\<open>TrimPrefix\<close>.\<close>

fun has_prefix :: "string \<Rightarrow> string \<Rightarrow> bool" where
  "has_prefix [] s = True"
| "has_prefix (p # ps) [] = False"
| "has_prefix (p # ps) (c # cs) = (p = c \<and> has_prefix ps cs)"

definition has_suffix :: "string \<Rightarrow> string \<Rightarrow> bool" where
  "has_suffix suf s = has_prefix (rev suf) (rev s)"

definition trim_prefix :: "string \<Rightarrow> string \<Rightarrow> string" where
  "trim_prefix p s = (if has_prefix p s then drop (length p) s else s)"

lemma has_prefix_iff: "has_prefix p s \<longleftrightarrow> (\<exists>r. s = p @ r)"
  by (induction p s rule: has_prefix.induct) auto

lemma has_suffix_iff: "has_suffix suf s \<longleftrightarrow> (\<exists>r. s = r @ suf)"
proof -
  have "(\<exists>r. rev s = rev suf @ r) \<longleftrightarrow> (\<exists>r. s = r @ suf)"
    by (metis rev_append rev_rev_ident)
  then show ?thesis by (simp add: has_suffix_def has_prefix_iff)
qed

lemma trim_prefix_append [simp]: "trim_prefix p (p @ s) = s"
  by (auto simp: trim_prefix_def has_prefix_iff)

end
