(* ===== verification/Keys.thy ===== *)
theory Keys
  imports Prelude
begin

text \<open>
  \<^verbatim>\<open>internal/model/keys.go\<close>: the functions that build the etcd keys, over the model of
  \<^verbatim>\<open>path.Join\<close> they call, and the facts the rest of the program relies on: with well-formed
  ids a key is the absolute path of its segments, and different entities have different keys.
\<close>

section \<open>\<^verbatim>\<open>path.Join\<close>\<close>

abbreviation slash :: char where "slash \<equiv> CHR ''/''"

text \<open>\<^verbatim>\<open>strings.Split(s, "/")\<close>.\<close>

fun split_slash :: "string \<Rightarrow> string list" where
  "split_slash [] = [[]]"
| "split_slash (c # cs) =
     (if c = slash then [] # split_slash cs
      else (case split_slash cs of [] \<Rightarrow> [[c]] | x # xs \<Rightarrow> (c # x) # xs))"

text \<open>\<^verbatim>\<open>path.Clean\<close> on segments: the stack of kept segments, last first.\<close>

fun clean_segs :: "bool \<Rightarrow> string list \<Rightarrow> string list \<Rightarrow> string list" where
  "clean_segs rooted st [] = rev st"
| "clean_segs rooted st (x # xs) =
     (if x = [] \<or> x = ''.'' then clean_segs rooted st xs
      else if x = ''..'' then
        (case st of
           [] \<Rightarrow> if rooted then clean_segs rooted [] xs else clean_segs rooted [''..''] xs
         | y # ys \<Rightarrow> if y = ''..'' then clean_segs rooted (''..'' # st) xs else clean_segs rooted ys xs)
      else clean_segs rooted (x # st) xs)"

definition path_clean :: "string \<Rightarrow> string" where
  "path_clean s =
     (let rooted = (s \<noteq> [] \<and> hd s = slash);
          segs = clean_segs rooted [] (split_slash s)
      in if rooted then slash # join [slash] segs
         else if segs = [] then ''.'' else join [slash] segs)"

definition path_join :: "string list \<Rightarrow> string" where
  "path_join es =
     (let es' = dropWhile (\<lambda>e. e = []) es
      in if es' = [] then [] else path_clean (join [slash] es'))"

section \<open>The key functions\<close>

definition Root :: "string \<Rightarrow> string" where
  "Root clusterID = path_join [''/'', clusterID, ''cluster'']"

definition Leadership :: "string \<Rightarrow> string" where
  "Leadership clusterID = path_join [Root clusterID, ''leadership'']"

definition RegistryRoot :: "string \<Rightarrow> string" where
  "RegistryRoot clusterID = path_join [Root clusterID, ''registry'']"

definition Registry :: "string \<Rightarrow> string \<Rightarrow> string" where
  "Registry clusterID nodeID = path_join [RegistryRoot clusterID, nodeID]"

definition SessionRoot :: "string \<Rightarrow> string" where
  "SessionRoot clusterID = path_join [Root clusterID, ''session'']"

definition Session :: "string \<Rightarrow> string \<Rightarrow> string" where
  "Session clusterID nodeID = path_join [SessionRoot clusterID, nodeID]"

definition ConfigRoot :: "string \<Rightarrow> string" where
  "ConfigRoot clusterID = path_join [Root clusterID, ''config'']"

definition ConfigMeta :: "string \<Rightarrow> string" where
  "ConfigMeta clusterID = path_join [ConfigRoot clusterID, ''_meta'']"

definition ConfigNodeRoot :: "string \<Rightarrow> string" where
  "ConfigNodeRoot clusterID = path_join [ConfigRoot clusterID, ''nodes'']"

definition ConfigNode :: "string \<Rightarrow> string \<Rightarrow> string" where
  "ConfigNode clusterID nodeID = path_join [ConfigNodeRoot clusterID, nodeID]"

definition ConfigRoleRoot :: "string \<Rightarrow> string" where
  "ConfigRoleRoot clusterID = path_join [ConfigRoot clusterID, ''roles'']"

definition ConfigRole :: "string \<Rightarrow> string \<Rightarrow> string" where
  "ConfigRole clusterID roleID = path_join [ConfigRoleRoot clusterID, roleID]"

definition ConfigClusterGroupRoot :: "string \<Rightarrow> string" where
  "ConfigClusterGroupRoot clusterID = path_join [ConfigRoot clusterID, ''cluster_groups'']"

definition ConfigClusterGroupMeta :: "string \<Rightarrow> string \<Rightarrow> string" where
  "ConfigClusterGroupMeta clusterID groupID =
     path_join [ConfigClusterGroupRoot clusterID, groupID, ''_meta'']"

definition ManagementGroupConfig :: "string \<Rightarrow> string \<Rightarrow> string \<Rightarrow> string" where
  "ManagementGroupConfig clusterID clusterGroup managementGroup =
     path_join [ConfigClusterGroupRoot clusterID, clusterGroup, managementGroup]"

definition ClusterGroup :: "string \<Rightarrow> string \<Rightarrow> string" where
  "ClusterGroup clusterID clusterGroup = path_join [Root clusterID, clusterGroup]"

definition ManagementGroup :: "string \<Rightarrow> string \<Rightarrow> string \<Rightarrow> string" where
  "ManagementGroup clusterID clusterGroup managementGroup =
     path_join [ClusterGroup clusterID clusterGroup, managementGroup]"

definition Desired :: "string \<Rightarrow> string \<Rightarrow> string \<Rightarrow> string" where
  "Desired clusterID clusterGroup managementGroup =
     path_join [ManagementGroup clusterID clusterGroup managementGroup, ''desired'']"

definition Actual :: "string \<Rightarrow> string \<Rightarrow> string \<Rightarrow> string" where
  "Actual clusterID clusterGroup managementGroup =
     path_join [ManagementGroup clusterID clusterGroup managementGroup, ''actual'']"

definition Health :: "string \<Rightarrow> string \<Rightarrow> string \<Rightarrow> string" where
  "Health clusterID clusterGroup managementGroup =
     path_join [ManagementGroup clusterID clusterGroup managementGroup, ''health'']"

definition Node :: "string \<Rightarrow> string \<Rightarrow> string \<Rightarrow> string \<Rightarrow> string" where
  "Node clusterID clusterGroup managementGroup nodeID =
     (let mg = ManagementGroup clusterID clusterGroup managementGroup
      in if managementGroup = nodeID then mg else path_join [mg, nodeID])"

definition Role :: "string \<Rightarrow> string \<Rightarrow> string \<Rightarrow> string \<Rightarrow> string \<Rightarrow> string" where
  "Role clusterID clusterGroup managementGroup nodeID role =
     path_join [Node clusterID clusterGroup managementGroup nodeID, role]"

definition RoleActual :: "string \<Rightarrow> string \<Rightarrow> string \<Rightarrow> string \<Rightarrow> string \<Rightarrow> string" where
  "RoleActual clusterID clusterGroup managementGroup nodeID role =
     path_join [Role clusterID clusterGroup managementGroup nodeID role, ''actual'']"

definition RoleHealth :: "string \<Rightarrow> string \<Rightarrow> string \<Rightarrow> string \<Rightarrow> string \<Rightarrow> string" where
  "RoleHealth clusterID clusterGroup managementGroup nodeID role =
     path_join [Role clusterID clusterGroup managementGroup nodeID role, ''health'']"

definition CommandsKey :: "string \<Rightarrow> string" where
  "CommandsKey clusterID = path_join [Root clusterID, ''commands'']"

definition CommandKey :: "string \<Rightarrow> string \<Rightarrow> string" where
  "CommandKey clusterID commandID = path_join [CommandsKey clusterID, commandID]"

definition CommandHistoryKey :: "string \<Rightarrow> string \<Rightarrow> string" where
  "CommandHistoryKey clusterID commandID = path_join [Root clusterID, ''commands_history'', commandID]"

section \<open>Paths of well-formed segments\<close>

definition id_ok :: "string \<Rightarrow> bool" where
  "id_ok s \<longleftrightarrow> s \<noteq> [] \<and> slash \<notin> set s \<and> s \<noteq> ''.'' \<and> s \<noteq> ''..''"

definition abs_path :: "string list \<Rightarrow> string" where
  "abs_path segs = slash # join [slash] segs"

lemma split_slash_plain: "slash \<notin> set s \<Longrightarrow> split_slash s = [s]"
  by (induction s) auto

lemma split_slash_cons: "slash \<notin> set s \<Longrightarrow> split_slash (s @ slash # t) = s # split_slash t"
  by (induction s) auto

lemma split_slash_nonempty [simp]: "split_slash s \<noteq> []"
  by (induction s) (auto split: list.splits)

lemma split_slash_join:
  assumes "\<And>s. s \<in> set ss \<Longrightarrow> slash \<notin> set s" and "ss \<noteq> []"
  shows "split_slash (join [slash] ss) = ss"
  using assms by (induction "[slash]" ss rule: join.induct) (auto simp: split_slash_plain split_slash_cons)

lemma clean_segs_ok:
  assumes "\<And>s. s \<in> set ss \<Longrightarrow> id_ok s"
  shows "clean_segs rooted st ss = rev st @ ss"
  using assms by (induction ss arbitrary: st) (auto simp: id_ok_def)

lemma join_append:
  "xs \<noteq> [] \<Longrightarrow> ys \<noteq> [] \<Longrightarrow> join sep (xs @ ys) = join sep xs @ sep @ join sep ys"
proof (induction sep xs rule: join.induct)
  case (2 sep x)
  then show ?case by (cases ys) auto
qed auto

lemma path_clean_abs:
  assumes "\<And>s. s \<in> set ss \<Longrightarrow> id_ok s"
  shows "path_clean (abs_path ss) = abs_path ss"
proof (cases "ss = []")
  case True
  then show ?thesis by (simp add: path_clean_def abs_path_def)
next
  case False
  then have "split_slash (join [slash] ss) = ss"
    using assms by (intro split_slash_join) (auto simp: id_ok_def)
  then show ?thesis
    using clean_segs_ok [OF assms, of ss True "[]"] by (simp add: path_clean_def abs_path_def)
qed

lemma path_join_abs [key_simps]:
  assumes "\<forall>s \<in> set ss. id_ok s" and "\<forall>s \<in> set xs. id_ok s" and "ss \<noteq> []"
  shows "path_join (abs_path ss # xs) = abs_path (ss @ xs)"
proof -
  have "join [slash] (abs_path ss # xs) = abs_path (ss @ xs)"
  proof (cases "xs = []")
    case False
    then obtain y ys where "xs = y # ys" by (cases xs) auto
    then show ?thesis using assms(3) by (simp add: abs_path_def join_append)
  qed simp
  then show ?thesis
    using path_clean_abs [of "ss @ xs"] assms by (auto simp: path_join_def abs_path_def)
qed

lemma path_join_rel:
  assumes "\<forall>s \<in> set ss. id_ok s" and "ss \<noteq> []"
  shows "path_join ss = join [slash] ss"
proof -
  obtain x xs where ss: "ss = x # xs" using assms(2) by (cases ss) auto
  then have hd: "join [slash] ss \<noteq> [] \<and> hd (join [slash] ss) \<noteq> slash"
    using assms(1) by (cases xs) (auto simp: id_ok_def dest: hd_in_set)
  have "split_slash (join [slash] ss) = ss" using assms by (intro split_slash_join) (auto simp: id_ok_def)
  then have "path_clean (join [slash] ss) = join [slash] ss"
    using clean_segs_ok [of ss False "[]"] assms hd by (simp add: path_clean_def Let_def)
  moreover have "dropWhile (\<lambda>e. e = []) ss = ss" using ss assms(1) by (simp add: id_ok_def)
  ultimately show ?thesis using ss by (simp add: path_join_def)
qed

text \<open>Segments as they come out of a key: not empty, no slash.\<close>

definition seg_ok :: "string \<Rightarrow> bool" where
  "seg_ok s \<longleftrightarrow> s \<noteq> [] \<and> slash \<notin> set s"

lemma id_seg_ok [simp]: "id_ok s \<Longrightarrow> seg_ok s"
  by (simp add: id_ok_def seg_ok_def)

lemma abs_path_inject:
  assumes "\<forall>s \<in> set xs. seg_ok s" and "\<forall>s \<in> set ys. seg_ok s" and "xs \<noteq> []" and "ys \<noteq> []"
    and "abs_path xs = abs_path ys"
  shows "xs = ys"
proof -
  have "join [slash] xs = join [slash] ys" using assms(5) by (simp add: abs_path_def)
  then show ?thesis
    using split_slash_join [of xs] split_slash_join [of ys] assms by (metis seg_ok_def)
qed

lemma id_ok_literals [simp, intro]:
  "id_ok ''cluster''" "id_ok ''leadership''" "id_ok ''registry''" "id_ok ''session''" "id_ok ''config''"
  "id_ok ''_meta''" "id_ok ''nodes''" "id_ok ''roles''" "id_ok ''cluster_groups''" "id_ok ''desired''"
  "id_ok ''actual''" "id_ok ''health''" "id_ok ''commands''" "id_ok ''commands_history''"
  by (simp_all add: id_ok_def)

text \<open>A key of well-formed ids is the absolute path of its segments.\<close>

lemma Root_path [key_simps]: "id_ok c \<Longrightarrow> Root c = abs_path [c, ''cluster'']"
proof -
  assume "id_ok c"
  then have "path_clean (''//'' @ c @ ''/cluster'') = abs_path [c, ''cluster'']"
    by (auto simp: path_clean_def abs_path_def id_ok_def split_slash_cons split_slash_plain)
  then show ?thesis by (simp add: Root_def path_join_def)
qed

lemma cluster_keys [key_simps]:
  assumes "id_ok c"
  shows "Leadership c = abs_path [c, ''cluster'', ''leadership'']"
    and "RegistryRoot c = abs_path [c, ''cluster'', ''registry'']"
    and "SessionRoot c = abs_path [c, ''cluster'', ''session'']"
    and "ConfigRoot c = abs_path [c, ''cluster'', ''config'']"
    and "CommandsKey c = abs_path [c, ''cluster'', ''commands'']"
  using assms
  by (simp_all add: Leadership_def RegistryRoot_def SessionRoot_def ConfigRoot_def CommandsKey_def key_simps)

lemma config_keys [key_simps]:
  assumes "id_ok c"
  shows "ConfigMeta c = abs_path [c, ''cluster'', ''config'', ''_meta'']"
    and "ConfigNodeRoot c = abs_path [c, ''cluster'', ''config'', ''nodes'']"
    and "ConfigRoleRoot c = abs_path [c, ''cluster'', ''config'', ''roles'']"
    and "ConfigClusterGroupRoot c = abs_path [c, ''cluster'', ''config'', ''cluster_groups'']"
    and "id_ok x \<Longrightarrow> ConfigNode c x = abs_path [c, ''cluster'', ''config'', ''nodes'', x]"
    and "id_ok x \<Longrightarrow> ConfigRole c x = abs_path [c, ''cluster'', ''config'', ''roles'', x]"
    and "id_ok x \<Longrightarrow> ConfigClusterGroupMeta c x
           = abs_path [c, ''cluster'', ''config'', ''cluster_groups'', x, ''_meta'']"
    and "id_ok x \<Longrightarrow> id_ok y \<Longrightarrow> ManagementGroupConfig c x y
           = abs_path [c, ''cluster'', ''config'', ''cluster_groups'', x, y]"
    and "id_ok x \<Longrightarrow> Registry c x = abs_path [c, ''cluster'', ''registry'', x]"
    and "id_ok x \<Longrightarrow> Session c x = abs_path [c, ''cluster'', ''session'', x]"
    and "id_ok x \<Longrightarrow> CommandKey c x = abs_path [c, ''cluster'', ''commands'', x]"
    and "id_ok x \<Longrightarrow> CommandHistoryKey c x = abs_path [c, ''cluster'', ''commands_history'', x]"
  using assms
  by (simp_all add: ConfigMeta_def ConfigNodeRoot_def ConfigRoleRoot_def ConfigClusterGroupRoot_def
      ConfigNode_def ConfigRole_def ConfigClusterGroupMeta_def ManagementGroupConfig_def Registry_def
      Session_def CommandKey_def CommandHistoryKey_def key_simps)

lemma group_keys [key_simps]:
  assumes "id_ok c" and "id_ok g"
  shows "ClusterGroup c g = abs_path [c, ''cluster'', g]"
    and "id_ok m \<Longrightarrow> ManagementGroup c g m = abs_path [c, ''cluster'', g, m]"
    and "id_ok m \<Longrightarrow> Desired c g m = abs_path [c, ''cluster'', g, m, ''desired'']"
    and "id_ok m \<Longrightarrow> Actual c g m = abs_path [c, ''cluster'', g, m, ''actual'']"
    and "id_ok m \<Longrightarrow> Health c g m = abs_path [c, ''cluster'', g, m, ''health'']"
  using assms
  by (simp_all add: ClusterGroup_def ManagementGroup_def Desired_def Actual_def Health_def key_simps)

lemma role_keys [key_simps]:
  assumes "id_ok c" and "id_ok g" and "id_ok m" and "id_ok n" and "id_ok r"
  shows "Role c g m n r = abs_path ([c, ''cluster'', g, m] @ (if m = n then [] else [n]) @ [r])"
    and "RoleActual c g m n r = abs_path ([c, ''cluster'', g, m] @ (if m = n then [] else [n]) @ [r, ''actual''])"
    and "RoleHealth c g m n r = abs_path ([c, ''cluster'', g, m] @ (if m = n then [] else [n]) @ [r, ''health''])"
  using assms by (simp_all add: Role_def RoleActual_def RoleHealth_def Node_def key_simps)

section \<open>The key scheme\<close>

text \<open>
  What a stored entry is about, with the key the program uses for it. A cluster group must
  not take the name of one of the fixed children of the root, and a management group must
  not be called \<^verbatim>\<open>_meta\<close>: nothing in the configuration check of the program forbids either.
\<close>

datatype entity =
    ELeadership
  | ERegistry string
  | ESession string
  | EConfigMeta
  | EConfigNode string
  | EConfigRole string
  | EConfigGroup string
  | EGroupConfig string string
  | EDesired string string
  | EActual string string
  | EHealth string string
  | ERoleActual string string string string
  | ERoleHealth string string string string
  | ECommand string
  | EHistory string

fun entity_key :: "string \<Rightarrow> entity \<Rightarrow> string" where
  "entity_key c ELeadership = Leadership c"
| "entity_key c (ERegistry n) = Registry c n"
| "entity_key c (ESession n) = Session c n"
| "entity_key c EConfigMeta = ConfigMeta c"
| "entity_key c (EConfigNode n) = ConfigNode c n"
| "entity_key c (EConfigRole r) = ConfigRole c r"
| "entity_key c (EConfigGroup g) = ConfigClusterGroupMeta c g"
| "entity_key c (EGroupConfig g m) = ManagementGroupConfig c g m"
| "entity_key c (EDesired g m) = Desired c g m"
| "entity_key c (EActual g m) = Actual c g m"
| "entity_key c (EHealth g m) = Health c g m"
| "entity_key c (ERoleActual g m n r) = RoleActual c g m n r"
| "entity_key c (ERoleHealth g m n r) = RoleHealth c g m n r"
| "entity_key c (ECommand i) = CommandKey c i"
| "entity_key c (EHistory i) = CommandHistoryKey c i"

definition root_children :: "string list" where
  "root_children = [''leadership'', ''commands'', ''commands_history'', ''registry'', ''session'', ''config'']"

definition group_ok :: "string \<Rightarrow> bool" where
  "group_ok g \<longleftrightarrow> id_ok g \<and> g \<notin> set root_children"

definition member_ok :: "string \<Rightarrow> bool" where
  "member_ok m \<longleftrightarrow> id_ok m \<and> m \<noteq> ''_meta''"

fun entity_ok :: "entity \<Rightarrow> bool" where
  "entity_ok ELeadership = True"
| "entity_ok (ERegistry n) = id_ok n"
| "entity_ok (ESession n) = id_ok n"
| "entity_ok EConfigMeta = True"
| "entity_ok (EConfigNode n) = id_ok n"
| "entity_ok (EConfigRole r) = id_ok r"
| "entity_ok (EConfigGroup g) = group_ok g"
| "entity_ok (EGroupConfig g m) = (group_ok g \<and> member_ok m)"
| "entity_ok (EDesired g m) = (group_ok g \<and> member_ok m)"
| "entity_ok (EActual g m) = (group_ok g \<and> member_ok m)"
| "entity_ok (EHealth g m) = (group_ok g \<and> member_ok m)"
| "entity_ok (ERoleActual g m n r) = (group_ok g \<and> member_ok m \<and> id_ok n \<and> id_ok r)"
| "entity_ok (ERoleHealth g m n r) = (group_ok g \<and> member_ok m \<and> id_ok n \<and> id_ok r)"
| "entity_ok (ECommand i) = id_ok i"
| "entity_ok (EHistory i) = id_ok i"

fun entity_tail :: "entity \<Rightarrow> string list" where
  "entity_tail ELeadership = [''leadership'']"
| "entity_tail (ERegistry n) = [''registry'', n]"
| "entity_tail (ESession n) = [''session'', n]"
| "entity_tail EConfigMeta = [''config'', ''_meta'']"
| "entity_tail (EConfigNode n) = [''config'', ''nodes'', n]"
| "entity_tail (EConfigRole r) = [''config'', ''roles'', r]"
| "entity_tail (EConfigGroup g) = [''config'', ''cluster_groups'', g, ''_meta'']"
| "entity_tail (EGroupConfig g m) = [''config'', ''cluster_groups'', g, m]"
| "entity_tail (EDesired g m) = [g, m, ''desired'']"
| "entity_tail (EActual g m) = [g, m, ''actual'']"
| "entity_tail (EHealth g m) = [g, m, ''health'']"
| "entity_tail (ERoleActual g m n r) = g # m # (if m = n then [] else [n]) @ [r, ''actual'']"
| "entity_tail (ERoleHealth g m n r) = g # m # (if m = n then [] else [n]) @ [r, ''health'']"
| "entity_tail (ECommand i) = [''commands'', i]"
| "entity_tail (EHistory i) = [''commands_history'', i]"

definition entity_segs :: "string \<Rightarrow> entity \<Rightarrow> string list" where
  "entity_segs c e = c # ''cluster'' # entity_tail e"

lemmas entity_ok_defs = group_ok_def member_ok_def root_children_def

lemma entity_key_path [key_simps]:
  assumes "id_ok c" and "entity_ok e"
  shows "entity_key c e = abs_path (entity_segs c e)"
  using assms by (cases e) (simp_all add: key_simps entity_segs_def entity_ok_defs)

lemma entity_segs_ok:
  assumes "id_ok c" and "entity_ok e"
  shows "\<forall>s \<in> set (entity_segs c e). id_ok s"
  using assms by (cases e) (auto simp: entity_segs_def entity_ok_defs)

lemma entity_tail_inject:
  assumes "entity_ok e" and "entity_ok e'" and "entity_tail e = entity_tail e'"
  shows "e = e'"
  using assms
  by (cases e; cases e') (auto simp: entity_ok_defs split: if_splits)

text \<open>
  Different entities never share a key, so a write to one is never a write to another.
\<close>

lemma entity_key_inject:
  assumes "id_ok c" and "entity_ok e" and "entity_ok e'"
  shows "entity_key c e = entity_key c e' \<longleftrightarrow> e = e'"
proof
  assume "entity_key c e = entity_key c e'"
  then have "entity_segs c e = entity_segs c e'"
    using assms entity_segs_ok by (intro abs_path_inject) (auto simp: key_simps entity_segs_def)
  then show "e = e'" using assms entity_tail_inject by (auto simp: entity_segs_def)
qed simp

text \<open>
  A role or a node named like a group document would put its keys below that document; with
  other names no key is above another.
\<close>

fun entity_strict :: "entity \<Rightarrow> bool" where
  "entity_strict (ERoleActual g m n r) =
     (entity_ok (ERoleActual g m n r) \<and> {n, r} \<inter> {''desired'', ''actual'', ''health''} = {})"
| "entity_strict (ERoleHealth g m n r) =
     (entity_ok (ERoleHealth g m n r) \<and> {n, r} \<inter> {''desired'', ''actual'', ''health''} = {})"
| "entity_strict e = entity_ok e"

lemma entity_strict_ok: "entity_strict e \<Longrightarrow> entity_ok e"
  by (cases e) auto

lemma entity_tail_prefix_free:
  assumes "entity_strict e" and "entity_strict e'" and "take (length (entity_tail e)) (entity_tail e') = entity_tail e"
  shows "e = e'"
  using assms
  by (cases e; cases e') (auto simp: entity_ok_defs split: if_splits)

section \<open>The interface of the key scheme\<close>

locale key_family =
  fixes key :: "'a \<Rightarrow> string"
    and segs :: "'a \<Rightarrow> string list"
    and ok :: "'a \<Rightarrow> bool"
  assumes key_path: "ok a \<Longrightarrow> key a = abs_path (segs a)"
    and segs_id_ok: "ok a \<Longrightarrow> \<forall>s \<in> set (segs a). id_ok s"
    and segs_nonempty: "ok a \<Longrightarrow> segs a \<noteq> []"
    and segs_inject: "ok a \<Longrightarrow> ok b \<Longrightarrow> segs a = segs b \<Longrightarrow> a = b"
begin

lemma key_inject: "ok a \<Longrightarrow> ok b \<Longrightarrow> key a = key b \<longleftrightarrow> a = b"
  using key_path segs_id_ok segs_nonempty segs_inject abs_path_inject [of "segs a" "segs b"] id_seg_ok
  by metis

lemma key_nonempty: "ok a \<Longrightarrow> key a \<noteq> []"
  using key_path by (simp add: abs_path_def)

end

interpretation entity: key_family "\<lambda>(c, e). entity_key c e" "\<lambda>(c, e). entity_segs c e"
  "\<lambda>(c, e). id_ok c \<and> entity_ok e"
  by unfold_locales
    (auto simp: entity_key_path entity_segs_def entity_segs_ok [unfolded entity_segs_def]
      dest: entity_tail_inject)

text \<open>
  C9: a key says what it is about. With well-formed ids, cluster groups that avoid the fixed
  children of the root and management groups that avoid \<^verbatim>\<open>_meta\<close>, two keys the program builds
  are equal only for the same cluster and the same entity, so no two kinds of entry, and no
  two entries of a kind, share a key.
\<close>

theorem keys_identify_entities:
  assumes "id_ok c" and "id_ok c'" and "entity_ok e" and "entity_ok e'"
  shows "entity_key c e = entity_key c' e' \<longleftrightarrow> c = c' \<and> e = e'"
  using entity.key_inject [of "(c, e)" "(c', e')"] assms by simp

theorem keys_identify_entities_witness:
  "entity_key ''c'' (ERoleActual ''g'' ''m'' ''m'' ''r'') \<noteq> entity_key ''c'' (EActual ''g'' ''m'')"
  by (subst keys_identify_entities) (simp_all add: id_ok_def entity_ok_defs)

end
