(* ===== verification/GoTime.thy ===== *)
theory GoTime
  imports Prelude "HOL-Library.Monad_Syntax"
begin

text \<open>
  The part of Go's \<open>time\<close> package that the stored documents depend on: a \<open>time.Time\<close>
  as an instant, and its JSON text (RFC 3339 with nanoseconds, UTC when written). An
  instant is the number of nanoseconds since 0000-01-01T00:00:00Z.
\<close>

section \<open>The calendar\<close>

definition leap :: "int \<Rightarrow> bool" where
  "leap y \<longleftrightarrow> y mod 4 = 0 \<and> (y mod 100 \<noteq> 0 \<or> y mod 400 = 0)"

text \<open>Days before the first of January of year \<open>y\<close>, and the year of a day.\<close>

definition days_before_year :: "int \<Rightarrow> int" where
  "days_before_year y = 365 * y + (y + 3) div 4 - (y + 99) div 100 + (y + 399) div 400"

definition year_of :: "int \<Rightarrow> int" where
  "year_of z =
     (let e = (400 * z) div 146097
      in if z < days_before_year e then e - 1
         else if days_before_year (e + 1) \<le> z then e + 1 else e)"

lemma div_bounds:
  assumes "(0::int) < n"
  shows "n * (a div n) \<le> a" "a < n * (a div n) + n"
  using assms pos_mod_sign [OF assms, of a] pos_mod_bound [OF assms, of a]
    mult_div_mod_eq [of n a] by linarith+

lemma days_before_year_bounds:
  "146097 * y - 396 \<le> 400 * days_before_year y" "400 * days_before_year y \<le> 146097 * y + 699"
  using div_bounds [of 4 "y + 3"] div_bounds [of 100 "y + 99"] div_bounds [of 400 "y + 399"]
  unfolding days_before_year_def by simp_all

lemma year_of_bounds: "days_before_year (year_of z) \<le> z" "z < days_before_year (year_of z + 1)"
proof -
  define e where "e = (400 * z) div 146097"
  have e: "146097 * e \<le> 400 * z" "400 * z < 146097 * (e + 1)"
    using div_bounds [of 146097 "400 * z"] unfolding e_def by simp_all
  have lo: "days_before_year (e - 1) \<le> z" and hi: "z < days_before_year (e + 2)"
    using e days_before_year_bounds(2) [of "e - 1"] days_before_year_bounds(1) [of "e + 2"]
    by (simp_all add: algebra_simps)
  have y: "year_of z = (if z < days_before_year e then e - 1
         else if days_before_year (e + 1) \<le> z then e + 1 else e)"
    by (simp add: year_of_def e_def Let_def)
  show "days_before_year (year_of z) \<le> z" using lo by (simp add: y)
  show "z < days_before_year (year_of z + 1)" using hi by (simp add: y add.commute)
qed

lemma div_Suc_int:
  assumes "(0::int) < n"
  shows "(a + 1) div n = a div n + (if (a + 1) mod n = 0 then 1 else 0)"
proof -
  have a: "a = n * (a div n) + a mod n" by simp
  show ?thesis
  proof (cases "a mod n = n - 1")
    case True
    then have "a + 1 = n * (a div n) + n" using a by linarith
    then have "a + 1 = n * (a div n + 1)" by (simp add: distrib_left)
    then show ?thesis using assms by simp
  next
    case False
    then have "0 \<le> a mod n + 1" "a mod n + 1 < n"
      using pos_mod_sign [OF assms, of a] pos_mod_bound [OF assms, of a] by linarith+
    moreover have eq: "a + 1 = n * (a div n) + (a mod n + 1)" using a by linarith
    ultimately have "(a + 1) div n = a div n" "(a + 1) mod n = a mod n + 1"
      by (blast intro: int_div_pos_eq int_mod_pos_eq)+
    then show ?thesis using pos_mod_sign [OF assms, of a] by simp
  qed
qed

lemma div_next:
  assumes "(0::int) < n" and "m = n - 1"
  shows "(y + n) div n = (y + m) div n + (if y mod n = 0 then 1 else 0)"
  using div_Suc_int [of n "y + m"] assms by simp

lemma days_in_year:
  "days_before_year (y + 1) - days_before_year y = (if leap y then 366 else 365)"
proof -
  define p q r where "p \<longleftrightarrow> y mod 4 = 0" and "q \<longleftrightarrow> y mod 100 = 0" and "r \<longleftrightarrow> y mod 400 = 0"
  have d: "(y + 4) div 4 = (y + 3) div 4 + (if p then 1 else 0)"
    "(y + 100) div 100 = (y + 99) div 100 + (if q then 1 else 0)"
    "(y + 400) div 400 = (y + 399) div 400 + (if r then 1 else 0)"
    unfolding p_def q_def r_def by (rule div_next; simp)+
  have "y + 1 + 3 = y + 4" "y + 1 + 99 = y + 100" "y + 1 + 399 = y + 400" by simp_all
  then have s: "days_before_year (y + 1) = 365 * (y + 1) + ((y + 3) div 4 + (if p then 1 else 0))
      - ((y + 99) div 100 + (if q then 1 else 0)) + ((y + 399) div 400 + (if r then 1 else 0))"
    unfolding days_before_year_def by (simp only: d)
  have "q \<Longrightarrow> p"
    using dvd_trans [of 4 100 y] by (simp add: p_def q_def mod_eq_0_iff_dvd)
  moreover have "r \<Longrightarrow> q"
    using dvd_trans [of 100 400 y] by (simp add: q_def r_def mod_eq_0_iff_dvd)
  moreover have "leap y \<longleftrightarrow> p \<and> (\<not> q \<or> r)"
    by (simp add: leap_def p_def q_def r_def)
  ultimately show ?thesis
    unfolding s unfolding days_before_year_def
    by (cases p; cases q; cases r) simp_all
qed

text \<open>Month and day of a day of the year, counted from 0.\<close>

fun month_start :: "bool \<Rightarrow> int \<Rightarrow> int" where
  "month_start lp m =
     (let l = (if lp then 1 else 0)
      in if m \<le> 1 then 0 else if m = 2 then 31 else if m = 3 then 59 + l else if m = 4 then 90 + l
      else if m = 5 then 120 + l else if m = 6 then 151 + l else if m = 7 then 181 + l
      else if m = 8 then 212 + l else if m = 9 then 243 + l else if m = 10 then 273 + l
      else if m = 11 then 304 + l else if m = 12 then 334 + l else 365 + l)"

definition month_len :: "bool \<Rightarrow> int \<Rightarrow> int" where
  "month_len lp m = month_start lp (m + 1) - month_start lp m"

text \<open>The month is found by walking through the months from \<open>m\<close> on.\<close>

fun month_day :: "nat \<Rightarrow> bool \<Rightarrow> int \<Rightarrow> int \<Rightarrow> int \<times> int" where
  "month_day 0 lp m d = (m, d - month_start lp m + 1)"
| "month_day (Suc k) lp m d =
     (if d < month_start lp (m + 1) then (m, d - month_start lp m + 1)
      else month_day k lp (m + 1) d)"

lemma month_len_le:
  assumes "1 \<le> m" and "m \<le> 12"
  shows "month_len lp m \<le> 31"
proof -
  have "m = 1 \<or> m = 2 \<or> m = 3 \<or> m = 4 \<or> m = 5 \<or> m = 6 \<or> m = 7 \<or> m = 8 \<or> m = 9
    \<or> m = 10 \<or> m = 11 \<or> m = 12" using assms by arith
  then show ?thesis by (elim disjE) (simp_all add: month_len_def)
qed

lemma month_day_bounds:
  assumes "month_day k lp m d = (m', j)" and "month_start lp m \<le> d"
    and "d < month_start lp (m + int k + 1)"
  shows "m \<le> m' \<and> m' \<le> m + int k \<and> 1 \<le> j \<and> j \<le> month_len lp m'
    \<and> month_start lp m' + j - 1 = d"
  using assms
proof (induction k arbitrary: m)
  case 0
  then show ?case by (auto simp: month_len_def simp del: month_start.simps)
next
  case (Suc k)
  show ?case
  proof (cases "d < month_start lp (m + 1)")
    case True
    with Suc.prems show ?thesis by (auto simp: month_len_def simp del: month_start.simps)
  next
    case False
    with Suc.prems Suc.IH [of "m + 1"] show ?thesis
      by (simp add: add_ac del: month_start.simps)
  qed
qed

section \<open>Decimal fields\<close>

definition dig :: "int \<Rightarrow> char" where
  "dig d = char_of (nat d + 48)"

definition undig :: "char \<Rightarrow> int option" where
  "undig c = (let n = of_char c :: int in if 48 \<le> n \<and> n \<le> 57 then Some (n - 48) else None)"

lemma undig_dig [simp]: "0 \<le> d \<Longrightarrow> d < 10 \<Longrightarrow> undig (dig d) = Some d"
proof -
  assume d: "0 \<le> d" "d < 10"
  have "(of_char (dig d) :: int) = (d + 48) mod 256"
    using d of_nat_of_char [of "char_of (nat d + 48)", where 'a = int]
    by (simp add: dig_def of_char_of take_bit_eq_mod del: of_nat_of_char)
  then show ?thesis using d by (simp add: undig_def)
qed

fun digs :: "nat \<Rightarrow> int \<Rightarrow> int list" where
  "digs 0 n = []"
| "digs (Suc k) n = digs k (n div 10) @ [n mod 10]"

definition pad :: "nat \<Rightarrow> int \<Rightarrow> string" where
  "pad k n = map dig (digs k n)"

fun take_digits :: "nat \<Rightarrow> int \<Rightarrow> string \<Rightarrow> (int \<times> string) option" where
  "take_digits 0 acc s = Some (acc, s)"
| "take_digits (Suc k) acc [] = None"
| "take_digits (Suc k) acc (c # s) =
     (case undig c of None \<Rightarrow> None | Some d \<Rightarrow> take_digits k (10 * acc + d) s)"

lemma length_digs [simp]: "length (digs k n) = k"
  by (induction k arbitrary: n) auto

lemma digs_range: "d \<in> set (digs k n) \<Longrightarrow> 0 \<le> d \<and> d < 10"
  by (induction k arbitrary: n) auto

definition digits_value :: "int \<Rightarrow> int list \<Rightarrow> int" where
  "digits_value = foldl (\<lambda>a d. 10 * a + d)"

lemma digits_value_digs: "digits_value 0 (digs k n) = n mod 10 ^ k"
proof (induction k arbitrary: n)
  case 0
  then show ?case by (simp add: digits_value_def)
next
  case (Suc k)
  have "digits_value 0 (digs (Suc k) n) = 10 * (n div 10 mod 10 ^ k) + n mod 10"
    using Suc [of "n div 10"] by (simp add: digits_value_def)
  also have "\<dots> = n mod 10 ^ Suc k"
    using zmod_zmult2_eq [of "10 ^ k" n 10] by simp
  finally show ?case .
qed

lemma take_digits_map:
  assumes "\<And>d. d \<in> set ds \<Longrightarrow> 0 \<le> d \<and> d < 10"
  shows "take_digits (length ds) a (map dig ds @ s) = Some (digits_value a ds, s)"
  using assms
proof (induction ds arbitrary: a)
  case Nil
  then show ?case by (simp add: digits_value_def)
next
  case (Cons d ds)
  then show ?case by (simp add: digits_value_def)
qed

lemma take_digits_pad:
  assumes "0 \<le> n" and "n < 10 ^ k"
  shows "take_digits k 0 (pad k n @ s) = Some (n, s)"
  using take_digits_map [of "digs k n" 0 s] digs_range [of _ k n] assms
  by (simp add: pad_def digits_value_digs)

section \<open>RFC 3339\<close>

definition ns_per_s :: int where "ns_per_s = 1000000000"
definition ns_per_day :: int where "ns_per_day = 86400 * ns_per_s"

text \<open>The zero \<open>time.Time\<close> is 0001-01-01T00:00:00Z; year 10000 cannot be marshalled.\<close>

definition zero_time :: int where "zero_time = 366 * ns_per_day"
definition end_time :: int where "end_time = 3652425 * ns_per_day"

definition time_ok :: "int \<Rightarrow> bool" where
  "time_ok t \<longleftrightarrow> 0 \<le> t \<and> t < end_time"

text \<open>The fraction of a second: nine digits without the trailing zeros.\<close>

definition strip_zeros :: "int list \<Rightarrow> int list" where
  "strip_zeros ds = rev (dropWhile (\<lambda>d. d = 0) (rev ds))"

definition fraction :: "int \<Rightarrow> string" where
  "fraction ns = (if ns = 0 then [] else CHR ''.'' # map dig (strip_zeros (digs 9 ns)))"

definition rfc3339 :: "int \<Rightarrow> string" where
  "rfc3339 t =
     (let z = t div ns_per_day; sod = (t mod ns_per_day) div ns_per_s; ns = t mod ns_per_s;
          y = year_of z; (m, d) = month_day 11 (leap y) 1 (z - days_before_year y)
      in pad 4 y @ CHR ''-'' # pad 2 m @ CHR ''-'' # pad 2 d @ CHR ''T'' #
         pad 2 (sod div 3600) @ CHR '':'' # pad 2 (sod mod 3600 div 60) @ CHR '':'' #
         pad 2 (sod mod 60) @ fraction ns @ ''Z'')"

text \<open>\<open>Time.MarshalJSON\<close>: \<open>None\<close> is "year outside of range [0,9999]".\<close>

definition time_text :: "int \<Rightarrow> string option" where
  "time_text t = (if time_ok t then Some (rfc3339 t) else None)"

fun expect :: "char \<Rightarrow> string \<Rightarrow> string option" where
  "expect c [] = None"
| "expect c (x # s) = (if x = c then Some s else None)"

fun span_digits :: "string \<Rightarrow> int list \<times> string" where
  "span_digits [] = ([], [])"
| "span_digits (c # s) =
     (case undig c of None \<Rightarrow> ([], c # s) | Some d \<Rightarrow> (let (ds, r) = span_digits s in (d # ds, r)))"

definition parse_fraction :: "string \<Rightarrow> (int \<times> string) option" where
  "parse_fraction s = (case s of
     [] \<Rightarrow> Some (0, s)
   | c # r \<Rightarrow> if c = CHR ''.'' then
       (let (ds, r') = span_digits r
        in if ds = [] then None else Some (digits_value 0 (take 9 (ds @ replicate 9 0)), r'))
     else Some (0, s))"

definition parse_zone :: "string \<Rightarrow> (int \<times> string) option" where
  "parse_zone s = (case s of
     [] \<Rightarrow> None
   | c # r \<Rightarrow> if c = CHR ''Z'' then Some (0, r)
       else if c = CHR ''+'' \<or> c = CHR ''-'' then
         do { (h, r) \<leftarrow> take_digits 2 0 r; r \<leftarrow> expect (CHR '':'') r; (m, r) \<leftarrow> take_digits 2 0 r;
              if h < 24 \<and> m < 60
              then Some ((if c = CHR ''+'' then 1 else -1) * (h * 3600 + m * 60), r) else None }
       else None)"

definition parse_time :: "string \<Rightarrow> int option" where
  "parse_time s =
     do { (y, s) \<leftarrow> take_digits 4 0 s; s \<leftarrow> expect (CHR ''-'') s;
          (m, s) \<leftarrow> take_digits 2 0 s; s \<leftarrow> expect (CHR ''-'') s;
          (d, s) \<leftarrow> take_digits 2 0 s; s \<leftarrow> expect (CHR ''T'') s;
          (hh, s) \<leftarrow> take_digits 2 0 s; s \<leftarrow> expect (CHR '':'') s;
          (mm, s) \<leftarrow> take_digits 2 0 s; s \<leftarrow> expect (CHR '':'') s;
          (ss, s) \<leftarrow> take_digits 2 0 s;
          (ns, s) \<leftarrow> parse_fraction s;
          (off, s) \<leftarrow> parse_zone s;
          if s = [] \<and> 1 \<le> m \<and> m \<le> 12 \<and> 1 \<le> d \<and> d \<le> month_len (leap y) m \<and>
             hh < 24 \<and> mm < 60 \<and> ss < 60
          then Some ((days_before_year y + month_start (leap y) m + d - 1) * ns_per_day
                 + (hh * 3600 + mm * 60 + ss - off) * ns_per_s + ns)
          else None }"

subsection \<open>Round trip\<close>

lemma span_digits_map:
  assumes "\<And>d. d \<in> set ds \<Longrightarrow> 0 \<le> d \<and> d < 10" and "s = [] \<or> undig (hd s) = None"
  shows "span_digits (map dig ds @ s) = (ds, s)"
  using assms
proof (induction ds)
  case Nil
  then show ?case by (cases s) auto
next
  case (Cons d ds)
  then show ?case by simp
qed

lemma length_strip_zeros: "length (strip_zeros ds) \<le> length ds"
  by (metis length_dropWhile_le length_rev strip_zeros_def)

lemma strip_zeros_fill:
  "strip_zeros ds @ replicate (length ds - length (strip_zeros ds)) 0 = ds"
proof (induction ds rule: rev_induct)
  case Nil
  then show ?case by (simp add: strip_zeros_def)
next
  case (snoc d ds)
  with length_strip_zeros [of ds] show ?case
    by (auto simp: strip_zeros_def Suc_diff_le replicate_append_same [symmetric])
qed

lemma digits_value_zeros: "digits_value 0 (replicate k 0) = 0"
  by (induction k) (simp_all add: digits_value_def)

lemma parse_fraction_fraction:
  assumes "0 \<le> ns" and "ns < ns_per_s"
  shows "parse_fraction (fraction ns @ ''Z'') = Some (ns, ''Z'')"
proof (cases "ns = 0")
  case True
  then show ?thesis by (simp add: fraction_def parse_fraction_def)
next
  case False
  let ?ds = "strip_zeros (digs 9 ns)"
  have val: "digits_value 0 (digs 9 ns) = ns"
    using assms by (simp add: digits_value_digs ns_per_s_def)
  have fill: "?ds @ replicate (9 - length ?ds) 0 = digs 9 ns"
    using strip_zeros_fill [of "digs 9 ns"] by simp
  have t: "take 9 (?ds @ replicate 9 0) = digs 9 ns"
    using fill length_strip_zeros [of "digs 9 ns"] by (simp add: min_def)
  have "set ?ds \<subseteq> set (digs 9 ns)"
    by (metis (no_types) fill Un_upper1 set_append)
  then have "span_digits (map dig ?ds @ ''Z'') = (?ds, ''Z'')"
    using digs_range [of _ 9 ns] by (intro span_digits_map) (auto simp: undig_def)
  moreover have "?ds \<noteq> []"
  proof
    assume "?ds = []"
    then have "digs 9 ns = replicate 9 0" using fill by simp
    then have "digits_value 0 (digs 9 ns) = 0" by (simp only: digits_value_zeros)
    with val False show False by simp
  qed
  ultimately show ?thesis using False t val
    by (simp add: fraction_def parse_fraction_def)
qed

lemma time_split:
  assumes "0 \<le> t"
  shows "t = t div ns_per_day * ns_per_day + (t mod ns_per_day) div ns_per_s * ns_per_s + t mod ns_per_s"
    and "0 \<le> (t mod ns_per_day) div ns_per_s" and "(t mod ns_per_day) div ns_per_s < 86400"
proof -
  have pos: "0 < ns_per_s" "0 < ns_per_day" by (simp_all add: ns_per_s_def ns_per_day_def)
  have "t mod ns_per_day mod ns_per_s = t mod ns_per_s"
    by (rule mod_mod_cancel) (simp add: ns_per_day_def)
  then show "t = t div ns_per_day * ns_per_day + (t mod ns_per_day) div ns_per_s * ns_per_s
      + t mod ns_per_s"
    using div_mult_mod_eq [of t ns_per_day] div_mult_mod_eq [of "t mod ns_per_day" ns_per_s] by linarith
  have r: "0 \<le> t mod ns_per_day" "t mod ns_per_day < 86400 * ns_per_s"
    using pos_mod_sign [OF pos(2), of t] pos_mod_bound [OF pos(2), of t]
    by (simp_all add: ns_per_day_def)
  then show "0 \<le> (t mod ns_per_day) div ns_per_s"
    using pos by (simp add: pos_imp_zdiv_nonneg_iff)
  show "(t mod ns_per_day) div ns_per_s < 86400"
  proof -
    have "ns_per_s * (t mod ns_per_day div ns_per_s) < ns_per_s * 86400"
      using div_bounds(1) [OF pos(1), of "t mod ns_per_day"] r(2) by (simp add: mult.commute)
    then show ?thesis using pos(1) mult_less_cancel_left_pos by blast
  qed
qed

lemma hms_split:
  assumes "0 \<le> (s::int)" and "s < 86400"
  shows "s div 3600 * 3600 + s mod 3600 div 60 * 60 + s mod 60 = s"
    and "0 \<le> s div 3600" "s div 3600 < 24" "0 \<le> s mod 3600 div 60" "s mod 3600 div 60 < 60"
    and "0 \<le> s mod 60" "s mod 60 < 60"
proof -
  define h r where "h = s div 3600" and "r = s mod 3600"
  define m where "m = r div 60"
  have r: "h * 3600 + r = s" "0 \<le> r" "r < 3600"
    by (simp_all add: h_def r_def)
  have "r mod 60 = s mod 60"
    unfolding r_def by (rule mod_mod_cancel) simp
  then have m: "m * 60 + s mod 60 = r" "0 \<le> s mod 60" "s mod 60 < 60"
    using div_mult_mod_eq [of r 60] by (simp_all add: m_def)
  define k where "k = s mod 60"
  have "h * 3600 + m * 60 + k = s" "0 \<le> h" "h < 24" "0 \<le> m" "m < 60"
    using assms r m unfolding k_def [symmetric] by linarith+
  then show "s div 3600 * 3600 + s mod 3600 div 60 * 60 + s mod 60 = s"
    "0 \<le> s div 3600" "s div 3600 < 24" "0 \<le> s mod 3600 div 60" "s mod 3600 div 60 < 60"
    "0 \<le> s mod 60" "s mod 60 < 60"
    using m(2,3) unfolding k_def m_def r_def h_def by blast+
qed

lemma days_before_year_mono:
  assumes "a \<le> b" shows "days_before_year a \<le> days_before_year b"
  using assms
proof (induction b rule: int_ge_induct)
  case base
  show ?case by simp
next
  case (step b)
  have "days_before_year b \<le> days_before_year (b + 1)"
    using days_in_year [of b] by (simp split: if_splits)
  with step show ?case by (rule_tac order_trans)
qed

lemma parse_time_fields:
  assumes "0 \<le> y" "y < 10 ^ 4" "1 \<le> m" "m \<le> 12" "1 \<le> d" "d \<le> month_len (leap y) m"
    and "0 \<le> hh" "hh < 24" "0 \<le> mm" "mm < 60" "0 \<le> ss" "ss < 60" "0 \<le> ns" "ns < ns_per_s"
  shows "parse_time (pad 4 y @ CHR ''-'' # pad 2 m @ CHR ''-'' # pad 2 d @ CHR ''T'' #
         pad 2 hh @ CHR '':'' # pad 2 mm @ CHR '':'' # pad 2 ss @ fraction ns @ ''Z'') =
      Some ((days_before_year y + month_start (leap y) m + d - 1) * ns_per_day
        + (hh * 3600 + mm * 60 + ss) * ns_per_s + ns)"
proof -
  have "d \<le> 31" using assms(3-6) month_len_le [of m "leap y"] by simp
  then have t: "take_digits 4 0 (pad 4 y @ s) = Some (y, s)" "take_digits 2 0 (pad 2 m @ s) = Some (m, s)"
    "take_digits 2 0 (pad 2 d @ s) = Some (d, s)" "take_digits 2 0 (pad 2 hh @ s) = Some (hh, s)"
    "take_digits 2 0 (pad 2 mm @ s) = Some (mm, s)" "take_digits 2 0 (pad 2 ss @ s) = Some (ss, s)" for s
    using assms by (auto intro!: take_digits_pad simp del: month_start.simps)
  have z: "parse_zone ''Z'' = Some (0, [])" by (simp add: parse_zone_def)
  show ?thesis
    unfolding parse_time_def
    using assms by (simp add: t z parse_fraction_fraction del: month_start.simps)
qed

text \<open>What is written reads back: the instant of a marshalled time survives the JSON.\<close>

lemma parse_rfc3339:
  assumes "time_ok t"
  shows "parse_time (rfc3339 t) = Some t"
proof -
  have t0: "0 \<le> t" and t1: "t < end_time" using assms by (simp_all add: time_ok_def)
  define z sod ns where "z = t div ns_per_day" and "sod = (t mod ns_per_day) div ns_per_s"
    and "ns = t mod ns_per_s"
  define y where "y = year_of z"
  obtain m d where md: "month_day 11 (leap y) 1 (z - days_before_year y) = (m, d)" by fastforce
  have z: "0 \<le> z" "z < 3652425"
  proof -
    have pos: "0 < ns_per_day" by (simp add: ns_per_day_def ns_per_s_def)
    then show "0 \<le> z" using t0 by (simp add: z_def pos_imp_zdiv_nonneg_iff)
    have "ns_per_day * z < ns_per_day * 3652425"
      using div_bounds(1) [OF pos, of t] t1 by (simp add: z_def end_time_def mult.commute)
    then show "z < 3652425" using pos mult_less_cancel_left_pos by blast
  qed
  have yb: "days_before_year y \<le> z" "z < days_before_year (y + 1)"
    using year_of_bounds by (simp_all add: y_def)
  have d0: "days_before_year 0 = 0" and d1: "days_before_year 10000 = 3652425"
    by (simp_all add: days_before_year_def)
  have "0 \<le> y"
  proof (rule ccontr)
    assume "\<not> 0 \<le> y"
    then have "days_before_year (y + 1) \<le> 0"
      using days_before_year_mono [of "y + 1" 0] d0 by simp
    then show False using yb z by linarith
  qed
  moreover have "y < 10000"
  proof (rule ccontr)
    assume "\<not> y < 10000"
    then have "3652425 \<le> days_before_year y"
      using days_before_year_mono [of 10000 y] d1 by simp
    then show False using yb z by linarith
  qed
  ultimately have y: "0 \<le> y" "y < 10 ^ 4" by simp_all
  have ms: "month_start (leap y) 13 = (if leap y then 366 else 365)" "month_start (leap y) 1 = 0"
    by simp_all
  have b: "1 \<le> m" "m \<le> 12" "1 \<le> d" "d \<le> month_len (leap y) m"
      "month_start (leap y) m + d - 1 = z - days_before_year y"
    using month_day_bounds [OF md] yb days_in_year [of y] ms by (auto simp del: month_start.simps)
  have ns: "0 \<le> ns" "ns < ns_per_s" by (simp_all add: ns_def ns_per_s_def)
  note sod = time_split [OF t0, folded sod_def ns_def z_def]
  note hms = hms_split [OF sod(2,3)]
  have "rfc3339 t = pad 4 y @ CHR ''-'' # pad 2 m @ CHR ''-'' # pad 2 d @ CHR ''T'' #
         pad 2 (sod div 3600) @ CHR '':'' # pad 2 (sod mod 3600 div 60) @ CHR '':'' #
         pad 2 (sod mod 60) @ fraction ns @ ''Z''"
    unfolding rfc3339_def Let_def
    by (simp only: md z_def [symmetric] sod_def [symmetric] ns_def [symmetric] y_def [symmetric] prod.case)
  then have "parse_time (rfc3339 t) =
      Some ((days_before_year y + month_start (leap y) m + d - 1) * ns_per_day
        + (sod div 3600 * 3600 + sod mod 3600 div 60 * 60 + sod mod 60) * ns_per_s + ns)"
    by (simp only: parse_time_fields [OF y b(1-4) hms(2-7) ns])
  moreover have "days_before_year y + month_start (leap y) m + d - 1 = z" using b(5) by linarith
  ultimately show ?thesis by (simp only: hms(1) sod(1) [symmetric])
qed

lemma time_text_parse: "time_text t = Some s \<Longrightarrow> parse_time s = Some t"
  by (auto simp: time_text_def parse_rfc3339 split: if_splits)

end
