(* ===== verification/Json.thy ===== *)
theory Json
  imports GoTime
begin

text \<open>
  What the program uses of \<^verbatim>\<open>encoding/json\<close>. A \<^verbatim>\<open>[]byte\<close> is kept up to the equivalence
  the program can observe through that package: either a valid JSON text, represented by
  its tree, or any other bytes. A JSON integer literal is \<open>JInt\<close>; a literal with a fraction
  or an exponent is \<open>JReal\<close>. The texts of the errors of the package are not modelled: one
  constant stands for them.
\<close>

section \<open>Trees and byte slices\<close>

datatype json =
    JNull
  | JBool bool
  | JInt int
  | JReal string
  | JStr string
  | JArr "json list"
  | JObj "(string \<times> json) list"

datatype bytes = JSON json | Text string

text \<open>\<^verbatim>\<open>len(b) == 0\<close> and \<^verbatim>\<open>json.Valid(b)\<close>.\<close>

definition no_bytes :: bytes where "no_bytes = Text []"

fun json_valid :: "bytes \<Rightarrow> bool" where
  "json_valid (JSON j) = True"
| "json_valid (Text s) = False"

definition json_error :: error where "json_error = ''json: cannot unmarshal''"

section \<open>Unmarshalling\<close>

text \<open>
  Object keys match field names up to ASCII case. A field is assigned once per matching
  key, in the order of the text; \<^verbatim>\<open>null\<close> leaves a scalar or a struct as it is and clears a
  slice, a map or a pointer.
\<close>

definition lower :: "char \<Rightarrow> char" where
  "lower c = (let n = of_char c :: nat in if 65 \<le> n \<and> n \<le> 90 then char_of (n + 32) else c)"

definition same_field :: "string \<Rightarrow> string \<Rightarrow> bool" where
  "same_field k n \<longleftrightarrow> map lower k = map lower n"

definition field_values :: "string \<Rightarrow> (string \<times> json) list \<Rightarrow> json list" where
  "field_values n kvs = map snd (filter (\<lambda>(k, v). same_field k n) kvs)"

fun assign :: "('a \<Rightarrow> 'a) \<Rightarrow> (json \<Rightarrow> 'a option) \<Rightarrow> json list \<Rightarrow> 'a \<Rightarrow> 'a option" where
  "assign nul conv [] a = Some a"
| "assign nul conv (v # vs) a =
     (if v = JNull then assign nul conv vs (nul a)
      else case conv v of None \<Rightarrow> None | Some b \<Rightarrow> assign nul conv vs b)"

definition read_field :: "(json \<Rightarrow> 'a option) \<Rightarrow> 'a \<Rightarrow> string \<Rightarrow> (string \<times> json) list \<Rightarrow> 'a option" where
  "read_field conv zero n kvs = assign id conv (field_values n kvs) zero"

definition read_list :: "(json \<Rightarrow> 'a list option) \<Rightarrow> string \<Rightarrow> (string \<times> json) list \<Rightarrow> 'a list option" where
  "read_list conv n kvs = assign (\<lambda>_. []) conv (field_values n kvs) []"

definition read_ptr :: "(json \<Rightarrow> 'a option) \<Rightarrow> string \<Rightarrow> (string \<times> json) list \<Rightarrow> 'a option option" where
  "read_ptr conv n kvs = assign (\<lambda>_. None) (\<lambda>v. map_option Some (conv v)) (field_values n kvs) None"

text \<open>The conversions of a field by its Go type.\<close>

fun as_string :: "json \<Rightarrow> string option" where
  "as_string (JStr s) = Some s"
| "as_string _ = None"

fun as_bool :: "json \<Rightarrow> bool option" where
  "as_bool (JBool b) = Some b"
| "as_bool _ = None"

definition int64 :: "int \<Rightarrow> bool" where
  "int64 i \<longleftrightarrow> - (2 ^ 63) \<le> i \<and> i < 2 ^ 63"

fun as_int :: "json \<Rightarrow> int option" where
  "as_int (JInt i) = (if int64 i then Some i else None)"
| "as_int _ = None"

fun as_time :: "json \<Rightarrow> int option" where
  "as_time (JStr s) = parse_time s"
| "as_time _ = None"

definition or_zero :: "'a \<Rightarrow> (json \<Rightarrow> 'a option) \<Rightarrow> json \<Rightarrow> 'a option" where
  "or_zero z conv v = (if v = JNull then Some z else conv v)"

fun as_list :: "'a \<Rightarrow> (json \<Rightarrow> 'a option) \<Rightarrow> json \<Rightarrow> 'a list option" where
  "as_list z conv (JArr vs) = those (map (or_zero z conv) vs)"
| "as_list z conv _ = None"

fun as_struct :: "((string \<times> json) list \<Rightarrow> 'a option) \<Rightarrow> json \<Rightarrow> 'a option" where
  "as_struct f (JObj kvs) = f kvs"
| "as_struct f _ = None"

fun as_map :: "'a \<Rightarrow> (json \<Rightarrow> 'a option) \<Rightarrow> json \<Rightarrow> (string \<times> 'a) list option" where
  "as_map z conv (JObj kvs) =
     map_option (\<lambda>vs. go_map (zip (map fst kvs) vs)) (those (map (\<lambda>(k, v). or_zero z conv v) kvs))"
| "as_map z conv _ = None"

text \<open>\<^verbatim>\<open>json.Unmarshal(b, &doc)\<close> into a zero struct; \<open>None\<close> is a non-nil error.\<close>

definition unmarshal :: "((string \<times> json) list \<Rightarrow> 'a option) \<Rightarrow> bytes \<Rightarrow> 'a option" where
  "unmarshal f b = (case b of
     Text s \<Rightarrow> None
   | JSON j \<Rightarrow> (case j of JNull \<Rightarrow> f [] | JObj kvs \<Rightarrow> f kvs | _ \<Rightarrow> None))"

lemma unmarshal_Text [simp]: "unmarshal f (Text s) = None"
  by (simp add: unmarshal_def)

lemma unmarshal_obj [simp]: "unmarshal f (JSON (JObj kvs)) = f kvs"
  by (simp add: unmarshal_def)

lemma unmarshal_str [simp]: "unmarshal f (JSON (JStr s)) = None"
  by (simp add: unmarshal_def)

section \<open>Marshalling\<close>

text \<open>The \<^verbatim>\<open>omitempty\<close> fields.\<close>

definition omit_str :: "string \<Rightarrow> string \<Rightarrow> (string \<times> json) list" where
  "omit_str n s = (if s = [] then [] else [(n, JStr s)])"

definition omit_int :: "string \<Rightarrow> int \<Rightarrow> (string \<times> json) list" where
  "omit_int n i = (if i = 0 then [] else [(n, JInt i)])"

definition omit_list :: "string \<Rightarrow> ('a \<Rightarrow> json) \<Rightarrow> 'a list \<Rightarrow> (string \<times> json) list" where
  "omit_list n f xs = (if xs = [] then [] else [(n, JArr (map f xs))])"

definition omit_bool :: "string \<Rightarrow> bool \<Rightarrow> (string \<times> json) list" where
  "omit_bool n b = (if b then [(n, JBool True)] else [])"

section \<open>Reading back what was written\<close>

lemma field_values_Nil [simp]: "field_values n [] = []"
  by (simp add: field_values_def)

lemma field_values_Cons [simp]:
  "field_values n ((k, v) # kvs) = (if same_field k n then v # field_values n kvs else field_values n kvs)"
  by (simp add: field_values_def)

lemma field_values_append [simp]: "field_values n (xs @ ys) = field_values n xs @ field_values n ys"
  by (simp add: field_values_def)

lemma same_field_refl [simp]: "same_field n n"
  by (simp add: same_field_def)

lemma same_field_other [simp]:
  "length k \<noteq> length n \<Longrightarrow> \<not> same_field k n"
  by (metis length_map same_field_def)

lemma field_values_omit [simp]:
  "\<not> same_field k n \<Longrightarrow> field_values n (omit_str k s) = []"
  "\<not> same_field k n \<Longrightarrow> field_values n (omit_int k i) = []"
  "\<not> same_field k n \<Longrightarrow> field_values n (omit_bool k b) = []"
  "\<not> same_field k n \<Longrightarrow> field_values n (omit_list k f xs) = []"
  by (simp_all add: omit_str_def omit_int_def omit_bool_def omit_list_def)

lemma assign_omit [simp]:
  "assign id as_string (field_values n (omit_str n s)) [] = Some s"
  "assign id as_bool (field_values n (omit_bool n b)) False = Some b"
  "int64 i \<Longrightarrow> assign id as_int (field_values n (omit_int n i)) 0 = Some i"
  by (simp_all add: omit_str_def omit_bool_def omit_int_def)

lemma those_map_Some: "(\<And>x. x \<in> set xs \<Longrightarrow> f x = Some (g x)) \<Longrightarrow> those (map f xs) = Some (map g xs)"
  by (induction xs) auto

lemma as_list_map [simp]:
  assumes "\<And>x. x \<in> set xs \<Longrightarrow> conv (f x) = Some x \<and> f x \<noteq> JNull"
  shows "as_list z conv (JArr (map f xs)) = Some xs"
proof -
  have "those (map (\<lambda>x. or_zero z conv (f x)) xs) = Some (map id xs)"
    using assms by (intro those_map_Some) (simp add: or_zero_def)
  then show ?thesis by (simp add: comp_def)
qed

lemma as_list_strings [simp]: "as_list z as_string (JArr (map JStr ss)) = Some ss"
  by (rule as_list_map) simp

lemma assign_omit_strings [simp]:
  "assign nul (as_list z as_string) (field_values n (omit_list n JStr ss)) [] = Some ss"
  by (simp add: omit_list_def del: as_list.simps)

end
