(* ===== verification/Store.thy ===== *)
theory Store
  imports Keys Json "HOL-Library.Sublist"
begin

text \<open>
  \<^verbatim>\<open>internal/store/store.go\<close>: the in-memory cache of etcd, a tree indexed by path segments.
  The mutex makes each method one step; the logger is left out. The children of a node are
  a Go map, in the order the runtime would iterate it.
\<close>

section \<open>Data\<close>

datatype EventType = EventPut | EventDelete

record Event =
  ev_Type :: EventType
  ev_Key :: string
  ev_Value :: bytes
  ev_Revision :: int

datatype TreeNode = TreeNode (node_name: string) (node_value: bytes) (node_children: "(string \<times> TreeNode) list")

text \<open>\<open>notify\<close> is the channel of capacity one: whether a token is in it.\<close>

record StateStore =
  root :: TreeNode
  revision :: int
  ready :: bool
  notify :: bool

definition empty_root :: TreeNode where
  "empty_root = TreeNode [] no_bytes []"

definition new_store :: StateStore where
  "new_store = \<lparr>root = empty_root, revision = 0, ready = False, notify = False\<rparr>"

definition sendNotify :: "StateStore \<Rightarrow> StateStore" where
  "sendNotify s = (if notify s then s else s\<lparr>notify := True\<rparr>)"

section \<open>Helpers on keys and values\<close>

text \<open>\<^verbatim>\<open>split\<close>: \<^verbatim>\<open>strings.Trim(key, "/")\<close>, then \<^verbatim>\<open>strings.Split\<close>.\<close>

definition trim_slashes :: "string \<Rightarrow> string" where
  "trim_slashes s = rev (dropWhile (\<lambda>c. c = slash) (rev (dropWhile (\<lambda>c. c = slash) s)))"

definition split :: "string \<Rightarrow> string list" where
  "split key = (let k = trim_slashes key in if k = [] then [] else split_slash k)"

definition trim_right_slash :: "string \<Rightarrow> string" where
  "trim_right_slash s = rev (dropWhile (\<lambda>c. c = slash) (rev s))"

text \<open>Bytes that are not valid JSON become a JSON string.\<close>

fun normalizeJSON :: "bytes \<Rightarrow> bytes" where
  "normalizeJSON (JSON j) = JSON j"
| "normalizeJSON (Text s) = JSON (JStr s)"

section \<open>The tree\<close>

text \<open>The loop of \<^verbatim>\<open>insertLocked\<close>: a missing child is created with an empty value.\<close>

fun insert_node :: "string list \<Rightarrow> bytes \<Rightarrow> TreeNode \<Rightarrow> TreeNode" where
  "insert_node [] value (TreeNode n v cs) = TreeNode n (normalizeJSON value) cs"
| "insert_node (part # parts) value (TreeNode n v cs) =
     TreeNode n v (AList.update part
       (insert_node parts value
          (case map_of cs part of None \<Rightarrow> TreeNode part no_bytes [] | Some child \<Rightarrow> child)) cs)"

text \<open>\<^verbatim>\<open>deleteLocked\<close>: the child of the last part is unlinked with everything below it.\<close>

fun delete_node :: "string list \<Rightarrow> TreeNode \<Rightarrow> TreeNode" where
  "delete_node [] t = t"
| "delete_node [part] (TreeNode n v cs) = TreeNode n v (AList.delete part cs)"
| "delete_node (part # p # parts) (TreeNode n v cs) =
     (case map_of cs part of
        None \<Rightarrow> TreeNode n v cs
      | Some child \<Rightarrow> TreeNode n v (AList.update part (delete_node (p # parts) child) cs))"

fun find_node :: "string list \<Rightarrow> TreeNode \<Rightarrow> TreeNode option" where
  "find_node [] t = Some t"
| "find_node (part # parts) (TreeNode n v cs) =
     (case map_of cs part of None \<Rightarrow> None | Some child \<Rightarrow> find_node parts child)"

definition insertLocked :: "StateStore \<Rightarrow> string \<Rightarrow> bytes \<Rightarrow> StateStore" where
  "insertLocked s key value = s\<lparr>root := insert_node (split key) value (root s)\<rparr>"

definition deleteLocked :: "StateStore \<Rightarrow> string \<Rightarrow> StateStore" where
  "deleteLocked s key = s\<lparr>root := delete_node (split key) (root s)\<rparr>"

definition findLocked :: "StateStore \<Rightarrow> string \<Rightarrow> TreeNode option" where
  "findLocked s key = find_node (split key) (root s)"

section \<open>Operations\<close>

definition LoadSnapshot :: "StateStore \<Rightarrow> (string \<times> bytes) list \<Rightarrow> int \<Rightarrow> StateStore" where
  "LoadSnapshot s items rv =
     (let s1 = s\<lparr>root := empty_root\<rparr>;
          s2 = for_each (\<lambda>(key, value) s. insertLocked s key value) items s1
      in sendNotify (s2\<lparr>revision := rv, ready := True\<rparr>))"

definition Apply :: "StateStore \<Rightarrow> Event \<Rightarrow> StateStore" where
  "Apply s event =
     (let s1 = (case ev_Type event of
                  EventPut \<Rightarrow> insertLocked s (ev_Key event) (ev_Value event)
                | EventDelete \<Rightarrow> deleteLocked s (ev_Key event))
      in sendNotify (s1\<lparr>revision := ev_Revision event\<rparr>))"

definition Get :: "StateStore \<Rightarrow> string \<Rightarrow> bytes option" where
  "Get s key =
     (case findLocked s key of
        None \<Rightarrow> None
      | Some node \<Rightarrow> if node_value node = no_bytes then None else Some (node_value node))"

definition ListChildren :: "StateStore \<Rightarrow> string \<Rightarrow> string list" where
  "ListChildren s pfx =
     (case findLocked s pfx of
        None \<Rightarrow> []
      | Some node \<Rightarrow> sort (map fst (node_children node)))"

text \<open>The writes \<^verbatim>\<open>walk\<close> makes into its map, in order.\<close>

fun walk :: "string \<Rightarrow> TreeNode \<Rightarrow> (string \<times> bytes) list" where
  "walk pfx (TreeNode n v cs) =
     (if v = no_bytes then [] else [(pfx, v)]) @
     concat (map (\<lambda>(name, child). walk (trim_right_slash pfx @ slash # name) child) cs)"

definition Prefix :: "StateStore \<Rightarrow> string \<Rightarrow> (string \<times> bytes) list" where
  "Prefix s pfx =
     (case findLocked s pfx of None \<Rightarrow> [] | Some node \<Rightarrow> go_map (walk pfx node))"

text \<open>\<^verbatim>\<open>cloneNode\<close>: an empty map of children becomes nil, which reads the same.\<close>

fun cloneNode :: "TreeNode \<Rightarrow> TreeNode" where
  "cloneNode (TreeNode n v cs) =
     TreeNode n (if v = no_bytes then no_bytes else v)
       (go_map (map (\<lambda>(name, child). (name, cloneNode child)) cs))"

definition Snapshot :: "StateStore \<Rightarrow> TreeNode" where
  "Snapshot s = cloneNode (root s)"

section \<open>The tree as a map from paths\<close>

definition value_at :: "TreeNode \<Rightarrow> string list \<Rightarrow> bytes" where
  "value_at t p = (case find_node p t of None \<Rightarrow> no_bytes | Some node \<Rightarrow> node_value node)"

lemma value_at_Nil [simp]: "value_at (TreeNode n v cs) [] = v"
  by (simp add: value_at_def)

lemma value_at_Cons [simp]:
  "value_at (TreeNode n v cs) (x # p) = (case map_of cs x of None \<Rightarrow> no_bytes | Some c \<Rightarrow> value_at c p)"
  by (auto simp: value_at_def split: option.splits)

lemma value_at_fresh [simp]: "value_at (TreeNode n no_bytes []) p = no_bytes"
  by (cases p) auto

lemma normalizeJSON_nonempty [simp]: "normalizeJSON b \<noteq> no_bytes"
  by (cases b) (auto simp: no_bytes_def)

lemma normalizeJSON_valid [simp]: "json_valid b \<Longrightarrow> normalizeJSON b = b"
  by (cases b) auto

lemma value_at_insert:
  "value_at (insert_node p b t) q = (if q = p then normalizeJSON b else value_at t q)"
proof (induction p b t arbitrary: q rule: insert_node.induct)
  case (1 b n v cs)
  then show ?case by (cases q) auto
next
  case (2 part parts b n v cs)
  show ?case
  proof (cases q)
    case Nil
    then show ?thesis by simp
  next
    case (Cons x q')
    then show ?thesis using "2.IH" [of q'] by (auto simp: update_conv' split: option.splits)
  qed
qed

lemma value_at_delete:
  "value_at (delete_node p t) q = (if p \<noteq> [] \<and> prefix p q then no_bytes else value_at t q)"
proof (induction p t arbitrary: q rule: delete_node.induct)
  case (1 t)
  then show ?case by simp
next
  case (2 part n v cs)
  then show ?case by (cases q) (auto simp: delete_conv')
next
  case (3 part p parts n v cs)
  show ?case
  proof (cases q)
    case Nil
    then show ?thesis by (auto split: option.splits)
  next
    case (Cons x q')
    then show ?thesis
      using "3.IH" [of _ q'] by (auto simp: update_conv' split: option.splits)
  qed
qed

lemma Get_value_at:
  "Get s k = (let v = value_at (root s) (split k) in if v = no_bytes then None else Some v)"
  by (simp add: Get_def findLocked_def value_at_def Let_def split: option.splits)

section \<open>Split and the keys\<close>

lemma split_abs_path:
  assumes "\<forall>s \<in> set ss. seg_ok s" and "ss \<noteq> []"
  shows "split (abs_path ss) = ss"
proof -
  obtain x xs where ss: "ss = x # xs" using assms(2) by (cases ss) auto
  obtain ys y where ss': "ss = ys @ [y]" using assms(2) by (cases ss rule: rev_cases) auto
  have "seg_ok x" using assms(1) ss by simp
  have "seg_ok y" using assms(1) unfolding ss' by simp
  have h: "join [slash] ss \<noteq> []" "hd (join [slash] ss) \<noteq> slash"
    using \<open>seg_ok x\<close> ss by (cases xs; cases x; auto simp: seg_ok_def)+
  have "last (join [slash] (ys @ [y])) = last y"
    using \<open>seg_ok y\<close> by (cases "ys = []") (auto simp: join_append seg_ok_def)
  then have l: "last (join [slash] ss) \<noteq> slash"
    using \<open>seg_ok y\<close> unfolding ss' by (metis last_in_set seg_ok_def)
  have d1: "dropWhile (\<lambda>c. c = slash) (abs_path ss) = join [slash] ss"
    using h by (cases "join [slash] ss") (auto simp: abs_path_def)
  have d2: "dropWhile (\<lambda>c. c = slash) (rev (join [slash] ss)) = rev (join [slash] ss)"
    using h l by (cases "rev (join [slash] ss)") (auto simp: last_rev hd_rev)
  have "trim_slashes (abs_path ss) = join [slash] ss"
    by (simp add: trim_slashes_def d1 d2)
  then show ?thesis
    using h split_slash_join [of ss] assms by (auto simp: split_def seg_ok_def)
qed

context key_family
begin

lemma split_key: "ok a \<Longrightarrow> split (key a) = segs a"
  using key_path segs_id_ok segs_nonempty by (simp add: split_abs_path)

end

section \<open>The cache interface\<close>

text \<open>
  What the controller, the workers and the API rely on: a cache of a key-value service that
  is updated by puts and deletes. \<open>below k k'\<close> says that deleting \<open>k\<close> takes \<open>k'\<close> with it.
\<close>

locale kv_cache =
  fixes get :: "'s \<Rightarrow> 'k \<Rightarrow> 'v option"
    and put :: "'s \<Rightarrow> 'k \<Rightarrow> 'b \<Rightarrow> 's"
    and del :: "'s \<Rightarrow> 'k \<Rightarrow> 's"
    and norm :: "'b \<Rightarrow> 'v"
    and same :: "'k \<Rightarrow> 'k \<Rightarrow> bool"
    and below :: "'k \<Rightarrow> 'k \<Rightarrow> bool"
  assumes get_put: "get (put s k b) k' = (if same k k' then Some (norm b) else get s k')"
    and get_del: "get (del s k) k' = (if below k k' then None else get s k')"
begin

text \<open>
  On a set of keys where a delete takes nothing else with it, the cache follows the map it
  caches.
\<close>

definition separated :: "'k set \<Rightarrow> bool" where
  "separated K \<longleftrightarrow> (\<forall>k \<in> K. \<forall>k' \<in> K. (same k k' \<longleftrightarrow> k = k') \<and> (below k k' \<longleftrightarrow> k = k'))"

definition tracks :: "'k set \<Rightarrow> ('k \<rightharpoonup> 'b) \<Rightarrow> 's \<Rightarrow> bool" where
  "tracks K kv s \<longleftrightarrow> (\<forall>k \<in> K. get s k = map_option norm (kv k))"

lemma tracks_put:
  assumes "separated K" and "k \<in> K" and "tracks K kv s"
  shows "tracks K (kv(k \<mapsto> b)) (put s k b)"
  using assms by (auto simp: tracks_def separated_def get_put)

lemma tracks_del:
  assumes "separated K" and "k \<in> K" and "tracks K kv s"
  shows "tracks K (kv(k := None)) (del s k)"
  using assms by (auto simp: tracks_def separated_def get_del)

end

interpretation cache: kv_cache "\<lambda>s. Get s" insertLocked deleteLocked normalizeJSON
  "\<lambda>k k'. split k = split k'" "\<lambda>k k'. split k \<noteq> [] \<and> prefix (split k) (split k')"
  by unfold_locales
    (auto simp: Get_value_at insertLocked_def deleteLocked_def value_at_insert value_at_delete Let_def)

section \<open>Well-formed trees\<close>

text \<open>Children have distinct names, and each is filed under its own name.\<close>

fun tree_wf :: "TreeNode \<Rightarrow> bool" where
  "tree_wf (TreeNode n v cs) =
     (distinct (map fst cs) \<and> (\<forall>(name, child) \<in> set cs. node_name child = name \<and> tree_wf child))"

lemma tree_wf_child: "tree_wf (TreeNode n v cs) \<Longrightarrow> map_of cs x = Some c \<Longrightarrow> tree_wf c \<and> node_name c = x"
  by (auto dest!: map_of_SomeD)

lemma tree_wf_update:
  assumes "tree_wf (TreeNode n v cs)" and "tree_wf c" and "node_name c = x"
  shows "tree_wf (TreeNode n v (AList.update x c cs))"
  using assms set_update_subset [of x c cs] by (auto simp: distinct_update)

lemma tree_wf_insert: "tree_wf t \<Longrightarrow> tree_wf (insert_node p b t) \<and> node_name (insert_node p b t) = node_name t"
proof (induction p b t rule: insert_node.induct)
  case (1 b n v cs)
  then show ?case by simp
next
  case (2 part parts b n v cs)
  define c where "c = (case map_of cs part of None \<Rightarrow> TreeNode part no_bytes [] | Some child \<Rightarrow> child)"
  have "tree_wf c \<and> node_name c = part"
    using tree_wf_child [OF "2.prems"] by (auto simp: c_def split: option.splits)
  with "2.IH" have "tree_wf (insert_node parts b c) \<and> node_name (insert_node parts b c) = part"
    by (simp add: c_def)
  with "2.prems" show ?case
    using tree_wf_update [of n v cs "insert_node parts b c" part] by (simp add: c_def)
qed

lemma tree_wf_delete: "tree_wf t \<Longrightarrow> tree_wf (delete_node p t) \<and> node_name (delete_node p t) = node_name t"
proof (induction p t rule: delete_node.induct)
  case (1 t)
  then show ?case by simp
next
  case (2 part n v cs)
  have "set (AList.delete part cs) \<subseteq> set cs" by (auto simp: AList.delete_eq)
  with 2 show ?case by (auto simp: distinct_delete)
next
  case (3 part p parts n v cs)
  then show ?case
    using tree_wf_child [OF "3.prems", of part] tree_wf_update [OF "3.prems"]
    by (auto split: option.splits simp del: tree_wf.simps)
qed

definition store_wf :: "StateStore \<Rightarrow> bool" where
  "store_wf s \<longleftrightarrow> tree_wf (root s)"

lemma store_wf_new: "store_wf new_store"
  by (simp add: store_wf_def new_store_def empty_root_def)

lemma store_wf_insertLocked: "store_wf s \<Longrightarrow> store_wf (insertLocked s k b)"
  by (simp add: store_wf_def insertLocked_def tree_wf_insert)

lemma store_wf_deleteLocked: "store_wf s \<Longrightarrow> store_wf (deleteLocked s k)"
  by (simp add: store_wf_def deleteLocked_def tree_wf_delete)

lemma sendNotify_frame [simp]:
  "root (sendNotify s) = root s" "revision (sendNotify s) = revision s" "ready (sendNotify s) = ready s"
  "notify (sendNotify s)"
  by (simp_all add: sendNotify_def)

lemma store_wf_Apply: "store_wf s \<Longrightarrow> store_wf (Apply s e)"
  using store_wf_insertLocked [of s] store_wf_deleteLocked [of s]
  by (auto simp: Apply_def Let_def store_wf_def split: EventType.splits)

lemma store_wf_LoadSnapshot: "store_wf (LoadSnapshot s items r)"
proof -
  have "store_wf (for_each (\<lambda>(key, b) s. insertLocked s key b) items (s\<lparr>root := empty_root\<rparr>))"
    by (rule for_each_invariant) (auto simp: store_wf_insertLocked, simp add: store_wf_def empty_root_def)
  then show ?thesis by (simp add: LoadSnapshot_def store_wf_def Let_def)
qed

section \<open>Enumerating a subtree\<close>

text \<open>Names without slashes: what the keys of the program give.\<close>

fun names_ok :: "TreeNode \<Rightarrow> bool" where
  "names_ok (TreeNode n v cs) = (\<forall>(name, child) \<in> set cs. seg_ok name \<and> names_ok child)"

lemma trim_right_abs_path:
  assumes "\<forall>s \<in> set ss. seg_ok s" and "ss \<noteq> []"
  shows "trim_right_slash (abs_path ss) = abs_path ss"
proof -
  obtain ys y where ss': "ss = ys @ [y]" using assms(2) by (cases ss rule: rev_cases) auto
  have "seg_ok y" using assms(1) unfolding ss' by simp
  have "last (abs_path ss) = last y"
    using \<open>seg_ok y\<close> by (cases "ys = []") (auto simp: abs_path_def ss' join_append seg_ok_def)
  then have "last (abs_path ss) \<noteq> slash"
    using \<open>seg_ok y\<close> by (metis last_in_set seg_ok_def)
  then show ?thesis
    by (cases "abs_path ss" rule: rev_cases) (auto simp: trim_right_slash_def)
qed

lemma abs_path_snoc: "ss \<noteq> [] \<Longrightarrow> abs_path (ss @ [x]) = abs_path ss @ slash # x"
  by (simp add: abs_path_def join_append)

lemma set_walk:
  assumes "tree_wf t" and "names_ok t" and "\<forall>s \<in> set ss. seg_ok s" and "ss \<noteq> []"
  shows "set (walk (abs_path ss) t) =
    {(abs_path (ss @ q), value_at t q) | q. value_at t q \<noteq> no_bytes}"
  using assms
proof (induction t arbitrary: ss rule: tree_wf.induct)
  case (1 n v cs)
  let ?R = "\<lambda>t ss. {(abs_path (ss @ q), value_at t q) | q. value_at t q \<noteq> no_bytes}"
  have child: "set (walk (trim_right_slash (abs_path ss) @ slash # x) c) = ?R c (ss @ [x])"
    if "(x, c) \<in> set cs" for x c
    using "1.IH" [OF that] that "1.prems"
    by (fastforce simp: trim_right_abs_path abs_path_snoc [symmetric])
  have "set (walk (abs_path ss) (TreeNode n v cs)) =
      (if v = no_bytes then {} else {(abs_path ss, v)}) \<union> (\<Union>(x, c) \<in> set cs. ?R c (ss @ [x]))"
    using child by fastforce
  also have "(\<Union>(x, c) \<in> set cs. ?R c (ss @ [x])) =
      {(abs_path (ss @ x # q), value_at c q) | x q c. map_of cs x = Some c \<and> value_at c q \<noteq> no_bytes}"
    using "1.prems"(1) by (fastforce dest: map_of_SomeD)
  also have "(if v = no_bytes then {} else {(abs_path ss, v)}) \<union> \<dots> = ?R (TreeNode n v cs) ss"
    (is "?A \<union> ?B = _")
  proof (intro set_eqI iffI)
    fix z assume "z \<in> ?A \<union> ?B"
    then consider "v \<noteq> no_bytes" "z = (abs_path ss, v)"
      | x q c where "z = (abs_path (ss @ x # q), value_at c q)" "map_of cs x = Some c" "value_at c q \<noteq> no_bytes"
      by (auto split: if_splits)
    then show "z \<in> ?R (TreeNode n v cs) ss"
    proof cases
      case 1
      then show ?thesis by (auto intro!: exI [of _ "[]"])
    next
      case 2
      then show ?thesis by (auto intro!: exI [of _ "x # q" for x q])
    qed
  next
    fix z assume "z \<in> ?R (TreeNode n v cs) ss"
    then obtain q where q: "z = (abs_path (ss @ q), value_at (TreeNode n v cs) q)"
      "value_at (TreeNode n v cs) q \<noteq> no_bytes" by blast
    then show "z \<in> ?A \<union> ?B"
      by (cases q) (auto split: option.splits if_splits)
  qed
  finally show ?case .
qed

lemma find_node_names:
  "names_ok t \<Longrightarrow> find_node p t = Some n \<Longrightarrow> (\<forall>s \<in> set p. seg_ok s) \<and> names_ok n"
proof (induction p t rule: find_node.induct)
  case (1 t)
  then show ?case by simp
next
  case (2 part parts n v cs)
  then show ?case by (fastforce split: option.splits dest: map_of_SomeD)
qed

lemma find_node_wf: "tree_wf t \<Longrightarrow> find_node p t = Some n \<Longrightarrow> tree_wf n"
  by (induction p t rule: find_node.induct) (auto split: option.splits dest: tree_wf_child)

lemma find_node_append: "find_node (p @ q) t = Option.bind (find_node p t) (find_node q)"
  by (induction p t rule: find_node.induct) (auto split: option.splits)

lemma value_at_names: "names_ok t \<Longrightarrow> value_at t p \<noteq> no_bytes \<Longrightarrow> \<forall>s \<in> set p. seg_ok s"
  by (auto simp: value_at_def split: option.splits dest: find_node_names)

lemma names_ok_update:
  "names_ok (TreeNode n v cs) \<Longrightarrow> seg_ok x \<Longrightarrow> names_ok c \<Longrightarrow> names_ok (TreeNode n v (AList.update x c cs))"
  using set_update_subset [of x c cs] by auto

lemma names_ok_insert: "names_ok t \<Longrightarrow> \<forall>s \<in> set p. seg_ok s \<Longrightarrow> names_ok (insert_node p b t)"
proof (induction p b t rule: insert_node.induct)
  case (1 b n v cs)
  then show ?case by simp
next
  case (2 part parts b n v cs)
  define c where "c = (case map_of cs part of None \<Rightarrow> TreeNode part no_bytes [] | Some child \<Rightarrow> child)"
  have "names_ok c"
    using "2.prems"(1) by (auto simp: c_def split: option.splits dest: map_of_SomeD)
  then have "names_ok (insert_node parts b c)" using 2 by (simp add: c_def)
  then show ?case
    using "2.prems" names_ok_update [of n v cs part] by (simp add: c_def del: names_ok.simps)
qed

lemma names_ok_delete: "names_ok t \<Longrightarrow> names_ok (delete_node p t)"
proof (induction p t rule: delete_node.induct)
  case (1 t)
  then show ?case by simp
next
  case (2 part n v cs)
  then show ?case by (auto simp: AList.delete_eq)
next
  case (3 part p parts n v cs)
  show ?case
  proof (cases "map_of cs part")
    case None
    with "3.prems" show ?thesis by simp
  next
    case (Some c)
    then have "seg_ok part" "names_ok c" using "3.prems" by (auto dest: map_of_SomeD)
    then show ?thesis
      using Some "3.IH" "3.prems" names_ok_update [of n v cs part] by (simp del: names_ok.simps)
  qed
qed

text \<open>Keys without empty segments, and stores that hold only such keys.\<close>

definition key_ok :: "string \<Rightarrow> bool" where
  "key_ok k \<longleftrightarrow> (\<forall>s \<in> set (split k). seg_ok s)"

definition store_ok :: "StateStore \<Rightarrow> bool" where
  "store_ok s \<longleftrightarrow> store_wf s \<and> names_ok (root s)"

lemma store_ok_new: "store_ok new_store"
  by (simp add: store_ok_def store_wf_new) (simp add: new_store_def empty_root_def)

lemma store_ok_insertLocked: "store_ok s \<Longrightarrow> key_ok k \<Longrightarrow> store_ok (insertLocked s k b)"
  by (simp add: store_ok_def store_wf_insertLocked) (simp add: insertLocked_def names_ok_insert key_ok_def)

lemma store_ok_deleteLocked: "store_ok s \<Longrightarrow> store_ok (deleteLocked s k)"
  by (simp add: store_ok_def store_wf_deleteLocked) (simp add: deleteLocked_def names_ok_delete)

lemma store_ok_frame [simp]:
  "store_ok (sendNotify s) = store_ok s" "store_ok (s\<lparr>revision := r\<rparr>) = store_ok s"
  "store_ok (s\<lparr>ready := b\<rparr>) = store_ok s"
  by (simp_all add: store_ok_def store_wf_def)

lemma store_ok_Apply: "store_ok s \<Longrightarrow> key_ok (ev_Key e) \<Longrightarrow> store_ok (Apply s e)"
  by (simp add: Apply_def store_ok_insertLocked store_ok_deleteLocked split: EventType.splits)

lemma store_ok_LoadSnapshot:
  assumes "\<And>k b. (k, b) \<in> set items \<Longrightarrow> key_ok k"
  shows "store_ok (LoadSnapshot s items r)"
proof -
  have "store_ok (for_each (\<lambda>(key, b) s. insertLocked s key b) items (s\<lparr>root := empty_root\<rparr>))"
    by (rule for_each_invariant)
      (auto simp: store_ok_insertLocked assms, simp add: store_ok_def store_wf_def empty_root_def)
  then show ?thesis by (simp add: LoadSnapshot_def Let_def)
qed

lemma set_Prefix:
  assumes "store_ok s" and "\<forall>x \<in> set ss. seg_ok x" and "ss \<noteq> []"
  shows "(k, b) \<in> set (Prefix s (abs_path ss)) \<longleftrightarrow>
    (\<exists>q. (\<forall>x \<in> set q. seg_ok x) \<and> k = abs_path (ss @ q) \<and> Get s k = Some b)"
proof (cases "find_node ss (root s)")
  case None
  have "Get s (abs_path (ss @ q)) = None" if "\<forall>x \<in> set q. seg_ok x" for q
    using assms that None
    by (simp add: Get_def findLocked_def split_abs_path find_node_append ball_Un)
  then show ?thesis using None assms by (auto simp: Prefix_def findLocked_def split_abs_path)
next
  case (Some t)
  have t: "tree_wf t" "names_ok t"
    using assms(1) Some find_node_wf find_node_names by (auto simp: store_ok_def store_wf_def)
  have get: "Get s (abs_path (ss @ q)) = (if value_at t q = no_bytes then None else Some (value_at t q))"
    if "\<forall>x \<in> set q. seg_ok x" for q
    using assms that Some
    by (simp add: Get_value_at split_abs_path value_at_def find_node_append ball_Un Let_def)
  note walk = set_walk [OF t assms(2,3)]
  have inj: "q = q'" if "value_at t q \<noteq> no_bytes" "value_at t q' \<noteq> no_bytes"
    "abs_path (ss @ q) = abs_path (ss @ q')" for q q'
  proof -
    have "ss @ q = ss @ q'"
      using that assms(2,3) value_at_names [OF t(2)] by (intro abs_path_inject) (auto simp: ball_Un)
    then show ?thesis by simp
  qed
  have "set (Prefix s (abs_path ss)) = set (walk (abs_path ss) t)"
    using Some assms inj
    by (subst set_go_map [symmetric]) (auto simp: walk Prefix_def findLocked_def split_abs_path)
  then have "(k, b) \<in> set (Prefix s (abs_path ss)) \<longleftrightarrow>
      (\<exists>q. k = abs_path (ss @ q) \<and> b = value_at t q \<and> value_at t q \<noteq> no_bytes)"
    by (auto simp: walk)
  also have "\<dots> \<longleftrightarrow> (\<exists>q. (\<forall>x \<in> set q. seg_ok x) \<and> k = abs_path (ss @ q) \<and> Get s k = Some b)"
    by (rule ex_cong1) (use get value_at_names [OF t(2)] in \<open>auto split: if_splits\<close>)
  finally show ?thesis .
qed

lemma distinct_Prefix: "distinct (map fst (Prefix s k))"
  by (simp add: Prefix_def distinct_go_map split: option.splits)

section \<open>The cache follows etcd\<close>

text \<open>What the events of the watch stream do to the etcd key space itself.\<close>

definition etcd_apply :: "Event \<Rightarrow> (string \<rightharpoonup> bytes) \<Rightarrow> (string \<rightharpoonup> bytes)" where
  "etcd_apply e kv = (case ev_Type e of EventPut \<Rightarrow> kv(ev_Key e \<mapsto> ev_Value e)
                                      | EventDelete \<Rightarrow> kv(ev_Key e := None))"

definition entity_keys :: "string \<Rightarrow> string set" where
  "entity_keys c = entity_key c ` {e. entity_strict e}"

lemma entity_keysI [intro]: "entity_strict e \<Longrightarrow> entity_key c e \<in> entity_keys c"
  by (simp add: entity_keys_def)

lemma entity_keys_path:
  assumes "id_ok c" and "k \<in> entity_keys c"
  obtains e where "entity_strict e" "k = entity_key c e" "split k = entity_segs c e"
  using assms entity.split_key [of "(c, _)"] entity_strict_ok
  by (auto simp: entity_keys_def)

lemma entity_keys_separated:
  assumes "id_ok c"
  shows "cache.separated (entity_keys c)"
proof -
  have "(split k = split k' \<longleftrightarrow> k = k') \<and> ((split k \<noteq> [] \<and> prefix (split k) (split k')) \<longleftrightarrow> k = k')"
    if k: "k \<in> entity_keys c" and k': "k' \<in> entity_keys c" for k k'
  proof -
    obtain e where e: "entity_strict e" "k = entity_key c e" "split k = entity_segs c e"
      using entity_keys_path [OF assms k] .
    obtain e' where e': "entity_strict e'" "k' = entity_key c e'" "split k' = entity_segs c e'"
      using entity_keys_path [OF assms k'] .
    have "prefix (split k) (split k') \<Longrightarrow> e = e'"
      using e e' by (intro entity_tail_prefix_free) (auto simp: entity_segs_def prefix_def)
    then show ?thesis using e e' by (auto simp: entity_segs_def)
  qed
  then show ?thesis unfolding cache.separated_def by blast
qed

lemma tracks_frame [simp]:
  "cache.tracks K kv (sendNotify s) = cache.tracks K kv s"
  "cache.tracks K kv (s\<lparr>revision := r\<rparr>) = cache.tracks K kv s"
  "cache.tracks K kv (s\<lparr>ready := b\<rparr>) = cache.tracks K kv s"
  by (simp_all add: cache.tracks_def Get_value_at)

lemma tracks_Apply:
  assumes "cache.separated K" and "ev_Key e \<in> K" and "cache.tracks K kv s"
  shows "cache.tracks K (etcd_apply e kv) (Apply s e)"
  using cache.tracks_put [OF assms] cache.tracks_del [OF assms]
  by (simp add: Apply_def etcd_apply_def Let_def split: EventType.splits)

lemma tracks_fold_Apply:
  assumes "cache.separated K" and "\<forall>e \<in> set evs. ev_Key e \<in> K" and "cache.tracks K kv s"
  shows "cache.tracks K (fold etcd_apply evs kv) (fold (\<lambda>e s. Apply s e) evs s)"
  using assms by (induction evs arbitrary: kv s) (auto intro: tracks_Apply)

lemma tracks_inserts:
  assumes "cache.separated K" and "\<forall>k \<in> set (map fst items). k \<in> K" and "cache.tracks K kv s"
  shows "cache.tracks K (kv ++ map_of (rev items)) (for_each (\<lambda>(key, b) s. insertLocked s key b) items s)"
  using assms
proof (induction items arbitrary: kv s)
  case Nil
  then show ?case by simp
next
  case (Cons x items)
  obtain k b where x: "x = (k, b)" by (cases x)
  have "cache.tracks K (kv(k \<mapsto> b)) (insertLocked s k b)"
    using Cons.prems x by (intro cache.tracks_put) auto
  then have "cache.tracks K (kv(k \<mapsto> b) ++ map_of (rev items))
      (for_each (\<lambda>(key, b) s. insertLocked s key b) items (insertLocked s k b))"
    using Cons.prems Cons.IH by simp
  moreover have "kv ++ map_of (rev (x # items)) = kv(k \<mapsto> b) ++ map_of (rev items)"
    unfolding x by (simp only: rev.simps map_of_append map_add_assoc) simp
  moreover have "for_each (\<lambda>(key, b) s. insertLocked s key b) (x # items) s
      = for_each (\<lambda>(key, b) s. insertLocked s key b) items (insertLocked s k b)"
    by (simp add: x)
  ultimately show ?case by (simp only:)
qed

lemma tracks_LoadSnapshot:
  assumes "cache.separated K" and "\<forall>k \<in> set (map fst items). k \<in> K" and "distinct (map fst items)"
  shows "cache.tracks K (map_of items) (LoadSnapshot s items r)"
proof -
  have "cache.tracks K Map.empty (s\<lparr>root := empty_root\<rparr>)"
    by (simp add: cache.tracks_def Get_value_at empty_root_def)
  from tracks_inserts [OF assms(1,2) this] show ?thesis
    using map_of_go_map [of items] assms(3) by (simp add: LoadSnapshot_def Let_def go_map_distinct)
qed

text \<open>
  C3: the state store is a faithful cache. Loading an etcd snapshot and applying any sequence
  of watch events leaves, under every key the program uses, exactly what etcd holds (with
  non-JSON bytes turned into a JSON string), whatever was in the store before.
\<close>

theorem store_tracks_etcd:
  assumes "id_ok c"
    and "set (map fst items) \<subseteq> entity_keys c" and "distinct (map fst items)"
    and "\<forall>ev \<in> set evs. ev_Key ev \<in> entity_keys c"
    and "entity_strict e"
  shows "Get (fold (\<lambda>ev s. Apply s ev) evs (LoadSnapshot s items r)) (entity_key c e)
    = map_option normalizeJSON (fold etcd_apply evs (map_of items) (entity_key c e))"
proof -
  note sep = entity_keys_separated [OF assms(1)]
  have "cache.tracks (entity_keys c) (map_of items) (LoadSnapshot s items r)"
    using assms by (intro tracks_LoadSnapshot [OF sep]) auto
  then have "cache.tracks (entity_keys c) (fold etcd_apply evs (map_of items))
      (fold (\<lambda>ev s. Apply s ev) evs (LoadSnapshot s items r))"
    using assms by (intro tracks_fold_Apply [OF sep]) auto
  then show ?thesis using assms(5) by (auto simp: cache.tracks_def entity_keys_def)
qed

theorem store_tracks_etcd_witness:
  "Get (fold (\<lambda>ev s. Apply s ev)
      [\<lparr>ev_Type = EventPut, ev_Key = entity_key ''c1'' (ECommand ''1''), ev_Value = Text ''x'', ev_Revision = 8\<rparr>,
       \<lparr>ev_Type = EventDelete, ev_Key = entity_key ''c1'' ELeadership, ev_Value = no_bytes, ev_Revision = 9\<rparr>]
      (LoadSnapshot new_store [(entity_key ''c1'' ELeadership, JSON JNull)] 7))
      (entity_key ''c1'' (ECommand ''1'')) = Some (JSON (JStr ''x''))"
proof -
  have k: "entity_key ''c1'' (ECommand ''1'') \<noteq> entity_key ''c1'' ELeadership"
    by (subst entity_key_inject) (simp_all add: id_ok_def)
  have "id_ok ''c1''" "id_ok ''1''" by (simp_all add: id_ok_def)
  then show ?thesis
    using k by (subst store_tracks_etcd) (auto simp: etcd_apply_def simp del: entity_key.simps)
qed

section \<open>Listings\<close>

lemma find_node_delete:
  "find_node q (delete_node p t) \<noteq> None \<longleftrightarrow> find_node q t \<noteq> None \<and> \<not> (p \<noteq> [] \<and> prefix p q)"
proof (induction p t arbitrary: q rule: delete_node.induct)
  case (1 t)
  then show ?case by simp
next
  case (2 part n v cs)
  then show ?case by (cases q) (auto simp: delete_conv' split: option.splits)
next
  case (3 part p parts n v cs)
  show ?case
  proof (cases q)
    case Nil
    then show ?thesis by (auto split: option.splits)
  next
    case (Cons x q')
    then show ?thesis
      using "3.IH" [of _ q'] by (auto simp: update_conv' split: option.splits)
  qed
qed

lemma find_node_insert:
  "find_node q (insert_node p b t) \<noteq> None \<longleftrightarrow> find_node q t \<noteq> None \<or> prefix q p"
proof (induction p b t arbitrary: q rule: insert_node.induct)
  case (1 b n v cs)
  then show ?case by (cases q) auto
next
  case (2 part parts b n v cs)
  show ?case
  proof (cases q)
    case Nil
    then show ?thesis by simp
  next
    case (Cons x q')
    have "find_node q' (TreeNode y no_bytes []) \<noteq> None \<longleftrightarrow> q' = []" for y by (cases q') auto
    then show ?thesis
      using Cons "2.IH" [of q'] by (auto simp: update_conv' split: option.splits)
  qed
qed

lemma in_ListChildren:
  "x \<in> set (ListChildren s p) \<longleftrightarrow> find_node (split p @ [x]) (root s) \<noteq> None"
proof (cases "find_node (split p) (root s)")
  case None
  then show ?thesis by (simp add: ListChildren_def findLocked_def find_node_append)
next
  case (Some t)
  then show ?thesis
    by (cases t) (auto simp: ListChildren_def findLocked_def find_node_append
        dom_map_of_conv_image_fst [symmetric] split: option.splits)
qed

lemma sorted_ListChildren: "sorted (ListChildren s p)"
  by (simp add: ListChildren_def split: option.splits)

lemma distinct_ListChildren:
  assumes "store_wf s"
  shows "distinct (ListChildren s p)"
proof (cases "findLocked s p")
  case None
  then show ?thesis by (simp add: ListChildren_def)
next
  case (Some t)
  then have "tree_wf t" using assms by (simp add: findLocked_def store_wf_def find_node_wf)
  then show ?thesis using Some by (cases t) (simp add: ListChildren_def)
qed

text \<open>
  A listing made from a snapshot and one made by following the watch differ. After any
  deletions strictly below a name the live store still lists it, while a snapshot without keys
  below it does not: the controller of a node that was running keeps reconciling a management
  group that has no key left, a node that starts now never sees it.
\<close>

theorem deleted_group_stays_listed:
  assumes "x \<in> set (ListChildren s p)"
    and "\<forall>e \<in> set evs. ev_Type e = EventDelete \<and> \<not> prefix (split (ev_Key e)) (split p @ [x])"
    and "\<forall>k \<in> set (map fst items). \<not> prefix (split p @ [x]) (split k)"
  shows "x \<in> set (ListChildren (fold (\<lambda>e s. Apply s e) evs s) p)
    \<and> x \<notin> set (ListChildren (LoadSnapshot s0 items r) p)"
proof
  show "x \<in> set (ListChildren (fold (\<lambda>e s. Apply s e) evs s) p)"
    using assms(1,2)
  proof (induction evs arbitrary: s)
    case (Cons e evs)
    then have "x \<in> set (ListChildren (Apply s e) p)"
      using find_node_delete [of "split p @ [x]" "split (ev_Key e)" "root s"]
      by (auto simp: in_ListChildren Apply_def deleteLocked_def Let_def)
    with Cons show ?case by simp
  qed simp
  have "find_node (split p @ [x]) (root (for_each (\<lambda>(k, b) s. insertLocked s k b) items s')) = None"
    if "find_node (split p @ [x]) (root s') = None" for s'
    using that assms(3)
  proof (induction items arbitrary: s')
    case (Cons i items)
    obtain k b where i: "i = (k, b)" by (cases i)
    have "find_node (split p @ [x]) (root (insertLocked s' k b)) = None"
      using Cons.prems i find_node_insert [of "split p @ [x]" "split k" b "root s'"]
      by (auto simp: insertLocked_def)
    then show ?case using Cons i by simp
  qed simp
  then show "x \<notin> set (ListChildren (LoadSnapshot s0 items r) p)"
    by (cases "split p") (auto simp: in_ListChildren LoadSnapshot_def Let_def empty_root_def)
qed

theorem deleted_group_stays_listed_witness:
  "''x'' \<in> set (ListChildren (fold (\<lambda>e s. Apply s e)
      [\<lparr>ev_Type = EventDelete, ev_Key = ''/g/x/desired'', ev_Value = no_bytes, ev_Revision = 8\<rparr>]
      (LoadSnapshot new_store [(''/g/x/desired'', JSON JNull)] 7)) ''/g'')
   \<and> ''x'' \<notin> set (ListChildren (LoadSnapshot new_store [(''/g/y/desired'', JSON JNull)] 8) ''/g'')"
  by (rule deleted_group_stays_listed) code_simp+

end
