(* ===== verification/Etcd.thy ===== *)
theory Etcd
  imports Store
begin

text \<open>
  \<^verbatim>\<open>internal/etcd/client.go\<close>: the wrapper around the etcd client library. The library and the
  service behind it are not part of the repository: they are a parameter, a record of
  functions on a state of any type. The \<^verbatim>\<open>context\<close> argument is left out: a cancelled context is
  one of the errors the service may answer with.
\<close>

section \<open>The client library, as a parameter\<close>

text \<open>
  Lease 0 is "no lease". \<open>svc_create\<close> is the transaction that puts a key when its create
  revision is 0; it answers whether it did.
\<close>

record 'e etcd_service =
  svc_get :: "'e \<Rightarrow> string \<Rightarrow> (error + (string \<times> bytes) list \<times> int) \<times> 'e"
  svc_put :: "'e \<Rightarrow> string \<Rightarrow> bytes \<Rightarrow> int \<Rightarrow> error option \<times> 'e"
  svc_delete :: "'e \<Rightarrow> string \<Rightarrow> error option \<times> 'e"
  svc_create :: "'e \<Rightarrow> string \<Rightarrow> bytes \<Rightarrow> int \<Rightarrow> (error + bool) \<times> 'e"
  svc_grant :: "'e \<Rightarrow> int \<Rightarrow> (error + int) \<times> 'e"
  svc_keepalive :: "'e \<Rightarrow> int \<Rightarrow> error option \<times> 'e"

datatype request =
    ReqGet string
  | ReqPut string bytes int
  | ReqDelete string
  | ReqCreate string bytes int
  | ReqGrant int
  | ReqKeepAlive int

text \<open>
  What a handler can touch besides its own state: the service, the clock (\<open>clock k\<close> is the
  reading of its \<open>k\<close>-th \<^verbatim>\<open>time.Now\<close>), the session lease id of the client, and the requests
  sent so far, which every call logs.
\<close>

record 'e world =
  service_state :: 'e
  clock :: "nat \<Rightarrow> int"
  ticks :: nat
  sessionLeaseID :: int
  sent :: "request list"

definition now :: "'e world \<Rightarrow> int \<times> 'e world" where
  "now w = (clock w (ticks w), w\<lparr>ticks := Suc (ticks w)\<rparr>)"

section \<open>Requests\<close>

definition Put :: "'e etcd_service \<Rightarrow> string \<Rightarrow> bytes \<Rightarrow> int \<Rightarrow> 'e world \<Rightarrow> error option \<times> 'e world" where
  "Put svc key b lease w =
     (let (err, e) = svc_put svc (service_state w) key b lease
      in (err, w\<lparr>service_state := e, sent := sent w @ [ReqPut key b lease]\<rparr>))"

definition PutWithLease :: "'e etcd_service \<Rightarrow> string \<Rightarrow> bytes \<Rightarrow> int \<Rightarrow> 'e world \<Rightarrow> error option \<times> 'e world" where
  "PutWithLease svc key b leaseID w = Put svc key b leaseID w"

definition Delete :: "'e etcd_service \<Rightarrow> string \<Rightarrow> 'e world \<Rightarrow> error option \<times> 'e world" where
  "Delete svc key w =
     (let (err, e) = svc_delete svc (service_state w) key
      in (err, w\<lparr>service_state := e, sent := sent w @ [ReqDelete key]\<rparr>))"

definition GrantLease :: "'e etcd_service \<Rightarrow> int \<Rightarrow> 'e world \<Rightarrow> (error + int) \<times> 'e world" where
  "GrantLease svc ttl w =
     (let (r, e) = svc_grant svc (service_state w) ttl
      in (r, w\<lparr>service_state := e, sent := sent w @ [ReqGrant ttl]\<rparr>))"

definition KeepAlive :: "'e etcd_service \<Rightarrow> int \<Rightarrow> 'e world \<Rightarrow> error option \<times> 'e world" where
  "KeepAlive svc leaseID w =
     (let (r, e) = svc_keepalive svc (service_state w) leaseID
      in (r, w\<lparr>service_state := e, sent := sent w @ [ReqKeepAlive leaseID]\<rparr>))"

definition TryPutIfAbsent :: "'e etcd_service \<Rightarrow> string \<Rightarrow> bytes \<Rightarrow> 'e world \<Rightarrow> (error + bool) \<times> 'e world" where
  "TryPutIfAbsent svc key b w =
     (let (r, e) = svc_create svc (service_state w) key b 0
      in (r, w\<lparr>service_state := e, sent := sent w @ [ReqCreate key b 0]\<rparr>))"

definition TryAcquireLeaseKey ::
  "'e etcd_service \<Rightarrow> string \<Rightarrow> bytes \<Rightarrow> int \<Rightarrow> 'e world \<Rightarrow> (error + bool) \<times> 'e world" where
  "TryAcquireLeaseKey svc key b leaseID w =
     (let (r, e) = svc_create svc (service_state w) key b leaseID
      in (r, w\<lparr>service_state := e, sent := sent w @ [ReqCreate key b leaseID]\<rparr>))"

text \<open>\<open>GetPrefix\<close> builds a Go map of the pairs of the answer.\<close>

definition GetPrefix :: "'e etcd_service \<Rightarrow> string \<Rightarrow> 'e world \<Rightarrow>
    (error + (string \<times> bytes) list \<times> int) \<times> 'e world" where
  "GetPrefix svc pfx w =
     (let (r, e) = svc_get svc (service_state w) pfx;
          w' = w\<lparr>service_state := e, sent := sent w @ [ReqGet pfx]\<rparr>
      in (case r of
            Inl err \<Rightarrow> (Inl err, w')
          | Inr (kvs, rv) \<Rightarrow> (Inr (go_map kvs, rv), w')))"

section \<open>The session lease id\<close>

definition SetSessionLeaseID :: "int \<Rightarrow> 'e world \<Rightarrow> 'e world" where
  "SetSessionLeaseID leaseID w = w\<lparr>sessionLeaseID := leaseID\<rparr>"

definition ClearSessionLeaseID :: "int \<Rightarrow> 'e world \<Rightarrow> 'e world" where
  "ClearSessionLeaseID leaseID w =
     (if sessionLeaseID w = leaseID then w\<lparr>sessionLeaseID := 0\<rparr> else w)"

definition SessionLeaseID :: "'e world \<Rightarrow> int" where
  "SessionLeaseID w = sessionLeaseID w"

section \<open>The watch stream\<close>

text \<open>A response of the library: an error, or events (is it a delete, key, value, revision).\<close>

datatype watch_response = WatchErr error | WatchEvents "(bool \<times> string \<times> bytes option \<times> int) list"

definition watch_event :: "bool \<times> string \<times> bytes option \<times> int \<Rightarrow> Event" where
  "watch_event ev = (case ev of (del, key, b, rv) \<Rightarrow>
     \<lparr>ev_Type = (if del then EventDelete else EventPut), ev_Key = key,
      ev_Value = (case b of None \<Rightarrow> no_bytes | Some v \<Rightarrow> v), ev_Revision = rv\<rparr>)"

text \<open>The goroutine of \<open>WatchPrefix\<close>: the events it delivers before it closes the channel.\<close>

fun WatchPrefix :: "watch_response list \<Rightarrow> Event list" where
  "WatchPrefix [] = []"
| "WatchPrefix (WatchErr err # resps) = []"
| "WatchPrefix (WatchEvents evs # resps) = map watch_event evs @ WatchPrefix resps"

section \<open>The documented behaviour of the service\<close>

text \<open>
  The laws a property may assume of the parameter, for a client that is not interleaved with
  others: a put that answers without error has stored the value; one that answers with an
  error may have been applied or not; a creating transaction stores the value exactly when the
  key was absent; leases leave the keys alone.
\<close>

locale etcd_kv =
  fixes svc :: "'e etcd_service" and kv :: "'e \<Rightarrow> string \<rightharpoonup> bytes"
  assumes put_ok: "svc_put svc e k b l = (None, e') \<Longrightarrow> kv e' = (kv e)(k \<mapsto> b)"
    and put_err: "svc_put svc e k b l = (Some x, e') \<Longrightarrow> kv e' = kv e \<or> kv e' = (kv e)(k \<mapsto> b)"
    and delete_ok: "svc_delete svc e k = (None, e') \<Longrightarrow> kv e' = (kv e)(k := None)"
    and delete_err: "svc_delete svc e k = (Some x, e') \<Longrightarrow> kv e' = kv e \<or> kv e' = (kv e)(k := None)"
    and create_yes: "svc_create svc e k b l = (Inr True, e') \<Longrightarrow> kv e k = None \<and> kv e' = (kv e)(k \<mapsto> b)"
    and create_no: "svc_create svc e k b l = (Inr False, e') \<Longrightarrow> kv e k \<noteq> None \<and> kv e' = kv e"
    and create_err: "svc_create svc e k b l = (Inl x, e') \<Longrightarrow>
      kv e' = kv e \<or> (kv e k = None \<and> kv e' = (kv e)(k \<mapsto> b))"
    and grant_kv: "svc_grant svc e t = (r, e') \<Longrightarrow> kv e' = kv e"
    and get_kv: "svc_get svc e p = (g, e') \<Longrightarrow> kv e' = kv e"
    and get_all: "svc_get svc e p = (Inr (items, rv), e') \<Longrightarrow>
      has_prefix p k \<Longrightarrow> map_of (rev items) k = kv e k"
begin

lemma Put_ok:
  "Put svc k b l w = (None, w') \<Longrightarrow> kv (service_state w') = (kv (service_state w))(k \<mapsto> b)"
  by (auto simp: Put_def dest: put_ok split: prod.splits)

lemma Put_other:
  "Put svc k b l w = (r, w') \<Longrightarrow> k' \<noteq> k \<Longrightarrow> kv (service_state w') k' = kv (service_state w) k'"
  by (cases r) (auto simp: Put_def dest!: put_ok put_err split: prod.splits)

lemma TryPutIfAbsent_keeps:
  assumes "TryPutIfAbsent svc k b w = (r, w')" and "kv (service_state w) k' = Some v"
  shows "kv (service_state w') k' = Some v"
proof -
  obtain e where e: "svc_create svc (service_state w) k b 0 = (r, e)" "service_state w' = e"
    using assms(1) by (auto simp: TryPutIfAbsent_def split: prod.splits)
  show ?thesis
  proof (cases r)
    case (Inl x)
    then show ?thesis using e assms(2) create_err [of "service_state w" k b 0 x e] by auto
  next
    case (Inr created)
    then show ?thesis
      using e assms(2) create_yes [of "service_state w" k b 0 e] create_no [of "service_state w" k b 0 e]
      by (cases created) auto
  qed
qed

end

text \<open>
  The reference service: the stored pairs and the next free lease id. It answers every request
  without error; it is the concrete instance of the parameter.
\<close>

type_synonym mem_etcd = "(string \<times> bytes) list \<times> int"

definition mem_service :: "mem_etcd etcd_service" where
  "mem_service =
     \<lparr>svc_get = (\<lambda>(m, n) p. (Inr (rev (filter (\<lambda>(k, b). has_prefix p k) m), n), (m, n))),
      svc_put = (\<lambda>(m, n) k b l. (None, (AList.update k b m, n))),
      svc_delete = (\<lambda>(m, n) k. (None, (AList.delete k m, n))),
      svc_create = (\<lambda>(m, n) k b l. if map_of m k = None then (Inr True, (AList.update k b m, n))
                                else (Inr False, (m, n))),
      svc_grant = (\<lambda>(m, n) t. (Inr n, (m, n + 1))),
      svc_keepalive = (\<lambda>e l. (None, e))\<rparr>"

lemma map_of_filter_keys: "P k \<Longrightarrow> map_of (filter (\<lambda>(k, v). P k) m) k = map_of m k"
  by (induction m) auto

interpretation mem: etcd_kv mem_service "\<lambda>e. map_of (fst e)"
  by unfold_locales
    (auto simp: mem_service_def update_conv' delete_conv' map_of_filter_keys split: if_splits prod.splits)

section \<open>Frames\<close>

lemma now_frame [simp]:
  "sent (snd (now w)) = sent w" "service_state (snd (now w)) = service_state w"
  "clock (snd (now w)) = clock w" "sessionLeaseID (snd (now w)) = sessionLeaseID w"
  "fst (now w) = clock w (ticks w)"
  by (simp_all add: now_def)

lemma Put_frame [simp]:
  "sent (snd (Put svc k b l w)) = sent w @ [ReqPut k b l]"
  "clock (snd (Put svc k b l w)) = clock w"
  "ticks (snd (Put svc k b l w)) = ticks w"
  "sessionLeaseID (snd (Put svc k b l w)) = sessionLeaseID w"
  by (simp_all add: Put_def split: prod.splits)

lemma Delete_frame [simp]:
  "sent (snd (Delete svc k w)) = sent w @ [ReqDelete k]"
  "clock (snd (Delete svc k w)) = clock w"
  "ticks (snd (Delete svc k w)) = ticks w"
  "sessionLeaseID (snd (Delete svc k w)) = sessionLeaseID w"
  by (simp_all add: Delete_def split: prod.splits)

lemma Put_sent: "Put svc k b l w = (r, w') \<Longrightarrow> sent w' = sent w @ [ReqPut k b l]"
  by (metis Put_frame(1) snd_conv)

lemma Put_clock: "Put svc k b l w = (r, w') \<Longrightarrow> clock w' = clock w"
  by (metis Put_frame(2) snd_conv)

text \<open>A service that answers every put without an error, and a clock in the years JSON can write.\<close>

definition puts_succeed :: "'e etcd_service \<Rightarrow> bool" where
  "puts_succeed svc \<longleftrightarrow> (\<forall>e k b l. fst (svc_put svc e k b l) = None)"

definition clock_ok :: "'e world \<Rightarrow> bool" where
  "clock_ok w \<longleftrightarrow> (\<forall>k. time_ok (clock w k))"

lemma puts_succeed_Put: "puts_succeed svc \<Longrightarrow> fst (Put svc k b l w) = None"
  by (auto simp: Put_def puts_succeed_def split: prod.splits) (metis fst_conv option.distinct(1))

text \<open>A step of the world that only adds requests with a property; the clock is the same.\<close>

definition adds :: "(request \<Rightarrow> bool) \<Rightarrow> 'e world \<Rightarrow> 'e world \<Rightarrow> bool" where
  "adds Q w w' \<longleftrightarrow> clock w' = clock w \<and> (\<exists>rs. sent w' = sent w @ rs \<and> list_all Q rs)"

lemma adds_refl [simp, intro]: "adds Q w w"
  by (auto simp: adds_def intro: exI [of _ "[]"])

lemma adds_trans [trans]: "adds Q u v \<Longrightarrow> adds Q v w \<Longrightarrow> adds Q u w"
  by (fastforce simp: adds_def)

lemma adds_mono: "adds Q u v \<Longrightarrow> (\<And>r. Q r \<Longrightarrow> R r) \<Longrightarrow> adds R u v"
  by (auto simp: adds_def list_all_iff)

lemma adds_now [simp, intro]: "adds Q w (snd (now w))"
  by (auto simp: adds_def intro: exI [of _ "[]"])

lemma adds_Put: "Q (ReqPut k b l) \<Longrightarrow> adds Q w (snd (Put svc k b l w))"
  by (simp add: adds_def)

lemma adds_Delete: "Q (ReqDelete k) \<Longrightarrow> adds Q w (snd (Delete svc k w))"
  by (simp add: adds_def)

text \<open>
  The contract of what a handler built from clock readings and puts can do to the world: a
  relation that holds for every step holds for the handler.
\<close>

locale effects =
  fixes R :: "'e world \<Rightarrow> 'e world \<Rightarrow> bool" and svc :: "'e etcd_service" and ok :: "request \<Rightarrow> bool"
  assumes refl [simp, intro]: "R w w"
    and trans: "R u v \<Longrightarrow> R v w \<Longrightarrow> R u w"
    and now_step [simp, intro]: "R w (snd (now w))"
    and put_step: "ok (ReqPut k b l) \<Longrightarrow> R w (snd (Put svc k b l w))"
begin

lemma now_put_step: "ok (ReqPut k b l) \<Longrightarrow> R w (snd (Put svc k b l (snd (now w))))"
  by (rule trans [OF now_step put_step])

lemma for_each_steps:
  assumes "\<And>x w. x \<in> set xs \<Longrightarrow> R w (f x w)"
  shows "R w (for_each f xs w)"
  using assms by (induction xs arbitrary: w) (auto intro: trans)

lemma for_err_steps:
  assumes "\<And>x w. x \<in> set xs \<Longrightarrow> R w (snd (f x w))"
  shows "R w (snd (for_err f xs w))"
proof (rule for_err_invariant)
  fix x v assume "x \<in> set xs" and "R w v"
  then show "R w (snd (f x v))" using assms trans by blast
qed simp

end

interpretation adds: effects "adds Q" svc Q for Q :: "request \<Rightarrow> bool" and svc :: "'e etcd_service"
  by unfold_locales (auto intro: adds_trans adds_Put)

text \<open>Two more instances: puts never remove a key, and leave the keys alone they do not name.\<close>

definition keeps :: "('e \<Rightarrow> string \<rightharpoonup> bytes) \<Rightarrow> string \<Rightarrow> 'e world \<Rightarrow> 'e world \<Rightarrow> bool" where
  "keeps kv k w w' \<longleftrightarrow> (kv (service_state w) k \<noteq> None \<longrightarrow> kv (service_state w') k \<noteq> None)"

definition leaves :: "('e \<Rightarrow> string \<rightharpoonup> bytes) \<Rightarrow> string \<Rightarrow> 'e world \<Rightarrow> 'e world \<Rightarrow> bool" where
  "leaves kv k w w' \<longleftrightarrow> kv (service_state w') k = kv (service_state w) k"

definition puts_other :: "string \<Rightarrow> request \<Rightarrow> bool" where
  "puts_other k r \<longleftrightarrow> (\<forall>b l. r \<noteq> ReqPut k b l)"

sublocale etcd_kv \<subseteq> keep: effects "keeps kv k" svc "\<lambda>_. True" for k
proof
  fix w k' b l
  obtain r w' where p: "Put svc k' b l w = (r, w')" by fastforce
  have "kv (service_state w') k \<noteq> None" if "kv (service_state w) k \<noteq> None"
    using put_ok [of "service_state w" k' b l] put_err [of "service_state w" k' b l] p that
    by (cases r) (auto simp: Put_def split: prod.splits)
  then show "keeps kv k w (snd (Put svc k' b l w))" by (simp add: keeps_def p)
qed (auto simp: keeps_def)

sublocale etcd_kv \<subseteq> leave: effects "leaves kv k" svc "puts_other k" for k
proof
  fix w k' b l assume "puts_other k (ReqPut k' b l)"
  then have "k \<noteq> k'" by (auto simp: puts_other_def)
  then show "leaves kv k w (snd (Put svc k' b l w))"
    using Put_other [of k' b l w] by (metis leaves_def prod.collapse)
qed (auto simp: leaves_def)

end
