(* ===== verification/Types.thy ===== *)
theory Types
  imports Json
begin

text \<open>
  \<^verbatim>\<open>internal/model/types.go\<close>: the states, the documents stored in etcd and the commands, each
  with its JSON encoding (\<open>marshal_*\<close>, \<open>None\<close> when \<open>time.Time\<close> refuses a year) and, where
  the program reads the document back, its decoding (\<open>unmarshal_*\<close>, \<open>None\<close> for a non-nil
  error).
\<close>

section \<open>States\<close>

text \<open>The Go types are strings with named constants: any other string may be stored.\<close>

type_synonym DesiredState = string
type_synonym ActualState = string
type_synonym HealthStatus = string

definition DesiredActive :: DesiredState where [simp]: "DesiredActive = ''active''"
definition DesiredPassive :: DesiredState where [simp]: "DesiredPassive = ''passive''"

definition ActualActive :: ActualState where [simp]: "ActualActive = ''active''"
definition ActualPassive :: ActualState where [simp]: "ActualPassive = ''passive''"
definition ActualStarting :: ActualState where [simp]: "ActualStarting = ''starting''"
definition ActualStopping :: ActualState where [simp]: "ActualStopping = ''stopping''"
definition ActualFailed :: ActualState where [simp]: "ActualFailed = ''failed''"

definition HealthOK :: HealthStatus where [simp]: "HealthOK = ''ok''"
definition HealthWarning :: HealthStatus where [simp]: "HealthWarning = ''warning''"
definition HealthFailed :: HealthStatus where [simp]: "HealthFailed = ''failed''"

type_synonym CommandType = string
type_synonym CommandStatus = string

definition CommandTypePromote :: CommandType where [simp]: "CommandTypePromote = ''promote''"
definition CommandTypeDemote :: CommandType where [simp]: "CommandTypeDemote = ''demote''"
definition CommandTypeDisable :: CommandType where [simp]: "CommandTypeDisable = ''disable''"
definition CommandTypeEnable :: CommandType where [simp]: "CommandTypeEnable = ''enable''"
definition CommandTypeForcePassive :: CommandType where
  [simp]: "CommandTypeForcePassive = ''force_passive''"

definition CommandPending :: CommandStatus where [simp]: "CommandPending = ''pending''"
definition CommandRunning :: CommandStatus where [simp]: "CommandRunning = ''running''"
definition CommandCompleted :: CommandStatus where [simp]: "CommandCompleted = ''completed''"
definition CommandFailed :: CommandStatus where [simp]: "CommandFailed = ''failed''"

section \<open>Group state documents\<close>

record DesiredDocument =
  d_State :: DesiredState
  d_Managed :: bool
  d_UpdatedAt :: int
  d_Details :: string

record ActualDocument =
  a_State :: ActualState
  a_UpdatedAt :: int
  a_Details :: string

record HealthDocument =
  h_Status :: HealthStatus
  h_UpdatedAt :: int
  h_Details :: string

record ManagementGroupConfigDocument =
  mgc_Priority :: int
  mgc_Roles :: "string list"
  mgc_UpdatedAt :: int

definition marshal_desired :: "DesiredDocument \<Rightarrow> bytes option" where
  "marshal_desired d =
     do { t \<leftarrow> time_text (d_UpdatedAt d);
          Some (JSON (JObj ([(''state'', JStr (d_State d))] @ omit_bool ''managed'' (d_Managed d) @
            [(''updated_at'', JStr t)] @ omit_str ''details'' (d_Details d)))) }"

definition unmarshal_desired :: "bytes \<Rightarrow> DesiredDocument option" where
  "unmarshal_desired = unmarshal (\<lambda>kvs.
     do { s \<leftarrow> read_field as_string [] ''state'' kvs; m \<leftarrow> read_field as_bool False ''managed'' kvs;
          t \<leftarrow> read_field as_time zero_time ''updated_at'' kvs;
          d \<leftarrow> read_field as_string [] ''details'' kvs;
          Some \<lparr>d_State = s, d_Managed = m, d_UpdatedAt = t, d_Details = d\<rparr> })"

definition marshal_actual :: "ActualDocument \<Rightarrow> bytes option" where
  "marshal_actual a =
     do { t \<leftarrow> time_text (a_UpdatedAt a);
          Some (JSON (JObj ([(''state'', JStr (a_State a)), (''updated_at'', JStr t)] @
            omit_str ''details'' (a_Details a)))) }"

definition unmarshal_actual :: "bytes \<Rightarrow> ActualDocument option" where
  "unmarshal_actual = unmarshal (\<lambda>kvs.
     do { s \<leftarrow> read_field as_string [] ''state'' kvs;
          t \<leftarrow> read_field as_time zero_time ''updated_at'' kvs;
          d \<leftarrow> read_field as_string [] ''details'' kvs;
          Some \<lparr>a_State = s, a_UpdatedAt = t, a_Details = d\<rparr> })"

definition marshal_health :: "HealthDocument \<Rightarrow> bytes option" where
  "marshal_health h =
     do { t \<leftarrow> time_text (h_UpdatedAt h);
          Some (JSON (JObj ([(''status'', JStr (h_Status h)), (''updated_at'', JStr t)] @
            omit_str ''details'' (h_Details h)))) }"

definition unmarshal_health :: "bytes \<Rightarrow> HealthDocument option" where
  "unmarshal_health = unmarshal (\<lambda>kvs.
     do { s \<leftarrow> read_field as_string [] ''status'' kvs;
          t \<leftarrow> read_field as_time zero_time ''updated_at'' kvs;
          d \<leftarrow> read_field as_string [] ''details'' kvs;
          Some \<lparr>h_Status = s, h_UpdatedAt = t, h_Details = d\<rparr> })"

definition marshal_mgconfig :: "ManagementGroupConfigDocument \<Rightarrow> bytes option" where
  "marshal_mgconfig c =
     do { t \<leftarrow> time_text (mgc_UpdatedAt c);
          Some (JSON (JObj ([(''priority'', JInt (mgc_Priority c))] @
            omit_list ''roles'' JStr (mgc_Roles c) @ [(''updated_at'', JStr t)]))) }"

definition unmarshal_mgconfig :: "bytes \<Rightarrow> ManagementGroupConfigDocument option" where
  "unmarshal_mgconfig = unmarshal (\<lambda>kvs.
     do { p \<leftarrow> read_field as_int 0 ''priority'' kvs;
          r \<leftarrow> read_list (as_list [] as_string) ''roles'' kvs;
          t \<leftarrow> read_field as_time zero_time ''updated_at'' kvs;
          Some \<lparr>mgc_Priority = p, mgc_Roles = r, mgc_UpdatedAt = t\<rparr> })"

section \<open>Registration, session and leadership documents\<close>

record MembershipDocument =
  m_ClusterGroup :: string
  m_ManagementGroup :: string
  m_Priority :: int
  m_Roles :: "string list"

record RegistrationDocument =
  reg_NodeID :: string
  reg_Memberships :: "MembershipDocument list"
  reg_UpdatedAt :: int

record SessionDocument =
  ses_NodeID :: string
  ses_UpdatedAt :: int

record LeadershipDocument =
  l_OwnerNodeID :: string
  l_LeaseID :: int
  l_UpdatedAt :: int

text \<open>
  A nil slice without \<^verbatim>\<open>omitempty\<close> is written as \<^verbatim>\<open>null\<close> and an empty one as \<^verbatim>\<open>[]\<close>; both are
  read back as an empty list, and the model writes \<^verbatim>\<open>[]\<close>.
\<close>

definition json_membership :: "MembershipDocument \<Rightarrow> json" where
  "json_membership m = JObj [(''cluster_group'', JStr (m_ClusterGroup m)),
     (''management_group'', JStr (m_ManagementGroup m)), (''priority'', JInt (m_Priority m)),
     (''roles'', JArr (map JStr (m_Roles m)))]"

definition read_membership :: "(string \<times> json) list \<Rightarrow> MembershipDocument option" where
  "read_membership kvs =
     do { cg \<leftarrow> read_field as_string [] ''cluster_group'' kvs;
          mg \<leftarrow> read_field as_string [] ''management_group'' kvs;
          p \<leftarrow> read_field as_int 0 ''priority'' kvs;
          r \<leftarrow> read_list (as_list [] as_string) ''roles'' kvs;
          Some \<lparr>m_ClusterGroup = cg, m_ManagementGroup = mg, m_Priority = p, m_Roles = r\<rparr> }"

definition zero_membership :: MembershipDocument where
  "zero_membership = \<lparr>m_ClusterGroup = [], m_ManagementGroup = [], m_Priority = 0, m_Roles = []\<rparr>"

definition marshal_registration :: "RegistrationDocument \<Rightarrow> bytes option" where
  "marshal_registration r =
     do { t \<leftarrow> time_text (reg_UpdatedAt r);
          Some (JSON (JObj [(''node_id'', JStr (reg_NodeID r)),
            (''memberships'', JArr (map json_membership (reg_Memberships r))), (''updated_at'', JStr t)])) }"

definition unmarshal_registration :: "bytes \<Rightarrow> RegistrationDocument option" where
  "unmarshal_registration = unmarshal (\<lambda>kvs.
     do { n \<leftarrow> read_field as_string [] ''node_id'' kvs;
          ms \<leftarrow> read_list (as_list zero_membership (as_struct read_membership)) ''memberships'' kvs;
          t \<leftarrow> read_field as_time zero_time ''updated_at'' kvs;
          Some \<lparr>reg_NodeID = n, reg_Memberships = ms, reg_UpdatedAt = t\<rparr> })"

definition marshal_session :: "SessionDocument \<Rightarrow> bytes option" where
  "marshal_session d =
     do { t \<leftarrow> time_text (ses_UpdatedAt d);
          Some (JSON (JObj [(''node_id'', JStr (ses_NodeID d)), (''updated_at'', JStr t)])) }"

definition marshal_leadership :: "LeadershipDocument \<Rightarrow> bytes option" where
  "marshal_leadership d =
     do { t \<leftarrow> time_text (l_UpdatedAt d);
          Some (JSON (JObj [(''owner_node_id'', JStr (l_OwnerNodeID d)),
            (''lease_id'', JInt (l_LeaseID d)), (''updated_at'', JStr t)])) }"

section \<open>Commands\<close>

record Command =
  c_ID :: string
  c_Type :: CommandType
  c_ClusterGroup :: string
  c_ManagementGroup :: string
  c_Status :: CommandStatus
  c_Error :: string
  c_CreatedAt :: int
  c_StartedAt :: "int option"
  c_FinishedAt :: "int option"

definition omit_time :: "string \<Rightarrow> int option \<Rightarrow> (string \<times> json) list option" where
  "omit_time n t = (case t of None \<Rightarrow> Some []
     | Some t' \<Rightarrow> map_option (\<lambda>s. [(n, JStr s)]) (time_text t'))"

definition marshal_command :: "Command \<Rightarrow> bytes option" where
  "marshal_command c =
     do { t \<leftarrow> time_text (c_CreatedAt c);
          st \<leftarrow> omit_time ''started_at'' (c_StartedAt c);
          fi \<leftarrow> omit_time ''finished_at'' (c_FinishedAt c);
          Some (JSON (JObj ([(''id'', JStr (c_ID c)), (''type'', JStr (c_Type c)),
            (''cluster_group'', JStr (c_ClusterGroup c)),
            (''management_group'', JStr (c_ManagementGroup c)), (''status'', JStr (c_Status c))] @
            omit_str ''error'' (c_Error c) @ [(''created_at'', JStr t)] @ st @ fi))) }"

definition unmarshal_command :: "bytes \<Rightarrow> Command option" where
  "unmarshal_command = unmarshal (\<lambda>kvs.
     do { i \<leftarrow> read_field as_string [] ''id'' kvs; ty \<leftarrow> read_field as_string [] ''type'' kvs;
          cg \<leftarrow> read_field as_string [] ''cluster_group'' kvs;
          mg \<leftarrow> read_field as_string [] ''management_group'' kvs;
          s \<leftarrow> read_field as_string [] ''status'' kvs; e \<leftarrow> read_field as_string [] ''error'' kvs;
          t \<leftarrow> read_field as_time zero_time ''created_at'' kvs;
          st \<leftarrow> read_ptr as_time ''started_at'' kvs; fi \<leftarrow> read_ptr as_time ''finished_at'' kvs;
          Some \<lparr>c_ID = i, c_Type = ty, c_ClusterGroup = cg, c_ManagementGroup = mg, c_Status = s,
                c_Error = e, c_CreatedAt = t, c_StartedAt = st, c_FinishedAt = fi\<rparr> })"

section \<open>The contract of a document type\<close>

text \<open>
  What the rest of the program relies on for each document: marshalling fails only when a
  time stamp is outside the years 0 to 9999, it gives a JSON object, and unmarshalling gives
  the document back.
\<close>

locale doc_codec =
  fixes enc :: "'d \<Rightarrow> bytes option"
    and dec :: "bytes \<Rightarrow> 'd option"
    and stamp_ok :: "'d \<Rightarrow> bool"
    and ok :: "'d \<Rightarrow> bool"
  assumes total: "stamp_ok d \<Longrightarrow> \<exists>b. enc d = Some b"
    and tree: "enc d = Some b \<Longrightarrow> \<exists>kvs. b = JSON (JObj kvs)"
    and roundtrip: "enc d = Some b \<Longrightarrow> ok d \<Longrightarrow> dec b = Some d"
begin

lemma enc_inj: "enc d = Some b \<Longrightarrow> enc e = Some b \<Longrightarrow> ok d \<Longrightarrow> ok e \<Longrightarrow> d = e"
  by (metis roundtrip option.inject)

lemma enc_valid: "enc d = Some b \<Longrightarrow> json_valid b \<and> b \<noteq> no_bytes"
  using tree by (fastforce simp: no_bytes_def)

lemma enc_dec: "stamp_ok d \<Longrightarrow> ok d \<Longrightarrow> Option.bind (enc d) dec = Some d"
  using total roundtrip by fastforce

end

lemma time_text_ok: "time_ok t \<Longrightarrow> \<exists>s. time_text t = Some s"
  by (simp add: time_text_def)

lemma as_time_text [simp]: "time_text t = Some s \<Longrightarrow> as_time (JStr s) = Some t"
  by (simp add: time_text_parse)

lemmas read_defs = read_field_def read_list_def read_ptr_def

declare as_time.simps [simp del] as_list.simps [simp del]

interpretation desired: doc_codec marshal_desired unmarshal_desired
  "\<lambda>d. time_ok (d_UpdatedAt d)" "\<lambda>_. True"
  by unfold_locales
    (auto simp: marshal_desired_def unmarshal_desired_def read_defs same_field_def lower_def
      split: bind_splits dest!: time_text_ok)

interpretation actual: doc_codec marshal_actual unmarshal_actual
  "\<lambda>a. time_ok (a_UpdatedAt a)" "\<lambda>_. True"
  by unfold_locales
    (auto simp: marshal_actual_def unmarshal_actual_def read_defs same_field_def lower_def
      split: bind_splits dest!: time_text_ok)

interpretation health: doc_codec marshal_health unmarshal_health
  "\<lambda>h. time_ok (h_UpdatedAt h)" "\<lambda>_. True"
  by unfold_locales
    (auto simp: marshal_health_def unmarshal_health_def read_defs same_field_def lower_def
      split: bind_splits dest!: time_text_ok)

interpretation mgconfig: doc_codec marshal_mgconfig unmarshal_mgconfig
  "\<lambda>c. time_ok (mgc_UpdatedAt c)" "\<lambda>c. int64 (mgc_Priority c)"
  by unfold_locales
    (auto simp: marshal_mgconfig_def unmarshal_mgconfig_def read_defs same_field_def lower_def
      split: bind_splits dest!: time_text_ok)

lemma read_json_membership:
  assumes "int64 (m_Priority m)"
  shows "as_struct read_membership (json_membership m) = Some m"
  using assms by (simp add: json_membership_def read_membership_def read_defs same_field_def lower_def)

interpretation registration: doc_codec marshal_registration unmarshal_registration
  "\<lambda>r. time_ok (reg_UpdatedAt r)" "\<lambda>r. \<forall>m \<in> set (reg_Memberships r). int64 (m_Priority m)"
proof
  fix d :: RegistrationDocument and b
  assume e: "marshal_registration d = Some b" and ok: "\<forall>m \<in> set (reg_Memberships d). int64 (m_Priority m)"
  have "as_list zero_membership (as_struct read_membership)
      (JArr (map json_membership (reg_Memberships d))) = Some (reg_Memberships d)"
    using ok by (intro as_list_map conjI read_json_membership) (auto simp: json_membership_def)
  with e show "unmarshal_registration b = Some d"
    by (auto simp: marshal_registration_def unmarshal_registration_def read_defs same_field_def lower_def
      split: bind_splits)
qed (auto simp: marshal_registration_def split: bind_splits dest!: time_text_ok)

lemma omit_time_read:
  assumes "omit_time n t = Some kvs"
  shows "assign (\<lambda>_. None) (\<lambda>v. map_option Some (as_time v)) (field_values n kvs) None = Some t"
  using assms by (auto simp: omit_time_def split: option.splits)

lemma omit_time_other:
  assumes "omit_time k t = Some kvs" and "\<not> same_field k n"
  shows "field_values n kvs = []"
  using assms by (auto simp: omit_time_def split: option.splits)

definition command_stamps_ok :: "Command \<Rightarrow> bool" where
  "command_stamps_ok c \<longleftrightarrow> time_ok (c_CreatedAt c) \<and> pred_option time_ok (c_StartedAt c)
     \<and> pred_option time_ok (c_FinishedAt c)"

lemma omit_time_ok: "pred_option time_ok t \<Longrightarrow> \<exists>kvs. omit_time n t = Some kvs"
  by (cases t) (auto simp: omit_time_def dest!: time_text_ok)

interpretation command: doc_codec marshal_command unmarshal_command command_stamps_ok "\<lambda>_. True"
proof
  fix d assume "command_stamps_ok d"
  then show "\<exists>b. marshal_command d = Some b"
    using omit_time_ok [of "c_StartedAt d" "''started_at''"] omit_time_ok [of "c_FinishedAt d" "''finished_at''"]
    by (auto simp: command_stamps_ok_def marshal_command_def dest!: time_text_ok)
next
  fix d b assume "marshal_command d = Some b"
  then show "unmarshal_command b = Some d"
    by (auto simp: marshal_command_def unmarshal_command_def read_defs same_field_def lower_def
       omit_time_read omit_time_other split: bind_splits)
qed (auto simp: marshal_command_def split: bind_splits)


definition sample_desired :: DesiredDocument where
  "sample_desired = \<lparr>d_State = ''active'', d_Managed = True, d_UpdatedAt = zero_time + 5, d_Details = ''x''\<rparr>"

definition sample_actual :: ActualDocument where
  "sample_actual = \<lparr>a_State = ''failed'', a_UpdatedAt = zero_time, a_Details = []\<rparr>"

definition sample_health :: HealthDocument where
  "sample_health = \<lparr>h_Status = ''ok'', h_UpdatedAt = zero_time, h_Details = []\<rparr>"

definition sample_mgconfig :: ManagementGroupConfigDocument where
  "sample_mgconfig = \<lparr>mgc_Priority = 3, mgc_Roles = [''app''], mgc_UpdatedAt = zero_time\<rparr>"

definition sample_registration :: RegistrationDocument where
  "sample_registration = \<lparr>reg_NodeID = ''n'', reg_Memberships =
     [\<lparr>m_ClusterGroup = ''g'', m_ManagementGroup = ''x'', m_Priority = 1, m_Roles = [''app'']\<rparr>],
     reg_UpdatedAt = zero_time\<rparr>"

definition sample_command :: Command where
  "sample_command = \<lparr>c_ID = ''1'', c_Type = ''promote'', c_ClusterGroup = ''g'', c_ManagementGroup = ''x'',
     c_Status = ''running'', c_Error = [], c_CreatedAt = zero_time, c_StartedAt = Some (zero_time + 1),
     c_FinishedAt = None\<rparr>"


end
