(* ===== verification/Config.thy ===== *)
theory Config
  imports Types Keys
begin

text \<open>
  \<^verbatim>\<open>internal/config/config.go\<close>: the configuration structs, the defaults, the validation and
  the resolution of actor paths. YAML decoding is a third-party package: the model starts from
  the decoded structs. Go maps that are iterated are association lists; a \<open>time.Duration\<close> is
  its number of nanoseconds, with the wrap-around of \<^verbatim>\<open>int64\<close> written out where durations are
  added.
\<close>

section \<open>Structs\<close>

type_synonym Duration = int

definition Second :: Duration where "Second = 1000000000"
definition Millisecond :: Duration where "Millisecond = 1000000"

definition wrap64 :: "int \<Rightarrow> int" where
  "wrap64 x = (x + 2 ^ 63) mod 2 ^ 64 - 2 ^ 63"

record EtcdConfig =
  Endpoints :: "string list"
  DialTimeout :: Duration
  RetryInterval :: Duration

record LoggerConfig =
  Level :: string
  Format :: string
  Console :: bool
  File :: string

record APIConfig =
  Listen :: string
  Token :: string

record ClusterGroupConfig =
  cgc_Name :: string

record ClusterConfig =
  cl_ID :: string
  cl_Name :: string
  cl_Groups :: "(string \<times> ClusterGroupConfig) list"
  FailoverMode :: string
  LeaderTTL :: Duration
  LeaderRenewInterval :: Duration
  SessionTTL :: Duration

record MembershipConfig =
  mc_ClusterGroup :: string
  mc_ManagementGroup :: string

record NodeConfig =
  NodeID :: string
  nc_Name :: string
  ActorsBaseDir :: string
  DisableAPI :: bool
  DisableController :: bool
  Memberships :: "MembershipConfig list"

record ManagementGroupConf =
  mg_Priority :: int
  mg_Roles :: "string list"

record RoleTimeouts =
  Exec :: Duration
  Converge :: Duration
  rt_RetryInterval :: Duration
  CheckInterval :: Duration
  DetailsMaxSize :: int

type_synonym ActorCommand = "string list"
type_synonym RoleActors = "(string \<times> ActorCommand) list"

record RoleConfig =
  rc_Name :: string
  Actors :: RoleActors
  Timeouts :: RoleTimeouts

type_synonym RolesMap = "(string \<times> RoleConfig) list"

record Config =
  EtcdCfg :: EtcdConfig
  Logger :: LoggerConfig
  API :: APIConfig
  Cluster :: ClusterConfig
  NodeCfg :: NodeConfig
  ManagementGroups :: "(string \<times> (string \<times> ManagementGroupConf) list) list"
  Roles :: RolesMap

definition zero_timeouts :: RoleTimeouts where
  "zero_timeouts = \<lparr>Exec = 0, Converge = 0, rt_RetryInterval = 0, CheckInterval = 0, DetailsMaxSize = 0\<rparr>"

definition zero_role :: RoleConfig where
  "zero_role = \<lparr>rc_Name = [], Actors = [], Timeouts = zero_timeouts\<rparr>"

definition zero_mgconf :: ManagementGroupConf where
  "zero_mgconf = \<lparr>mg_Priority = 0, mg_Roles = []\<rparr>"

text \<open>\<^verbatim>\<open>cfg.ManagementGroups[cg][mg]\<close>: the zero value when either key is missing.\<close>

definition mg_conf :: "Config \<Rightarrow> string \<Rightarrow> string \<Rightarrow> ManagementGroupConf" where
  "mg_conf cfg cg mg =
     go_index (map_of (go_index (map_of (ManagementGroups cfg)) [] cg)) zero_mgconf mg"

section \<open>Role defaults\<close>

definition applyRoleDefaults :: "RoleConfig \<Rightarrow> RoleConfig \<Rightarrow> RoleConfig" where
  "applyRoleDefaults role def =
     (let role = (if Actors role = [] \<and> Actors def \<noteq> [] then role\<lparr>Actors := Actors def\<rparr> else role);
          t = Timeouts role; d = Timeouts def;
          t = (if Exec t = 0 then t\<lparr>Exec := Exec d\<rparr> else t);
          t = (if Converge t = 0 then t\<lparr>Converge := Converge d\<rparr> else t);
          t = (if rt_RetryInterval t = 0 then t\<lparr>rt_RetryInterval := rt_RetryInterval d\<rparr> else t);
          t = (if CheckInterval t = 0 then t\<lparr>CheckInterval := CheckInterval d\<rparr> else t);
          t = (if DetailsMaxSize t = 0 then t\<lparr>DetailsMaxSize := DetailsMaxSize d\<rparr> else t)
      in role\<lparr>Timeouts := t\<rparr>)"

text \<open>
  \<^verbatim>\<open>RolesMap.UnmarshalYAML\<close> after the YAML package has decoded every entry of the mapping: the
  entry \<^verbatim>\<open>defaults\<close> is the base of the others and not a role itself.
\<close>

definition roles_with_defaults :: "RolesMap \<Rightarrow> RolesMap" where
  "roles_with_defaults raw =
     (let defaults = go_index (map_of raw) zero_role ''defaults''
      in map (\<lambda>(key, role). (key, applyRoleDefaults role defaults))
           (filter (\<lambda>(key, role). key \<noteq> ''defaults'') raw))"

section \<open>Defaults\<close>

definition default_str :: "string \<Rightarrow> string \<Rightarrow> string" where
  "default_str s d = (if s = [] then d else s)"

definition default_dur :: "int \<Rightarrow> int \<Rightarrow> int" where
  "default_dur t d = (if t = 0 then d else t)"

definition default_timeouts :: "RoleTimeouts \<Rightarrow> RoleTimeouts" where
  "default_timeouts t =
     \<lparr>Exec = default_dur (Exec t) (5 * Second), Converge = default_dur (Converge t) (10 * Second),
      rt_RetryInterval = default_dur (rt_RetryInterval t) Second,
      CheckInterval = default_dur (CheckInterval t) (5 * Second),
      DetailsMaxSize = default_dur (DetailsMaxSize t) 4096\<rparr>"

definition applyDefaults :: "Config \<Rightarrow> Config" where
  "applyDefaults cfg =
     cfg\<lparr>Logger := (Logger cfg)\<lparr>Level := default_str (Level (Logger cfg)) ''debug'',
           Format := default_str (Format (Logger cfg)) ''plain''\<rparr>,
         API := (API cfg)\<lparr>Listen := default_str (Listen (API cfg)) '':5080''\<rparr>,
         EtcdCfg := (EtcdCfg cfg)\<lparr>DialTimeout := default_dur (DialTimeout (EtcdCfg cfg)) (3 * Second),
           RetryInterval := default_dur (RetryInterval (EtcdCfg cfg)) Second\<rparr>,
         Cluster := (Cluster cfg)\<lparr>
           cl_Name := default_str (cl_Name (Cluster cfg)) (cl_ID (Cluster cfg)),
           cl_Groups := map (\<lambda>(gid, g). (gid, g\<lparr>cgc_Name := default_str (cgc_Name g) gid\<rparr>))
             (cl_Groups (Cluster cfg)),
           FailoverMode := default_str (FailoverMode (Cluster cfg)) ''manual'',
           LeaderTTL := default_dur (LeaderTTL (Cluster cfg)) (2 * Second),
           LeaderRenewInterval := default_dur (LeaderRenewInterval (Cluster cfg)) (500 * Millisecond),
           SessionTTL := default_dur (SessionTTL (Cluster cfg)) (30 * Second)\<rparr>,
         NodeCfg := (NodeCfg cfg)\<lparr>nc_Name := default_str (nc_Name (NodeCfg cfg)) (NodeID (NodeCfg cfg))\<rparr>,
         Roles := map (\<lambda>(name, role). (name, role\<lparr>rc_Name := default_str (rc_Name role) name,
             Timeouts := default_timeouts (Timeouts role)\<rparr>)) (Roles cfg)\<rparr>"

section \<open>Validation\<close>

text \<open>The check of one membership; \<open>None\<close> is no error.\<close>

definition validate_roles :: "Config \<Rightarrow> string \<Rightarrow> string \<Rightarrow> string list \<Rightarrow> error option" where
  "validate_roles cfg cg mg roles =
     (case find (\<lambda>r. map_of (Roles cfg) r = None) roles of
        Some r \<Rightarrow> Some (''management_group '' @ cg @ ''/'' @ mg @ '' references undefined role '' @ quoted r)
      | None \<Rightarrow> None)"

definition validate_membership :: "Config \<Rightarrow> MembershipConfig \<Rightarrow> error option" where
  "validate_membership cfg m =
     (let cg = mc_ClusterGroup m; mg = mc_ManagementGroup m in
      if cg \<notin> set (map fst (cl_Groups (Cluster cfg)))
      then Some (''membership cluster_group '' @ quoted cg @ '' is not declared in cluster.groups'')
      else if mg = [] then Some ''membership.management_group is required''
      else case map_of (ManagementGroups cfg) cg of
        None \<Rightarrow> Some (''membership cluster_group '' @ quoted cg @ '' has no entry in management_groups'')
      | Some mgGroups \<Rightarrow>
        (case map_of mgGroups mg of
           None \<Rightarrow> Some (''membership management_group '' @ quoted cg @ ''/'' @ quoted mg
                       @ '' is not declared in management_groups'')
         | Some mgCfg \<Rightarrow>
             if mg_Priority mgCfg \<le> 0
             then Some (''management_groups '' @ cg @ ''/'' @ mg @ '' priority must be greater than zero'')
             else if mg_Roles mgCfg = []
             then Some (''management_groups '' @ cg @ ''/'' @ mg @ '' must contain at least one role'')
             else validate_roles cfg cg mg (mg_Roles mgCfg)))"

definition validate_actor :: "string \<Rightarrow> string \<times> ActorCommand \<Rightarrow> error option" where
  "validate_actor roleName a =
     (case a of (actorName, command) \<Rightarrow>
        if actorName = [] then Some (''role '' @ quoted roleName @ '' has empty actor name'')
        else if command = [] then
          Some (''role '' @ quoted roleName @ '' actor '' @ quoted actorName @ '' command must not be empty'')
        else if hd command = [] then
          Some (''role '' @ quoted roleName @ '' actor '' @ quoted actorName
            @ '' executable path must not be empty'')
        else None)"

text \<open>The first error of a list of checks, in order.\<close>

fun first_error :: "error option list \<Rightarrow> error option" where
  "first_error [] = None"
| "first_error (e # es) = (case e of Some m \<Rightarrow> Some m | None \<Rightarrow> first_error es)"

definition validate :: "Config \<Rightarrow> error option" where
  "validate cfg =
     first_error
       ([if cl_ID (Cluster cfg) = [] then Some ''cluster.id is required'' else None,
         if cl_Groups (Cluster cfg) = [] then Some ''cluster.groups must contain at least one group'' else None,
         if Endpoints (EtcdCfg cfg) = [] then Some ''etcd.endpoints must contain at least one endpoint'' else None,
         if NodeID (NodeCfg cfg) = [] then Some ''node.node_id is required'' else None,
         if Memberships (NodeCfg cfg) = []
         then Some ''node.memberships must contain at least one membership'' else None,
         if [] \<in> set (map fst (cl_Groups (Cluster cfg)))
         then Some ''cluster.groups contains empty group id'' else None] @
        map (validate_membership cfg) (Memberships (NodeCfg cfg)) @
        concat (map (\<lambda>(roleName, role). map (validate_actor roleName) (Actors role)) (Roles cfg)))"

section \<open>Actor paths\<close>

text \<open>\<^verbatim>\<open>filepath.Join\<close> is \<^verbatim>\<open>path.Join\<close> where the separator is the slash.\<close>

definition ResolveActorPath :: "Config \<Rightarrow> string \<Rightarrow> string" where
  "ResolveActorPath cfg execPath =
     (if ActorsBaseDir (NodeCfg cfg) = [] \<or> has_prefix [slash] execPath then execPath
      else path_join [ActorsBaseDir (NodeCfg cfg), execPath])"

section \<open>What validation promises\<close>

definition membership_ok :: "Config \<Rightarrow> MembershipConfig \<Rightarrow> bool" where
  "membership_ok cfg m \<longleftrightarrow>
     mc_ClusterGroup m \<in> fst ` set (cl_Groups (Cluster cfg)) \<and> mc_ManagementGroup m \<noteq> []
     \<and> (\<exists>groups conf. map_of (ManagementGroups cfg) (mc_ClusterGroup m) = Some groups
          \<and> map_of groups (mc_ManagementGroup m) = Some conf
          \<and> 0 < mg_Priority conf \<and> mg_Roles conf \<noteq> [] \<and> set (mg_Roles conf) \<subseteq> fst ` set (Roles cfg))"

definition actor_ok :: "string \<times> ActorCommand \<Rightarrow> bool" where
  "actor_ok a \<longleftrightarrow> fst a \<noteq> [] \<and> snd a \<noteq> [] \<and> hd (snd a) \<noteq> []"

definition config_ok :: "Config \<Rightarrow> bool" where
  "config_ok cfg \<longleftrightarrow> cl_ID (Cluster cfg) \<noteq> [] \<and> cl_Groups (Cluster cfg) \<noteq> [] \<and> Endpoints (EtcdCfg cfg) \<noteq> []
     \<and> NodeID (NodeCfg cfg) \<noteq> [] \<and> Memberships (NodeCfg cfg) \<noteq> []
     \<and> [] \<notin> fst ` set (cl_Groups (Cluster cfg))
     \<and> (\<forall>m \<in> set (Memberships (NodeCfg cfg)). membership_ok cfg m)
     \<and> (\<forall>(n, r) \<in> set (Roles cfg). \<forall>a \<in> set (Actors r). actor_ok a)"

lemma first_error_None: "first_error es = None \<longleftrightarrow> (\<forall>e \<in> set es. e = None)"
  by (induction es) (auto split: option.splits)

lemma validate_roles_None:
  "validate_roles cfg cg mg rs = None \<longleftrightarrow> set rs \<subseteq> fst ` set (Roles cfg)"
proof -
  have "validate_roles cfg cg mg rs = None \<longleftrightarrow> (\<forall>r \<in> set rs. map_of (Roles cfg) r \<noteq> None)"
    by (auto simp: validate_roles_def find_None_iff split: option.splits dest!: find_SomeD)
  then show ?thesis by (auto simp: map_of_eq_None_iff subset_iff)
qed

lemma validate_membership_None: "validate_membership cfg m = None \<longleftrightarrow> membership_ok cfg m"
  by (auto simp: validate_membership_def membership_ok_def validate_roles_None Let_def split: option.splits)

lemma validate_actor_None: "validate_actor n a = None \<longleftrightarrow> actor_ok a"
  by (cases a) (simp add: validate_actor_def actor_ok_def)

lemma validate_iff: "validate cfg = None \<longleftrightarrow> config_ok cfg"
proof -
  have roles: "(\<forall>e \<in> set (concat (map (\<lambda>(roleName, role). map (validate_actor roleName) (Actors role)) rs)). e = None)
      \<longleftrightarrow> (\<forall>(n, r) \<in> set rs. \<forall>a \<in> set (Actors r). actor_ok a)" for rs
  proof (induction rs)
    case (Cons x rs)
    then show ?case by (cases x) (simp only: list.map prod.case concat.simps set_append ball_Un list.set
        Set.ball_simps(7) set_map Set.ball_simps(9) validate_actor_None)
  qed simp
  show ?thesis
    unfolding validate_def first_error_None set_append ball_Un roles config_ok_def
    by (auto simp: validate_membership_None)
qed

text \<open>
  C11: validation is exact. A configuration passes exactly when the required fields are set,
  every membership of the node names a declared cluster group and a management group with a
  positive priority and at least one role, all of them defined, and every actor of every role
  has a name and an executable.
\<close>

theorem validate_exact: "validate cfg = None \<longleftrightarrow> config_ok cfg"
  by (rule validate_iff)

text \<open>
  Defaults fill the gaps and only the gaps. Applying them twice is applying them once;
  afterwards every role has non-zero timeouts and the lease, renewal and retry intervals are
  non-zero, and a role keeps each timeout that was set.
\<close>

theorem defaults_fill_gaps:
  "applyDefaults (applyDefaults cfg) = applyDefaults cfg
   \<and> LeaderTTL (Cluster (applyDefaults cfg)) \<noteq> 0 \<and> LeaderRenewInterval (Cluster (applyDefaults cfg)) \<noteq> 0
   \<and> SessionTTL (Cluster (applyDefaults cfg)) \<noteq> 0 \<and> RetryInterval (EtcdCfg (applyDefaults cfg)) \<noteq> 0
   \<and> map fst (Roles (applyDefaults cfg)) = map fst (Roles cfg)
   \<and> list_all2 (\<lambda>(n, r) (n', r'). Actors r' = Actors r
        \<and> Exec (Timeouts r') = (if Exec (Timeouts r) = 0 then 5 * Second else Exec (Timeouts r))
        \<and> Converge (Timeouts r') = (if Converge (Timeouts r) = 0 then 10 * Second else Converge (Timeouts r))
        \<and> CheckInterval (Timeouts r') = (if CheckInterval (Timeouts r) = 0 then 5 * Second else CheckInterval (Timeouts r))
        \<and> Exec (Timeouts r') \<noteq> 0 \<and> Converge (Timeouts r') \<noteq> 0 \<and> rt_RetryInterval (Timeouts r') \<noteq> 0
        \<and> CheckInterval (Timeouts r') \<noteq> 0 \<and> DetailsMaxSize (Timeouts r') \<noteq> 0)
      (Roles cfg) (Roles (applyDefaults cfg))"
  by (auto simp: applyDefaults_def default_str_def default_dur_def default_timeouts_def Second_def Millisecond_def
      list_all2_conv_all_nth split_def)

end
