(* ===== verification/Controller.thy ===== *)
theory Controller
  imports Etcd Types Config
begin

text \<open>
  \<^verbatim>\<open>internal/controller/controller.go\<close>: one reconciliation cycle of the leader. A handler reads
  one state of the store (the watch loop changes it between handlers, not by the handler's own
  writes), and changes the controller's maps and the world. Logging is left out.
\<close>

section \<open>State\<close>

record Controller =
  lastManagementGroups :: "string \<rightharpoonup> string list"
  switchoverStarted :: "string \<rightharpoonup> int"
  switchoverTarget :: "string \<rightharpoonup> string"
  lastMissing :: "string \<rightharpoonup> string list"

definition new_controller :: Controller where
  "new_controller = \<lparr>lastManagementGroups = Map.empty, switchoverStarted = Map.empty,
     switchoverTarget = Map.empty, lastMissing = Map.empty\<rparr>"

record groupRuntime =
  gr_ClusterGroup :: string
  gr_ManagementGroup :: string
  gr_Priority :: int
  gr_Desired :: DesiredState
  gr_Managed :: bool
  gr_Actual :: ActualState
  gr_Health :: HealthStatus
  gr_Available :: bool

record expectedRoleState =
  ex_NodeID :: string
  ex_Role :: string

definition time_error :: error where
  "time_error = ''json: error calling MarshalJSON for type time.Time''"

definition cluster_id :: "Config \<Rightarrow> string" where
  "cluster_id cfg = cl_ID (Cluster cfg)"

section \<open>Reading the store\<close>

definition readDesired :: "Config \<Rightarrow> StateStore \<Rightarrow> string \<Rightarrow> string \<Rightarrow> DesiredState \<times> bool" where
  "readDesired cfg st cg mg =
     (case Get st (Desired (cluster_id cfg) cg mg) of
        None \<Rightarrow> (DesiredPassive, False)
      | Some raw \<Rightarrow>
          (case unmarshal_desired raw of
             None \<Rightarrow> (DesiredPassive, False)
           | Some doc \<Rightarrow> (d_State doc, d_Managed doc)))"

definition readPriority :: "Config \<Rightarrow> StateStore \<Rightarrow> string \<Rightarrow> string \<Rightarrow> int" where
  "readPriority cfg st cg mg =
     (case Get st (ManagementGroupConfig (cluster_id cfg) cg mg) of
        None \<Rightarrow> 1000
      | Some raw \<Rightarrow>
          (case unmarshal_mgconfig raw of
             None \<Rightarrow> 1000
           | Some doc \<Rightarrow> if mgc_Priority doc \<le> 0 then 1000 else mgc_Priority doc))"

text \<open>The (node, role) pairs one registration announces for a group.\<close>

definition registered_roles :: "string \<Rightarrow> string \<Rightarrow> string \<Rightarrow> RegistrationDocument \<Rightarrow> expectedRoleState list" where
  "registered_roles cg mg name reg =
     (let nodeID = (if reg_NodeID reg = [] then name else reg_NodeID reg)
      in concat (map (\<lambda>m. map (\<lambda>role. \<lparr>ex_NodeID = nodeID, ex_Role = role\<rparr>) (m_Roles m))
           (filter (\<lambda>m. m_ClusterGroup m = cg \<and> m_ManagementGroup m = mg) (reg_Memberships reg))))"

definition expectedRoleStates :: "Config \<Rightarrow> StateStore \<Rightarrow> string \<Rightarrow> string \<Rightarrow> expectedRoleState list" where
  "expectedRoleStates cfg st cg mg =
     (let pfx = RegistryRoot (cluster_id cfg) @ ''/''
      in concat (map (\<lambda>(key, raw).
           let name = trim_prefix pfx key
           in if slash \<in> set name then []
              else (case unmarshal_registration raw of
                      None \<Rightarrow> []
                    | Some reg \<Rightarrow> registered_roles cg mg name reg))
           (Prefix st (RegistryRoot (cluster_id cfg)))))"

definition missing_key :: "Config \<Rightarrow> StateStore \<Rightarrow> string \<Rightarrow> string \<Rightarrow> expectedRoleState \<Rightarrow> string list" where
  "missing_key cfg st cg mg x =
     (if Get st (RoleActual (cluster_id cfg) cg mg (ex_NodeID x) (ex_Role x)) = None
      then [ex_NodeID x @ ''/'' @ ex_Role x @ ''/actual'']
      else if Get st (RoleHealth (cluster_id cfg) cg mg (ex_NodeID x) (ex_Role x)) = None
      then [ex_NodeID x @ ''/'' @ ex_Role x @ ''/health'']
      else [])"

definition missingExpectedRoleStates :: "Config \<Rightarrow> StateStore \<Rightarrow> string \<Rightarrow> string \<Rightarrow> string list" where
  "missingExpectedRoleStates cfg st cg mg =
     sort (concat (map (missing_key cfg st cg mg) (expectedRoleStates cfg st cg mg)))"

section \<open>Aggregating the roles of a group\<close>

record agg =
  seenRoles :: bool
  seenActive :: bool
  seenPassive :: bool
  seenStarting :: bool
  seenStopping :: bool
  latestStartingAt :: int
  latestStoppingAt :: int
  actualState :: ActualState
  healthStatus :: HealthStatus
  details :: string

definition agg_init :: agg where
  "agg_init = \<lparr>seenRoles = False, seenActive = False, seenPassive = False, seenStarting = False,
     seenStopping = False, latestStartingAt = zero_time, latestStoppingAt = zero_time,
     actualState = ActualPassive, healthStatus = HealthOK, details = []\<rparr>"

text \<open>The \<^verbatim>\<open>switch\<close> on one decoded role document.\<close>

definition agg_doc :: "ActualDocument \<Rightarrow> agg \<Rightarrow> agg" where
  "agg_doc doc a =
     (let a = a\<lparr>seenRoles := True\<rparr>
      in if a_State doc = ActualFailed then
           a\<lparr>actualState := ActualFailed, healthStatus := HealthFailed,
             details := ''one or more roles are failed''\<rparr>
         else if a_State doc = ActualActive then a\<lparr>seenActive := True\<rparr>
         else if a_State doc = ActualPassive then a\<lparr>seenPassive := True\<rparr>
         else if a_State doc = ActualStarting then
           a\<lparr>seenStarting := True, latestStartingAt := max (latestStartingAt a) (a_UpdatedAt doc)\<rparr>
         else if a_State doc = ActualStopping then
           a\<lparr>seenStopping := True, latestStoppingAt := max (latestStoppingAt a) (a_UpdatedAt doc)\<rparr>
         else a)"

text \<open>The loop over the items below the group, left at the first failed role.\<close>

fun scan_roles :: "string \<Rightarrow> (string \<times> bytes) list \<Rightarrow> agg \<Rightarrow> agg" where
  "scan_roles groupKey [] a = a"
| "scan_roles groupKey ((key, raw) # items) a =
     (if \<not> has_suffix ''/actual'' key then scan_roles groupKey items a
      else if key = groupKey then scan_roles groupKey items a
      else (case unmarshal_actual raw of
              None \<Rightarrow> scan_roles groupKey items a
            | Some doc \<Rightarrow>
                (let a' = agg_doc doc a
                 in if actualState a' = ActualFailed then a' else scan_roles groupKey items a')))"

text \<open>The \<^verbatim>\<open>switch\<close> after the loop.\<close>

definition agg_decide :: "agg \<Rightarrow> agg" where
  "agg_decide a =
     (if \<not> seenRoles a then
        a\<lparr>actualState := ActualPassive, healthStatus := HealthOK, details := []\<rparr>
      else if seenStarting a \<or> seenStopping a then
        (let starting = a\<lparr>healthStatus := HealthWarning, actualState := ActualStarting,
                          details := ''one or more roles are starting''\<rparr>;
             stopping = a\<lparr>healthStatus := HealthWarning, actualState := ActualStopping,
                          details := ''one or more roles are stopping''\<rparr>
         in if seenStarting a \<and> seenStopping a then
              (if latestStoppingAt a < latestStartingAt a then starting else stopping)
            else if seenStarting a then starting else stopping)
      else if seenActive a \<and> \<not> seenPassive a then
        a\<lparr>actualState := ActualActive, healthStatus := HealthOK, details := []\<rparr>
      else if seenPassive a \<and> \<not> seenActive a then
        a\<lparr>actualState := ActualPassive, healthStatus := HealthOK, details := []\<rparr>
      else if seenActive a \<and> seenPassive a then
        a\<lparr>actualState := ActualFailed, healthStatus := HealthFailed,
          details := ''mixed active and passive roles''\<rparr>
      else a)"

definition aggregate :: "string \<Rightarrow> (string \<times> bytes) list \<Rightarrow> string list \<Rightarrow> agg" where
  "aggregate groupKey items missing =
     (let a = (if missing \<noteq> []
               then agg_init\<lparr>actualState := ActualFailed, healthStatus := HealthFailed,
                             details := ''agent lost''\<rparr>
               else agg_init);
          a = (if actualState a \<noteq> ActualFailed then scan_roles groupKey items a else a)
      in if actualState a \<noteq> ActualFailed then agg_decide a else a)"

section \<open>Writing only what changed\<close>

text \<open>
  \<open>None\<close> is "unchanged". Equal bytes have equal trees, so the comparison of the bytes is one of
  the trees; \<open>build_tree_compare_dead\<close> in \<open>Aggregation\<close> shows that it never decides.
\<close>

definition buildActualIfChanged ::
  "StateStore \<Rightarrow> string \<Rightarrow> ActualState \<Rightarrow> string \<Rightarrow> int \<Rightarrow> error + bytes option" where
  "buildActualIfChanged st key state det updatedAt =
     (let nxt = \<lparr>a_State = state, a_UpdatedAt = updatedAt, a_Details = det\<rparr>;
          current = Get st key
      in if (case Option.bind current unmarshal_actual of
               Some cur \<Rightarrow> a_State cur = state \<and> a_Details cur = det | None \<Rightarrow> False)
         then Inr None
         else (case marshal_actual nxt of
                 None \<Rightarrow> Inl time_error
               | Some data \<Rightarrow> if current = Some data then Inr None else Inr (Some data)))"

definition buildHealthIfChanged ::
  "StateStore \<Rightarrow> string \<Rightarrow> HealthStatus \<Rightarrow> string \<Rightarrow> int \<Rightarrow> error + bytes option" where
  "buildHealthIfChanged st key status det updatedAt =
     (let nxt = \<lparr>h_Status = status, h_UpdatedAt = updatedAt, h_Details = det\<rparr>;
          current = Get st key
      in if (case Option.bind current unmarshal_health of
               Some cur \<Rightarrow> h_Status cur = status \<and> h_Details cur = det | None \<Rightarrow> False)
         then Inr None
         else (case marshal_health nxt of
                 None \<Rightarrow> Inl time_error
               | Some data \<Rightarrow> if current = Some data then Inr None else Inr (Some data)))"

text \<open>\<^verbatim>\<open>if changed { if err := c.etcd.Put(...); err != nil { return err } }\<close>\<close>

definition put_if :: "'e etcd_service \<Rightarrow> string \<Rightarrow> bytes option \<Rightarrow> 'e world \<Rightarrow> error option \<times> 'e world" where
  "put_if svc key data w = (case data of None \<Rightarrow> (None, w) | Some b \<Rightarrow> Put svc key b 0 w)"

definition writeDesiredIfChanged :: "Config \<Rightarrow> 'e etcd_service \<Rightarrow> StateStore \<Rightarrow>
    string \<Rightarrow> string \<Rightarrow> DesiredState \<Rightarrow> 'e world \<Rightarrow> error option \<times> 'e world" where
  "writeDesiredIfChanged cfg svc st cg mg target w =
     (let key = Desired (cluster_id cfg) cg mg
      in if (case Option.bind (Get st key) unmarshal_desired of
               Some cur \<Rightarrow> d_State cur = target \<and> d_Managed cur | None \<Rightarrow> False)
         then (None, w)
         else
           let (t, w) = now w;
               doc = \<lparr>d_State = target, d_Managed = True, d_UpdatedAt = t, d_Details = []\<rparr>
           in (case marshal_desired doc of
                 None \<Rightarrow> (Some time_error, w)
               | Some data \<Rightarrow> Put svc key data 0 w))"

definition writePriority :: "Config \<Rightarrow> 'e etcd_service \<Rightarrow> StateStore \<Rightarrow>
    string \<Rightarrow> string \<Rightarrow> int \<Rightarrow> 'e world \<Rightarrow> 'e world" where
  "writePriority cfg svc st cg mg priority w =
     (let key = ManagementGroupConfig (cluster_id cfg) cg mg
      in case Get st key of
           None \<Rightarrow> w
         | Some raw \<Rightarrow>
             (case unmarshal_mgconfig raw of
                None \<Rightarrow> w
              | Some doc \<Rightarrow>
                  if mgc_Priority doc = priority then w
                  else
                    let (t, w) = now w
                    in (case marshal_mgconfig (doc\<lparr>mgc_Priority := priority, mgc_UpdatedAt := t\<rparr>) of
                          None \<Rightarrow> w
                        | Some data \<Rightarrow> snd (Put svc key data 0 w))))"

section \<open>One management group\<close>

definition note_missing :: "string \<Rightarrow> bool \<Rightarrow> string list \<Rightarrow> Controller \<Rightarrow> Controller" where
  "note_missing missingKey managed missing c =
     (if \<not> managed then c
      else if missing \<noteq> [] then
        (if go_index (lastMissing c) [] missingKey \<noteq> missing
         then c\<lparr>lastMissing := (lastMissing c)(missingKey \<mapsto> missing)\<rparr> else c)
      else c\<lparr>lastMissing := (lastMissing c)(missingKey := None)\<rparr>)"

definition reconcileManagementGroup :: "Config \<Rightarrow> 'e etcd_service \<Rightarrow> StateStore \<Rightarrow> string \<Rightarrow> string \<Rightarrow>
    Controller \<times> 'e world \<Rightarrow> (error + groupRuntime) \<times> Controller \<times> 'e world" where
  "reconcileManagementGroup cfg svc st cg mg cw =
     (let (c, w) = cw;
          cid = cluster_id cfg;
          items = Prefix st (ManagementGroup cid cg mg);
          (t, w) = now w;
          (desired, managed) = readDesired cfg st cg mg;
          missing = (if managed then missingExpectedRoleStates cfg st cg mg else []);
          c = note_missing (cg @ ''/'' @ mg) managed missing c;
          a = aggregate (Actual cid cg mg) items missing
      in case buildActualIfChanged st (Actual cid cg mg) (actualState a) (details a) t of
           Inl err \<Rightarrow> (Inl err, c, w)
         | Inr actualData \<Rightarrow>
           (case buildHealthIfChanged st (Health cid cg mg) (healthStatus a) (details a) t of
              Inl err \<Rightarrow> (Inl err, c, w)
            | Inr healthData \<Rightarrow>
              (case put_if svc (Actual cid cg mg) actualData w of
                 (Some err, w) \<Rightarrow> (Inl err, c, w)
               | (None, w) \<Rightarrow>
                 (case put_if svc (Health cid cg mg) healthData w of
                    (Some err, w) \<Rightarrow> (Inl err, c, w)
                  | (None, w) \<Rightarrow>
                    (Inr \<lparr>gr_ClusterGroup = cg, gr_ManagementGroup = mg,
                          gr_Priority = readPriority cfg st cg mg,
                          gr_Desired = desired, gr_Managed = managed,
                          gr_Actual = actualState a, gr_Health = healthStatus a,
                          gr_Available = (healthStatus a \<noteq> HealthFailed \<and> actualState a \<noteq> ActualFailed)\<rparr>,
                     c, w)))))"

section \<open>The priority policy\<close>

definition allSamePriority :: "groupRuntime list \<Rightarrow> bool" where
  "allSamePriority groups =
     (case groups of [] \<Rightarrow> True | g # gs \<Rightarrow> list_all (\<lambda>h. gr_Priority h = gr_Priority g) gs)"

fun findTarget_from :: "groupRuntime option \<Rightarrow> groupRuntime list \<Rightarrow> groupRuntime option" where
  "findTarget_from result [] = result"
| "findTarget_from result (g # gs) =
     (if \<not> gr_Managed g then findTarget_from result gs
      else if \<not> gr_Available g then findTarget_from result gs
      else findTarget_from
        (case result of None \<Rightarrow> Some g
         | Some r \<Rightarrow> if gr_Priority g < gr_Priority r then Some g else Some r) gs)"

definition findTarget :: "groupRuntime list \<Rightarrow> groupRuntime option" where
  "findTarget groups = findTarget_from None groups"

text \<open>The group that holds active ownership; \<^verbatim>\<open>""\<close> (here \<open>[]\<close>) is none.\<close>

definition findCurrentActive :: "groupRuntime list \<Rightarrow> string" where
  "findCurrentActive groups =
     (let first = (case find (\<lambda>g. gr_Desired g = DesiredActive \<and> gr_Managed g) groups of
                     None \<Rightarrow> [] | Some g \<Rightarrow> gr_ManagementGroup g)
      in if first = [] then
           (case find (\<lambda>g. gr_Desired g = DesiredPassive \<and>
                (gr_Actual g = ActualActive \<or> gr_Actual g = ActualStopping \<or> gr_Actual g = ActualStarting)) groups of
              None \<Rightarrow> [] | Some g \<Rightarrow> gr_ManagementGroup g)
         else first)"

definition switchoverTimeout :: "Config \<Rightarrow> string \<Rightarrow> string \<Rightarrow> Duration" where
  "switchoverTimeout cfg cg mg =
     (case map_of (ManagementGroups cfg) cg of
        None \<Rightarrow> 30 * Second
      | Some mgMap \<Rightarrow>
          (case map_of mgMap mg of
             None \<Rightarrow> 30 * Second
           | Some mgCfg \<Rightarrow>
               (let maxT = fold (\<lambda>roleID maxT.
                      case map_of (Roles cfg) roleID of
                        None \<Rightarrow> maxT
                      | Some roleCfg \<Rightarrow>
                          (let t = wrap64 (wrap64 (CheckInterval (Timeouts roleCfg) + Converge (Timeouts roleCfg))
                                     + Exec (Timeouts roleCfg))
                           in if maxT < t then t else maxT)) (mg_Roles mgCfg) 0
                in if maxT = 0 then 30 * Second else maxT)))"

text \<open>The minimum of a list of priorities, with the sentinel -1.\<close>

fun min_priority :: "int \<Rightarrow> groupRuntime list \<Rightarrow> int" where
  "min_priority p [] = p"
| "min_priority p (g # gs) =
     min_priority (if p < 0 \<or> gr_Priority g < p then gr_Priority g else p) gs"

definition handleAutoFailover :: "Config \<Rightarrow> 'e etcd_service \<Rightarrow> StateStore \<Rightarrow> string \<Rightarrow> groupRuntime list \<Rightarrow>
    'e world \<Rightarrow> bool \<times> 'e world" where
  "handleAutoFailover cfg svc st cg groups w =
     (let minPri = min_priority (-1) groups
      in if minPri < 0 then (False, w)
         else if \<not> list_ex (\<lambda>g. gr_Priority g = minPri \<and> \<not> gr_Available g \<and> gr_Managed g) groups
         then (False, w)
         else
           let nextPri = min_priority (-1) (filter gr_Available groups)
           in if nextPri < 0 then (False, w)
              else (True, for_each (\<lambda>g w.
                     if gr_Priority g = minPri \<and> \<not> gr_Available g
                     then writePriority cfg svc st cg (gr_ManagementGroup g) nextPri w
                     else if gr_Priority g = nextPri \<and> gr_Available g
                     then writePriority cfg svc st cg (gr_ManagementGroup g) minPri w
                     else w) groups w))"

text \<open>The loops that write a desired state for the managed groups (except one).\<close>

definition write_all_active :: "Config \<Rightarrow> 'e etcd_service \<Rightarrow> StateStore \<Rightarrow> groupRuntime list \<Rightarrow>
    'e world \<Rightarrow> error option \<times> 'e world" where
  "write_all_active cfg svc st groups =
     for_err (\<lambda>g w. if \<not> gr_Managed g then (None, w)
        else writeDesiredIfChanged cfg svc st (gr_ClusterGroup g) (gr_ManagementGroup g) DesiredActive w) groups"

definition write_others_passive :: "Config \<Rightarrow> 'e etcd_service \<Rightarrow> StateStore \<Rightarrow> string \<Rightarrow> groupRuntime list \<Rightarrow>
    'e world \<Rightarrow> error option \<times> 'e world" where
  "write_others_passive cfg svc st target groups =
     for_err (\<lambda>g w. if gr_ManagementGroup g = target then (None, w)
        else if \<not> gr_Managed g then (None, w)
        else writeDesiredIfChanged cfg svc st (gr_ClusterGroup g) (gr_ManagementGroup g) DesiredPassive w) groups"

text \<open>Phase 1 after the passive state is written: start or check the timer.\<close>

definition note_switchover :: "Config \<Rightarrow> string \<Rightarrow> string \<Rightarrow> string \<Rightarrow> Controller \<times> 'e world \<Rightarrow> Controller \<times> 'e world" where
  "note_switchover cfg cg currentActive target cw =
     (let (c, w) = cw; switchKey = cg @ ''/'' @ currentActive
      in case switchoverStarted c switchKey of
           None \<Rightarrow>
             (let (t, w) = now w
              in (c\<lparr>switchoverStarted := (switchoverStarted c)(switchKey \<mapsto> t),
                    switchoverTarget := (switchoverTarget c)(cg \<mapsto> target)\<rparr>, w))
         | Some started \<Rightarrow>
             (let (t, w) = now w
              in if switchoverTimeout cfg cg currentActive < t - started
                 then (c\<lparr>switchoverStarted := (switchoverStarted c)(switchKey := None),
                         switchoverTarget := (switchoverTarget c)(cg := None)\<rparr>, w)
                 else (c, w)))"

text \<open>Active-passive topology, with the target found.\<close>

definition switchover :: "Config \<Rightarrow> 'e etcd_service \<Rightarrow> StateStore \<Rightarrow> string \<Rightarrow> groupRuntime list \<Rightarrow>
    groupRuntime \<Rightarrow> Controller \<times> 'e world \<Rightarrow> error option \<times> Controller \<times> 'e world" where
  "switchover cfg svc st cg groups target cw =
     (let (c, w) = cw; tname = gr_ManagementGroup target; currentActive = findCurrentActive groups
      in if currentActive = tname then
           (let (err, w) = write_others_passive cfg svc st tname groups w in (err, c, w))
         else
           let curActual = (case find (\<lambda>g. gr_ManagementGroup g = currentActive) groups of
                              None \<Rightarrow> [] | Some g \<Rightarrow> gr_Actual g)
           in if currentActive \<noteq> [] \<and> curActual \<noteq> ActualPassive \<and> curActual \<noteq> ActualFailed then
                (case writeDesiredIfChanged cfg svc st cg currentActive DesiredPassive w of
                   (Some err, w) \<Rightarrow> (Some err, c, w)
                 | (None, w) \<Rightarrow> (None, note_switchover cfg cg currentActive tname (c, w)))
              else
                let c = (if currentActive \<noteq> []
                         then c\<lparr>switchoverStarted := (switchoverStarted c)(cg @ ''/'' @ currentActive := None)\<rparr>
                         else c)
                in if currentActive = [] \<and> go_index (switchoverTarget c) [] cg \<noteq> tname then (None, c, w)
                   else
                     let c = c\<lparr>switchoverTarget := (switchoverTarget c)(cg := None)\<rparr>
                     in (case writeDesiredIfChanged cfg svc st (gr_ClusterGroup target) tname DesiredActive w of
                           (Some err, w) \<Rightarrow> (Some err, c, w)
                         | (None, w) \<Rightarrow>
                             (let (err, w) = write_others_passive cfg svc st tname groups w in (err, c, w))))"

definition applyPriorityPolicy :: "Config \<Rightarrow> 'e etcd_service \<Rightarrow> StateStore \<Rightarrow> string \<Rightarrow> groupRuntime list \<Rightarrow>
    Controller \<times> 'e world \<Rightarrow> error option \<times> Controller \<times> 'e world" where
  "applyPriorityPolicy cfg svc st cg groups cw =
     (let (c, w) = cw
      in if groups = [] then (None, c, w)
         else
           let (swapped, w) = (if FailoverMode (Cluster cfg) = ''automatic''
                               then handleAutoFailover cfg svc st cg groups w else (False, w))
           in if swapped then (None, c, w)
              else if allSamePriority groups then
                (let (err, w) = write_all_active cfg svc st groups w in (err, c, w))
              else (case findTarget groups of
                      None \<Rightarrow> (None, c, w)
                    | Some target \<Rightarrow> switchover cfg svc st cg groups target (c, w)))"

section \<open>One cycle\<close>

definition isSystemKey :: "string \<Rightarrow> bool" where
  "isSystemKey name \<longleftrightarrow> name \<in> set [''leadership'', ''commands'', ''commands_history'', ''registry'', ''session'', ''config'']"

text \<open>The runtimes of the groups that reconcile without an error, in the order of the listing.\<close>

fun reconcile_groups :: "Config \<Rightarrow> 'e etcd_service \<Rightarrow> StateStore \<Rightarrow> string \<Rightarrow> string list \<Rightarrow>
    Controller \<times> 'e world \<Rightarrow> groupRuntime list \<times> Controller \<times> 'e world" where
  "reconcile_groups cfg svc st cg [] cw = ([], cw)"
| "reconcile_groups cfg svc st cg (mg # mgs) cw =
     (if isSystemKey mg then reconcile_groups cfg svc st cg mgs cw
      else
        let (r, cw) = reconcileManagementGroup cfg svc st cg mg cw;
            (rs, cw) = reconcile_groups cfg svc st cg mgs cw
        in ((case r of Inl err \<Rightarrow> rs | Inr g \<Rightarrow> g # rs), cw))"

definition reconcileClusterGroup :: "Config \<Rightarrow> 'e etcd_service \<Rightarrow> StateStore \<Rightarrow> string \<Rightarrow>
    Controller \<times> 'e world \<Rightarrow> Controller \<times> 'e world" where
  "reconcileClusterGroup cfg svc st cg cw =
     (let (c, w) = cw;
          mgs = ListChildren st (ClusterGroup (cluster_id cfg) cg);
          c = (if go_index (lastManagementGroups c) [] cg \<noteq> mgs
               then c\<lparr>lastManagementGroups := (lastManagementGroups c)(cg \<mapsto> mgs)\<rparr> else c);
          (runtimes, cw) = reconcile_groups cfg svc st cg mgs (c, w)
      in snd (applyPriorityPolicy cfg svc st cg runtimes cw))"

definition Reconcile :: "Config \<Rightarrow> 'e etcd_service \<Rightarrow> StateStore \<Rightarrow> Controller \<times> 'e world \<Rightarrow> Controller \<times> 'e world" where
  "Reconcile cfg svc st cw =
     (if \<not> ready st then cw
      else for_each (\<lambda>(cg, _) cw. reconcileClusterGroup cfg svc st cg cw) (cl_Groups (Cluster cfg)) cw)"

fun formatMissingRoleStates :: "string list \<Rightarrow> string" where
  "formatMissingRoleStates missing =
     (if missing = [] then [] else ''agent lost: '' @ join '','' missing)"

end
