(* ===== verification/Example.thy ===== *)
theory Example
  imports Controller
begin

text \<open>
  A small cluster on which the witnesses evaluate the model: a configuration with one role, a
  store built from entries of the key scheme, and a world over the in-memory service.
\<close>

definition example_role :: RoleConfig where
  "example_role = \<lparr>rc_Name = ''app'', Actors = [(''probe'', [''/bin/probe''])],
     Timeouts = \<lparr>Exec = 5, Converge = 10, rt_RetryInterval = 1, CheckInterval = 5, DetailsMaxSize = 64\<rparr>\<rparr>"

definition example_cfg :: "string \<Rightarrow> Config" where
  "example_cfg mode =
     \<lparr>EtcdCfg = \<lparr>Endpoints = [''e''], DialTimeout = 3, RetryInterval = 1\<rparr>,
      Logger = \<lparr>Level = ''debug'', Format = ''plain'', Console = True, File = []\<rparr>,
      API = \<lparr>Listen = '':5080'', Token = ''t''\<rparr>,
      Cluster = \<lparr>cl_ID = ''c'', cl_Name = ''c'', cl_Groups = [(''g'', \<lparr>cgc_Name = ''g''\<rparr>)],
        FailoverMode = mode, LeaderTTL = 2, LeaderRenewInterval = 1, SessionTTL = 30\<rparr>,
      NodeCfg = \<lparr>NodeID = ''n'', nc_Name = ''n'', ActorsBaseDir = [], DisableAPI = False,
        DisableController = False, Memberships = [\<lparr>mc_ClusterGroup = ''g'', mc_ManagementGroup = ''x''\<rparr>]\<rparr>,
      ManagementGroups = [(''g'', [(''x'', \<lparr>mg_Priority = 1, mg_Roles = [''app'']\<rparr>),
        (''y'', \<lparr>mg_Priority = 2, mg_Roles = [''app'']\<rparr>)])],
      Roles = [(''app'', example_role)]\<rparr>"

definition example_store :: "(entity \<times> bytes) list \<Rightarrow> StateStore" where
  "example_store items = LoadSnapshot new_store (map (\<lambda>(e, b). (entity_key ''c'' e, b)) items) 7"

definition example_world :: "(entity \<times> bytes) list \<Rightarrow> mem_etcd world" where
  "example_world items =
     \<lparr>service_state = (map (\<lambda>(e, b). (entity_key ''c'' e, b)) items, 1),
      clock = (\<lambda>k. zero_time + int (min k 1000)), ticks = 0, sessionLeaseID = 0, sent = []\<rparr>"

text \<open>Documents without a time stamp, as a client may write them.\<close>

definition desired_json :: "string \<Rightarrow> bool \<Rightarrow> bytes" where
  "desired_json s m = JSON (JObj [(''state'', JStr s), (''managed'', JBool m)])"

definition actual_json :: "string \<Rightarrow> bytes" where
  "actual_json s = JSON (JObj [(''state'', JStr s)])"

definition health_json :: "string \<Rightarrow> bytes" where
  "health_json s = JSON (JObj [(''status'', JStr s)])"

definition priority_json :: "int \<Rightarrow> bytes" where
  "priority_json p = JSON (JObj [(''priority'', JInt p)])"

lemma cluster_id_example [simp]: "cluster_id (example_cfg mode) = ''c''"
  by (simp add: cluster_id_def example_cfg_def)

lemma key_ok_entity: "id_ok c \<Longrightarrow> entity_ok e \<Longrightarrow> key_ok (entity_key c e)"
  using entity.split_key [of "(c, e)"] entity_segs_ok [of c e] by (auto simp: key_ok_def)

lemma store_ok_example:
  assumes "\<forall>(e, b) \<in> set items. entity_ok e"
  shows "store_ok (example_store items)"
proof -
  have "id_ok ''c''" by (simp add: id_ok_def)
  then show ?thesis
    using assms key_ok_entity unfolding example_store_def by (intro store_ok_LoadSnapshot) auto
qed

text \<open>The group \<open>x\<close> is active, with one role, and the stored documents say so.\<close>

definition example_items :: "(entity \<times> bytes) list" where
  "example_items =
     [(EGroupConfig ''g'' ''x'', priority_json 1), (EDesired ''g'' ''x'', desired_json ''active'' True),
      (EActual ''g'' ''x'', actual_json ''active''), (EHealth ''g'' ''x'', health_json ''ok''),
      (ERoleActual ''g'' ''x'' ''n'' ''app'', actual_json ''active'')]"


text \<open>A runtime record of a group, as \<open>reconcileManagementGroup\<close> returns it.\<close>

definition runtime :: "string \<Rightarrow> int \<Rightarrow> DesiredState \<Rightarrow> bool \<Rightarrow> ActualState \<Rightarrow> groupRuntime" where
  "runtime mg p des man act =
     \<lparr>gr_ClusterGroup = ''g'', gr_ManagementGroup = mg, gr_Priority = p, gr_Desired = des, gr_Managed = man,
      gr_Actual = act, gr_Health = (if act = ActualFailed then HealthFailed else HealthOK),
      gr_Available = (act \<noteq> ActualFailed)\<rparr>"

lemma runtime_simps [simp]:
  "gr_ClusterGroup (runtime mg p des man act) = ''g''" "gr_ManagementGroup (runtime mg p des man act) = mg"
  "gr_Priority (runtime mg p des man act) = p" "gr_Desired (runtime mg p des man act) = des"
  "gr_Managed (runtime mg p des man act) = man" "gr_Actual (runtime mg p des man act) = act"
  "gr_Available (runtime mg p des man act) \<longleftrightarrow> act \<noteq> ActualFailed"
  by (simp_all add: runtime_def)

text \<open>Two groups \<open>x\<close> and \<open>y\<close>: their stored desired states and priorities.\<close>

definition pair_items :: "DesiredState \<Rightarrow> bool \<Rightarrow> DesiredState \<Rightarrow> bool \<Rightarrow> (entity \<times> bytes) list" where
  "pair_items dx mx dy my =
     [(EDesired ''g'' ''x'', desired_json dx mx), (EDesired ''g'' ''y'', desired_json dy my),
      (EGroupConfig ''g'' ''x'', priority_json 1), (EGroupConfig ''g'' ''y'', priority_json 2)]"


text \<open>The store and the service hold under a key of the scheme what the items say.\<close>

lemma map_of_entity_keys:
  assumes "\<forall>(e, b) \<in> set items. entity_strict e" and "entity_strict e" and "id_ok c"
  shows "map_of (map (\<lambda>(e, b). (entity_key c e, b)) items) (entity_key c e) = map_of items e"
  using assms(1) by (induction items)
    (auto simp: entity_key_inject [OF assms(3) entity_strict_ok entity_strict_ok] assms(2) simp del: entity_key.simps)

lemma id_ok_c [simp]: "id_ok ''c''"
  by (simp add: id_ok_def)

lemma Get_example:
  assumes "\<forall>(e, b) \<in> set items. entity_strict e" and "distinct (map fst items)" and "entity_strict e"
  shows "Get (example_store items) (entity_key ''c'' e) = map_option normalizeJSON (map_of items e)"
proof -
  let ?kvs = "map (\<lambda>(e, b). (entity_key ''c'' e, b)) items"
  have inj: "inj_on (entity_key ''c'') (set (map fst items))"
    using assms(1) entity_key_inject [OF id_ok_c entity_strict_ok entity_strict_ok] by (fastforce intro!: inj_onI)
  have fst: "map fst ?kvs = map (entity_key ''c'') (map fst items)" by (induction items) auto
  have "distinct (map fst ?kvs)" unfolding fst distinct_map [of "entity_key ''c''"] using inj assms(2) by blast
  moreover have "\<forall>k \<in> set (map fst ?kvs). k \<in> entity_keys ''c''"
    using assms(1) by (auto simp del: entity_key.simps intro!: entity_keysI)
  ultimately have "cache.tracks (entity_keys ''c'') (map_of ?kvs) (example_store items)"
    unfolding example_store_def by (intro tracks_LoadSnapshot entity_keys_separated) simp_all
  then show ?thesis
    using map_of_entity_keys [OF assms(1,3), of "''c''"] assms(3) by (simp add: cache.tracks_def entity_keysI)
qed

lemma service_example:
  assumes "\<forall>(e, b) \<in> set items. entity_strict e" and "entity_strict e"
  shows "map_of (fst (service_state (example_world items))) (entity_key ''c'' e) = map_of items e"
  using map_of_entity_keys [OF assms, of "''c''"] by (simp add: example_world_def)

lemma id_ok_names [simp]: "id_ok ''g''" "id_ok ''x''" "id_ok ''y''" "id_ok ''n''" "id_ok ''app''"
  by (simp_all add: id_ok_def)

lemma pair_items_strict: "\<forall>(e, b) \<in> set (pair_items dx mx dy my). entity_strict e"
  by (simp add: pair_items_def entity_ok_defs)

lemma pair_items_distinct: "distinct (map fst (pair_items dx mx dy my))"
  by (simp add: pair_items_def)

lemmas pair_Get = Get_example [OF pair_items_strict pair_items_distinct]
lemmas pair_service = service_example [OF pair_items_strict]


lemma pair_desired:
  "Get (example_store (pair_items dx mx dy my)) (Desired ''c'' ''g'' ''x'') = Some (desired_json dx mx)"
  "Get (example_store (pair_items dx mx dy my)) (Desired ''c'' ''g'' ''y'') = Some (desired_json dy my)"
  "map_of (fst (service_state (example_world (pair_items dx mx dy my)))) (Desired ''c'' ''g'' ''x'')
     = Some (desired_json dx mx)"
  "map_of (fst (service_state (example_world (pair_items dx mx dy my)))) (Desired ''c'' ''g'' ''y'')
     = Some (desired_json dy my)"
  using pair_Get [of "EDesired ''g'' ''x''" dx mx dy my] pair_Get [of "EDesired ''g'' ''y''" dx mx dy my]
    pair_service [of "EDesired ''g'' ''x''" dx mx dy my] pair_service [of "EDesired ''g'' ''y''" dx mx dy my]
  by (simp_all add: pair_items_def desired_json_def entity_ok_defs)

lemma pair_config:
  "Get (example_store (pair_items dx mx dy my)) (ManagementGroupConfig ''c'' ''g'' ''x'') = Some (priority_json 1)"
  "Get (example_store (pair_items dx mx dy my)) (ManagementGroupConfig ''c'' ''g'' ''y'') = Some (priority_json 2)"
  "map_of (fst (service_state (example_world (pair_items dx mx dy my)))) (ManagementGroupConfig ''c'' ''g'' ''x'')
     = Some (priority_json 1)"
  "map_of (fst (service_state (example_world (pair_items dx mx dy my)))) (ManagementGroupConfig ''c'' ''g'' ''y'')
     = Some (priority_json 2)"
  using pair_Get [of "EGroupConfig ''g'' ''x''" dx mx dy my] pair_Get [of "EGroupConfig ''g'' ''y''" dx mx dy my]
    pair_service [of "EGroupConfig ''g'' ''x''" dx mx dy my] pair_service [of "EGroupConfig ''g'' ''y''" dx mx dy my]
  by (simp_all add: pair_items_def priority_json_def entity_ok_defs)

lemma unmarshal_desired_json [simp]:
  "unmarshal_desired (desired_json s m)
     = Some \<lparr>d_State = s, d_Managed = m, d_UpdatedAt = zero_time, d_Details = []\<rparr>"
  by (simp add: desired_json_def unmarshal_desired_def read_defs same_field_def lower_def)

lemma unmarshal_priority_json [simp]:
  "int64 p \<Longrightarrow> unmarshal_mgconfig (priority_json p) = Some \<lparr>mgc_Priority = p, mgc_Roles = [], mgc_UpdatedAt = zero_time\<rparr>"
  by (simp add: priority_json_def unmarshal_mgconfig_def read_defs same_field_def lower_def)


lemma example_clock_ok: "time_ok (clock (example_world items) k)"
  by (simp add: example_world_def time_ok_def zero_time_def end_time_def ns_per_day_def ns_per_s_def)

lemma example_mode [simp]: "FailoverMode (Cluster (example_cfg mode)) = mode"
  by (simp add: example_cfg_def)

end
