(* ===== verification/Aggregation.thy ===== *)
theory Aggregation
  imports Example
begin

text \<open>
  What \<^verbatim>\<open>reconcileManagementGroup\<close> makes of the role documents of a group: the loop over a Go
  map, in whatever order, computes a function of the set of decoded documents; a registered
  role without documents makes a managed group failed; nothing is written when the stored
  documents already say the same.
\<close>

section \<open>The verdict on a set of role documents\<close>

text \<open>The documents the loop decodes, as a set.\<close>

definition role_docs :: "string \<Rightarrow> (string \<times> bytes) list \<Rightarrow> ActualDocument set" where
  "role_docs groupKey items =
     {doc. \<exists>key raw. (key, raw) \<in> set items \<and> has_suffix ''/actual'' key \<and> key \<noteq> groupKey
        \<and> unmarshal_actual raw = Some doc}"

definition has_state :: "ActualDocument set \<Rightarrow> ActualState \<Rightarrow> bool" where
  "has_state D s \<longleftrightarrow> (\<exists>d \<in> D. a_State d = s)"

text \<open>Some role started after every role that is stopping began to stop.\<close>

definition starting_last :: "ActualDocument set \<Rightarrow> bool" where
  "starting_last D \<longleftrightarrow> (\<exists>d \<in> D. a_State d = ActualStarting \<and> zero_time < a_UpdatedAt d
     \<and> (\<forall>e \<in> D. a_State e = ActualStopping \<longrightarrow> a_UpdatedAt e < a_UpdatedAt d))"

definition group_verdict :: "ActualDocument set \<Rightarrow> ActualState \<times> HealthStatus \<times> string" where
  "group_verdict D =
     (if has_state D ActualFailed then (ActualFailed, HealthFailed, ''one or more roles are failed'')
      else if has_state D ActualStarting \<and> (\<not> has_state D ActualStopping \<or> starting_last D)
      then (ActualStarting, HealthWarning, ''one or more roles are starting'')
      else if has_state D ActualStopping
      then (ActualStopping, HealthWarning, ''one or more roles are stopping'')
      else if has_state D ActualActive \<and> has_state D ActualPassive
      then (ActualFailed, HealthFailed, ''mixed active and passive roles'')
      else if has_state D ActualActive then (ActualActive, HealthOK, [])
      else (ActualPassive, HealthOK, []))"

definition agg_result :: "agg \<Rightarrow> ActualState \<times> HealthStatus \<times> string" where
  "agg_result a = (actualState a, healthStatus a, details a)"

text \<open>What the accumulator knows of the documents seen so far, none of them failed.\<close>

definition agg_sees :: "agg \<Rightarrow> ActualDocument set \<Rightarrow> bool" where
  "agg_sees a D \<longleftrightarrow> agg_result a = (ActualPassive, HealthOK, []) \<and> \<not> has_state D ActualFailed
     \<and> (seenRoles a \<longleftrightarrow> D \<noteq> {})
     \<and> (seenActive a \<longleftrightarrow> has_state D ActualActive) \<and> (seenPassive a \<longleftrightarrow> has_state D ActualPassive)
     \<and> (seenStarting a \<longleftrightarrow> has_state D ActualStarting) \<and> (seenStopping a \<longleftrightarrow> has_state D ActualStopping)
     \<and> (\<forall>t. t < latestStartingAt a \<longleftrightarrow> t < zero_time \<or> (\<exists>d \<in> D. a_State d = ActualStarting \<and> t < a_UpdatedAt d))
     \<and> (\<forall>t. t < latestStoppingAt a \<longleftrightarrow> t < zero_time \<or> (\<exists>d \<in> D. a_State d = ActualStopping \<and> t < a_UpdatedAt d))"

lemma has_state_simps [simp]:
  "\<not> has_state {} s" "has_state (insert d D) s \<longleftrightarrow> a_State d = s \<or> has_state D s"
  "has_state (D \<union> E) s \<longleftrightarrow> has_state D s \<or> has_state E s"
  by (auto simp: has_state_def)

lemma agg_sees_init: "agg_sees agg_init {}"
  by (simp add: agg_sees_def agg_init_def agg_result_def)

lemma agg_doc_failed:
  "a_State d = ActualFailed \<Longrightarrow> agg_result (agg_doc d a) = (ActualFailed, HealthFailed, ''one or more roles are failed'')"
  by (simp add: agg_doc_def agg_result_def)

lemma agg_doc_sees:
  assumes "agg_sees a D" and "a_State d \<noteq> ActualFailed"
  shows "agg_sees (agg_doc d a) (insert d D)"
proof -
  have *: "a_State d = ''active'' \<or> a_State d = ''passive'' \<or> a_State d = ''starting'' \<or> a_State d = ''stopping''
     \<or> a_State d \<notin> {''active'', ''passive'', ''starting'', ''stopping''}" by blast
  show ?thesis
    using assms *
    by (elim disjE) (simp_all add: agg_sees_def agg_doc_def agg_result_def less_max_iff_disj disj_ac)
qed

lemma role_docs_Nil [simp]: "role_docs k [] = {}"
  by (simp add: role_docs_def)

lemma role_docs_Cons:
  "role_docs k ((key, raw) # items) =
     (if has_suffix ''/actual'' key \<and> key \<noteq> k
      then (case unmarshal_actual raw of None \<Rightarrow> {} | Some d \<Rightarrow> {d}) else {}) \<union> role_docs k items"
  by (auto simp: role_docs_def split: option.splits)

lemma scan_roles_sees:
  assumes "agg_sees a D"
  shows "if has_state (role_docs k items) ActualFailed
    then agg_result (scan_roles k items a) = (ActualFailed, HealthFailed, ''one or more roles are failed'')
    else agg_sees (scan_roles k items a) (D \<union> role_docs k items)"
  using assms
proof (induction items arbitrary: a D)
  case Nil
  then show ?case by simp
next
  case (Cons i items)
  obtain key raw where i: "i = (key, raw)" by (cases i)
  show ?case
  proof (cases "has_suffix ''/actual'' key \<and> key \<noteq> k \<and> unmarshal_actual raw \<noteq> None")
    case False
    then have "scan_roles k (i # items) a = scan_roles k items a" "role_docs k (i # items) = role_docs k items"
      by (auto simp: i role_docs_Cons split: option.splits)
    then show ?thesis using Cons by simp
  next
    case True
    then obtain d where d: "unmarshal_actual raw = Some d" by auto
    have docs: "role_docs k (i # items) = insert d (role_docs k items)"
      using True d by (simp add: i role_docs_Cons)
    show ?thesis
    proof (cases "a_State d = ActualFailed")
      case failed: True
      then have "scan_roles k (i # items) a = agg_doc d a"
        using True d by (simp add: i agg_doc_def)
      then show ?thesis using failed docs agg_doc_failed by simp
    next
      case ok: False
      have sees: "agg_sees (agg_doc d a) (insert d D)" by (rule agg_doc_sees) (use ok Cons.prems in auto)
      then have "scan_roles k (i # items) a = scan_roles k items (agg_doc d a)"
        using True d by (simp add: i agg_sees_def agg_result_def)
      moreover have "D \<union> role_docs k (i # items) = insert d D \<union> role_docs k items"
        using docs by auto
      ultimately show ?thesis
        using Cons.IH [OF sees] ok docs by (cases "has_state (role_docs k items) ActualFailed") simp_all
    qed
  qed
qed

lemma starting_after_stopping:
  assumes "agg_sees a D" and "seenStopping a"
  shows "latestStoppingAt a < latestStartingAt a \<longleftrightarrow> starting_last D"
proof -
  have start: "t < latestStartingAt a \<longleftrightarrow> t < zero_time \<or> (\<exists>d \<in> D. a_State d = ActualStarting \<and> t < a_UpdatedAt d)"
    and stop: "t < latestStoppingAt a \<longleftrightarrow> t < zero_time \<or> (\<exists>d \<in> D. a_State d = ActualStopping \<and> t < a_UpdatedAt d)"
    for t
    using assms(1) by (auto simp: agg_sees_def)
  have "\<not> latestStoppingAt a < zero_time" using stop [of "latestStoppingAt a"] by auto
  then have "latestStoppingAt a < latestStartingAt a \<longleftrightarrow>
      (\<exists>d \<in> D. a_State d = ActualStarting \<and> latestStoppingAt a < a_UpdatedAt d)"
    using start by blast
  also have "\<dots> \<longleftrightarrow> starting_last D"
  proof -
    have "latestStoppingAt a < u \<longleftrightarrow> zero_time < u \<and>
        (\<forall>e \<in> D. a_State e = ActualStopping \<longrightarrow> a_UpdatedAt e < u)" for u
    proof -
      have "latestStoppingAt a < u \<longleftrightarrow> \<not> u - 1 < latestStoppingAt a" by linarith
      also have "\<dots> \<longleftrightarrow> zero_time < u \<and> (\<forall>e \<in> D. a_State e = ActualStopping \<longrightarrow> a_UpdatedAt e < u)"
        using stop [of "u - 1"] by force
      finally show ?thesis .
    qed
    then show ?thesis by (auto simp: starting_last_def)
  qed
  finally show ?thesis .
qed

lemma agg_decide_verdict:
  assumes "agg_sees a D"
  shows "agg_result (agg_decide a) = group_verdict D"
proof -
  note start = starting_after_stopping [OF assms]
  show ?thesis
    using assms start
    by (cases "seenStarting a"; cases "seenStopping a"; cases "seenActive a"; cases "seenPassive a"; cases "D = {}")
     (simp_all add: agg_sees_def agg_decide_def agg_result_def group_verdict_def)
qed

lemma aggregate_result:
  "agg_result (aggregate k items missing) =
     (if missing \<noteq> [] then (ActualFailed, HealthFailed, ''agent lost'')
      else group_verdict (role_docs k items))"
proof (cases "missing = []")
  case False
  then show ?thesis by (simp add: aggregate_def agg_result_def)
next
  case True
  note scan = scan_roles_sees [OF agg_sees_init, of k items]
  show ?thesis
  proof (cases "has_state (role_docs k items) ActualFailed")
    case failed: True
    then show ?thesis
      using scan True by (simp add: aggregate_def agg_result_def agg_init_def group_verdict_def)
  next
    case ok: False
    with scan have s: "agg_sees (scan_roles k items agg_init) (role_docs k items)" by simp
    then have "actualState (scan_roles k items agg_init) = ActualPassive"
      by (simp add: agg_sees_def agg_result_def)
    then have "aggregate k items missing = agg_decide (scan_roles k items agg_init)"
      using True by (simp add: aggregate_def) (simp add: agg_init_def)
    then show ?thesis using agg_decide_verdict [OF s] True by simp
  qed
qed

text \<open>
  C8: the state of a group does not depend on the order in which the Go map is iterated, nor on
  where the loop is left. The accumulator ends in the declarative verdict on the set of
  decoded role documents: failed if one is failed; else starting or stopping, whichever
  happened last; else failed if active and passive roles are mixed; else active or passive. A
  missing role overrides all of it.
\<close>

theorem aggregate_verdict:
  "agg_result (aggregate k items missing) =
     (if missing \<noteq> [] then (ActualFailed, HealthFailed, ''agent lost'')
      else group_verdict (role_docs k items))"
  by (rule aggregate_result)

section \<open>Which documents are the roles of a group\<close>

text \<open>The actual documents strictly below a group, at any depth.\<close>

definition group_docs :: "StateStore \<Rightarrow> string \<Rightarrow> string \<Rightarrow> string \<Rightarrow> ActualDocument set" where
  "group_docs st c cg mg =
     {doc. \<exists>q raw. q \<noteq> [] \<and> (\<forall>s \<in> set q. seg_ok s)
        \<and> Get st (abs_path ([c, ''cluster'', cg, mg] @ q @ [''actual''])) = Some raw
        \<and> unmarshal_actual raw = Some doc}"

lemma last_segment: "slash \<notin> set y \<Longrightarrow> takeWhile (\<lambda>c. c \<noteq> slash) (rev (p @ slash # y)) = rev y"
  by (auto simp: takeWhile_append)

lemma suffix_segment:
  assumes "slash \<notin> set y" and "slash \<notin> set z"
  shows "has_suffix (slash # z) (p @ slash # y) \<longleftrightarrow> y = z"
proof
  assume "has_suffix (slash # z) (p @ slash # y)"
  then obtain r where "p @ slash # y = r @ slash # z" by (auto simp: has_suffix_iff)
  then have "rev y = rev z" using last_segment [OF assms(1), of p] last_segment [OF assms(2), of r] by simp
  then show "y = z" by simp
qed (auto simp: has_suffix_iff)

lemma role_docs_group:
  assumes "store_ok st" and "id_ok c" and "id_ok cg" and "id_ok mg" and "mg \<noteq> ''actual''"
  shows "role_docs (Actual c cg mg) (Prefix st (ManagementGroup c cg mg)) = group_docs st c cg mg"
proof -
  let ?ss = "[c, ''cluster'', cg, mg]"
  have ss: "\<forall>s \<in> set ?ss. seg_ok s" "?ss \<noteq> []" using assms by (auto intro: id_seg_ok)
  have paths: "ManagementGroup c cg mg = abs_path ?ss" "Actual c cg mg = abs_path (?ss @ [''actual''])"
    using assms by (simp_all add: key_simps)
  have suf: "(has_suffix ''/actual'' (abs_path (?ss @ q)) \<and> abs_path (?ss @ q) \<noteq> Actual c cg mg)
      \<longleftrightarrow> (\<exists>q'. q = q' @ [''actual''] \<and> q' \<noteq> [])" if q: "\<forall>s \<in> set q. seg_ok s" for q
  proof -
    obtain xs y where xy: "?ss @ q = xs @ [y]" by (metis append_butlast_last_id append_is_Nil_conv ss(2))
    then have xs: "xs \<noteq> []" by (auto simp: Cons_eq_append_conv)
    have "\<forall>s \<in> set (?ss @ q). seg_ok s" using ss q by auto
    then have "seg_ok y" unfolding xy by simp
    then have "has_suffix ''/actual'' (abs_path (?ss @ q)) \<longleftrightarrow> y = ''actual''"
      unfolding xy(1) abs_path_snoc [OF xs] by (intro suffix_segment) (auto simp: seg_ok_def)
    moreover have "abs_path (?ss @ q) = Actual c cg mg \<longleftrightarrow> q = [''actual'']"
    proof
      assume "abs_path (?ss @ q) = Actual c cg mg"
      then have "?ss @ q = ?ss @ [''actual'']"
        unfolding paths by (intro abs_path_inject) (use ss q in auto)
      then show "q = [''actual'']" by simp
    qed (simp add: paths)
    moreover have "y = ''actual'' \<longleftrightarrow> (\<exists>q'. q = q' @ [''actual''])"
      using xy assms(5) by (cases q rule: rev_cases) (auto simp: Cons_eq_append_conv)
    ultimately have "?thesis \<longleftrightarrow> ((\<exists>q'. q = q' @ [''actual'']) \<and> q \<noteq> [''actual''] \<longleftrightarrow> (\<exists>q'. q = q' @ [''actual''] \<and> q' \<noteq> []))"
      by (simp only:)
    then show ?thesis by auto
  qed
  have docs: "doc \<in> role_docs (Actual c cg mg) (Prefix st (ManagementGroup c cg mg)) \<longleftrightarrow>
      (\<exists>q raw. (\<forall>s \<in> set q. seg_ok s) \<and> (has_suffix ''/actual'' (abs_path (?ss @ q))
        \<and> abs_path (?ss @ q) \<noteq> Actual c cg mg) \<and> Get st (abs_path (?ss @ q)) = Some raw
        \<and> unmarshal_actual raw = Some doc)" for doc
    unfolding role_docs_def mem_Collect_eq paths(1) set_Prefix [OF assms(1) ss] by blast
  have "doc \<in> role_docs (Actual c cg mg) (Prefix st (ManagementGroup c cg mg)) \<longleftrightarrow>
      (\<exists>q' raw. (\<forall>s \<in> set (q' @ [''actual'']). seg_ok s) \<and> q' \<noteq> []
        \<and> Get st (abs_path (?ss @ q' @ [''actual''])) = Some raw \<and> unmarshal_actual raw = Some doc)" for doc
    unfolding docs using suf by blast
  then show ?thesis unfolding group_docs_def set_eq_iff by simp blast
qed

section \<open>Lost agents\<close>

text \<open>
  A role of the group that some node has registered has no document: its agent's session is
  gone with the keys bound to its lease.
\<close>

definition registers :: "StateStore \<Rightarrow> string \<Rightarrow> string \<Rightarrow> string \<Rightarrow> string \<Rightarrow> string \<Rightarrow> bool" where
  "registers st c cg mg node role \<longleftrightarrow>
     (\<exists>n raw reg m. seg_ok n \<and> Get st (RegistryRoot c @ slash # n) = Some raw
        \<and> unmarshal_registration raw = Some reg \<and> node = (if reg_NodeID reg = [] then n else reg_NodeID reg)
        \<and> m \<in> set (reg_Memberships reg) \<and> m_ClusterGroup m = cg \<and> m_ManagementGroup m = mg
        \<and> role \<in> set (m_Roles m))"

definition agent_lost :: "StateStore \<Rightarrow> string \<Rightarrow> string \<Rightarrow> string \<Rightarrow> bool" where
  "agent_lost st c cg mg \<longleftrightarrow>
     (\<exists>node role. registers st c cg mg node role \<and>
        (Get st (RoleActual c cg mg node role) = None \<or> Get st (RoleHealth c cg mg node role) = None))"

lemma registry_names:
  assumes "store_ok st" and "id_ok c"
  shows "(\<exists>key. (key, raw) \<in> set (Prefix st (RegistryRoot c)) \<and> name = trim_prefix (RegistryRoot c @ ''/'') key
      \<and> slash \<notin> set name) \<longleftrightarrow> seg_ok name \<and> Get st (RegistryRoot c @ slash # name) = Some raw"
proof -
  let ?ss = "[c, ''cluster'', ''registry'']"
  have ss: "\<forall>s \<in> set ?ss. seg_ok s" "?ss \<noteq> []" using assms by (auto intro: id_seg_ok)
  have root: "RegistryRoot c = abs_path ?ss" using assms by (simp add: key_simps)
  have key: "trim_prefix (RegistryRoot c @ ''/'') (abs_path (?ss @ q)) = name \<and> slash \<notin> set name
      \<longleftrightarrow> q = [name]" if q: "\<forall>s \<in> set q. seg_ok s" for q
  proof (cases q)
    case Nil
    have "\<not> has_prefix (abs_path ?ss @ ''/'') (abs_path ?ss)" by (auto simp: has_prefix_iff)
    then show ?thesis using Nil by (auto simp: root trim_prefix_def abs_path_def)
  next
    case (Cons x xs)
    have "abs_path (?ss @ q) = (abs_path ?ss @ ''/'') @ join [slash] q"
      using Cons by (simp add: abs_path_def join_append [of ?ss q])
    then have "trim_prefix (RegistryRoot c @ ''/'') (abs_path (?ss @ q)) = join [slash] q"
      unfolding root by (metis trim_prefix_append)
    moreover have "slash \<in> set (join [slash] q) \<longleftrightarrow> xs \<noteq> []"
      using q Cons by (cases xs) (auto simp: seg_ok_def)
    ultimately show ?thesis using Cons by (cases xs) auto
  qed
  have last: "abs_path (?ss @ [name]) = RegistryRoot c @ slash # name"
    unfolding root by (rule abs_path_snoc) simp
  have "(\<exists>key. (key, raw) \<in> set (Prefix st (RegistryRoot c)) \<and> name = trim_prefix (RegistryRoot c @ ''/'') key
      \<and> slash \<notin> set name) \<longleftrightarrow> (\<exists>q. (\<forall>s \<in> set q. seg_ok s)
        \<and> (trim_prefix (RegistryRoot c @ ''/'') (abs_path (?ss @ q)) = name \<and> slash \<notin> set name)
        \<and> Get st (abs_path (?ss @ q)) = Some raw)"
    unfolding root set_Prefix [OF assms(1) ss] by blast
  also have "\<dots> \<longleftrightarrow> (\<exists>q. (\<forall>s \<in> set q. seg_ok s) \<and> q = [name] \<and> Get st (abs_path (?ss @ q)) = Some raw)"
    by (rule ex_cong1) (use key in blast)
  also have "\<dots> \<longleftrightarrow> seg_ok name \<and> Get st (abs_path (?ss @ [name])) = Some raw" by auto
  finally show ?thesis unfolding last .
qed

lemma expected_role_registered:
  assumes "store_ok st" and "id_ok (cluster_id cfg)"
  shows "x \<in> set (expectedRoleStates cfg st cg mg) \<longleftrightarrow>
    registers st (cluster_id cfg) cg mg (ex_NodeID x) (ex_Role x)"
proof -
  have "x \<in> set (registered_roles cg mg name reg) \<longleftrightarrow>
      ex_NodeID x = (if reg_NodeID reg = [] then name else reg_NodeID reg) \<and>
      (\<exists>m \<in> set (reg_Memberships reg). m_ClusterGroup m = cg \<and> m_ManagementGroup m = mg
        \<and> ex_Role x \<in> set (m_Roles m))" for name reg
    by (cases x) (auto simp: registered_roles_def Let_def)
  moreover have "x \<in> set (expectedRoleStates cfg st cg mg) \<longleftrightarrow>
      (\<exists>key raw reg. (key, raw) \<in> set (Prefix st (RegistryRoot (cluster_id cfg)))
        \<and> slash \<notin> set (trim_prefix (RegistryRoot (cluster_id cfg) @ ''/'') key)
        \<and> unmarshal_registration raw = Some reg
        \<and> x \<in> set (registered_roles cg mg (trim_prefix (RegistryRoot (cluster_id cfg) @ ''/'') key) reg))"
    unfolding expectedRoleStates_def Let_def in_concat_pairs by (intro ex_cong1) (force split: option.splits)
  ultimately have "x \<in> set (expectedRoleStates cfg st cg mg) \<longleftrightarrow>
      (\<exists>name raw reg. (\<exists>key. (key, raw) \<in> set (Prefix st (RegistryRoot (cluster_id cfg)))
          \<and> name = trim_prefix (RegistryRoot (cluster_id cfg) @ ''/'') key \<and> slash \<notin> set name)
        \<and> unmarshal_registration raw = Some reg
        \<and> ex_NodeID x = (if reg_NodeID reg = [] then name else reg_NodeID reg)
        \<and> (\<exists>m \<in> set (reg_Memberships reg). m_ClusterGroup m = cg \<and> m_ManagementGroup m = mg
          \<and> ex_Role x \<in> set (m_Roles m)))"
    by blast
  then show ?thesis unfolding registry_names [OF assms] registers_def by blast
qed

lemma missing_key_iff:
  "missing_key cfg st cg mg x \<noteq> [] \<longleftrightarrow>
     Get st (RoleActual (cluster_id cfg) cg mg (ex_NodeID x) (ex_Role x)) = None
     \<or> Get st (RoleHealth (cluster_id cfg) cg mg (ex_NodeID x) (ex_Role x)) = None"
  by (auto simp: missing_key_def)

lemma expectedRoleState_ex: "(\<exists>x :: expectedRoleState. P (ex_NodeID x) (ex_Role x)) \<longleftrightarrow> (\<exists>n r. P n r)"
  by (metis expectedRoleState.select_convs(1,2))

lemma missing_agent_lost:
  assumes "store_ok st" and "id_ok (cluster_id cfg)"
  shows "missingExpectedRoleStates cfg st cg mg \<noteq> [] \<longleftrightarrow> agent_lost st (cluster_id cfg) cg mg"
proof -
  have "missingExpectedRoleStates cfg st cg mg \<noteq> [] \<longleftrightarrow>
      (\<exists>x \<in> set (expectedRoleStates cfg st cg mg). missing_key cfg st cg mg x \<noteq> [])"
  proof -
    have "sort xs = [] \<longleftrightarrow> xs = []" for xs :: "string list" by (metis set_empty set_sort)
    then show ?thesis by (simp add: missingExpectedRoleStates_def)
  qed
  also have "\<dots> \<longleftrightarrow> (\<exists>x :: expectedRoleState. registers st (cluster_id cfg) cg mg (ex_NodeID x) (ex_Role x) \<and>
      (Get st (RoleActual (cluster_id cfg) cg mg (ex_NodeID x) (ex_Role x)) = None
       \<or> Get st (RoleHealth (cluster_id cfg) cg mg (ex_NodeID x) (ex_Role x)) = None))"
    unfolding Bex_def expected_role_registered [OF assms] missing_key_iff by (rule refl)
  also have "\<dots> \<longleftrightarrow> agent_lost st (cluster_id cfg) cg mg"
    unfolding agent_lost_def by (rule expectedRoleState_ex)
  finally show ?thesis .
qed

section \<open>One management group\<close>

text \<open>What a cycle should say of a group, from the store alone.\<close>

definition group_status :: "Config \<Rightarrow> StateStore \<Rightarrow> string \<Rightarrow> string \<Rightarrow> ActualState \<times> HealthStatus \<times> string" where
  "group_status cfg st cg mg =
     (if snd (readDesired cfg st cg mg) \<and> agent_lost st (cluster_id cfg) cg mg
      then (ActualFailed, HealthFailed, ''agent lost'')
      else group_verdict (group_docs st (cluster_id cfg) cg mg))"

lemma group_verdict_failed:
  "fst (group_verdict D) = ActualFailed \<longleftrightarrow> fst (snd (group_verdict D)) = HealthFailed"
  by (simp add: group_verdict_def)

lemma group_status_failed:
  "fst (group_status cfg st cg mg) = ActualFailed \<longleftrightarrow> fst (snd (group_status cfg st cg mg)) = HealthFailed"
  using group_verdict_failed by (simp add: group_status_def)

text \<open>The stored document already says so.\<close>

definition actual_agrees :: "StateStore \<Rightarrow> string \<Rightarrow> ActualState \<Rightarrow> string \<Rightarrow> bool" where
  "actual_agrees st key s det \<longleftrightarrow>
     (\<exists>d. Option.bind (Get st key) unmarshal_actual = Some d \<and> a_State d = s \<and> a_Details d = det)"

definition health_agrees :: "StateStore \<Rightarrow> string \<Rightarrow> HealthStatus \<Rightarrow> string \<Rightarrow> bool" where
  "health_agrees st key s det \<longleftrightarrow>
     (\<exists>d. Option.bind (Get st key) unmarshal_health = Some d \<and> h_Status d = s \<and> h_Details d = det)"

text \<open>The comparison of the bytes never decides.\<close>

lemma build_tree_compare_dead:
  "buildActualIfChanged st key s det t =
     (if actual_agrees st key s det then Inr None
      else (case marshal_actual \<lparr>a_State = s, a_UpdatedAt = t, a_Details = det\<rparr> of
              None \<Rightarrow> Inl time_error | Some b \<Rightarrow> Inr (Some b)))"
  "buildHealthIfChanged st key h det t =
     (if health_agrees st key h det then Inr None
      else (case marshal_health \<lparr>h_Status = h, h_UpdatedAt = t, h_Details = det\<rparr> of
              None \<Rightarrow> Inl time_error | Some b \<Rightarrow> Inr (Some b)))"
  using actual.roundtrip [of "\<lparr>a_State = s, a_UpdatedAt = t, a_Details = det\<rparr>"]
    health.roundtrip [of "\<lparr>h_Status = h, h_UpdatedAt = t, h_Details = det\<rparr>"]
  by (auto simp: buildActualIfChanged_def buildHealthIfChanged_def actual_agrees_def health_agrees_def Let_def
      split: option.splits)

lemma put_if_sent:
  "put_if svc key data w = (r, w') \<Longrightarrow>
     sent w' = sent w @ (case data of None \<Rightarrow> [] | Some b \<Rightarrow> [ReqPut key b 0])"
  by (auto simp: put_if_def dest: Put_sent split: option.splits)

lemma reconcileManagementGroup_cases:
  assumes "reconcileManagementGroup cfg svc st cg mg (c, w) = (Inr g, c', w')"
  obtains a ad hd w1 where
    "a = aggregate (Actual (cluster_id cfg) cg mg) (Prefix st (ManagementGroup (cluster_id cfg) cg mg))
       (if snd (readDesired cfg st cg mg) then missingExpectedRoleStates cfg st cg mg else [])"
    "buildActualIfChanged st (Actual (cluster_id cfg) cg mg) (actualState a) (details a) (clock w (ticks w)) = Inr ad"
    "buildHealthIfChanged st (Health (cluster_id cfg) cg mg) (healthStatus a) (details a) (clock w (ticks w)) = Inr hd"
    "put_if svc (Actual (cluster_id cfg) cg mg) ad (snd (now w)) = (None, w1)"
    "put_if svc (Health (cluster_id cfg) cg mg) hd w1 = (None, w')"
    "g = \<lparr>gr_ClusterGroup = cg, gr_ManagementGroup = mg, gr_Priority = readPriority cfg st cg mg,
          gr_Desired = fst (readDesired cfg st cg mg), gr_Managed = snd (readDesired cfg st cg mg),
          gr_Actual = actualState a, gr_Health = healthStatus a,
          gr_Available = (healthStatus a \<noteq> HealthFailed \<and> actualState a \<noteq> ActualFailed)\<rparr>"
  using assms unfolding reconcileManagementGroup_def Let_def
  by (auto simp: now_def split: prod.splits sum.splits option.splits if_splits)

lemma agg_result_group_status:
  assumes "store_ok st" and "id_ok (cluster_id cfg)" and "id_ok cg" and "id_ok mg" and "mg \<noteq> ''actual''"
  shows "agg_result (aggregate (Actual (cluster_id cfg) cg mg) (Prefix st (ManagementGroup (cluster_id cfg) cg mg))
       (if snd (readDesired cfg st cg mg) then missingExpectedRoleStates cfg st cg mg else []))
     = group_status cfg st cg mg"
  using missing_agent_lost [OF assms(1,2), of cg mg]
  by (simp add: aggregate_result group_status_def role_docs_group [OF assms])

text \<open>The requests a cycle makes for a document: none, or one that reads back as it should.\<close>

definition actual_written :: "StateStore \<Rightarrow> string \<Rightarrow> ActualState \<Rightarrow> string \<Rightarrow> request list \<Rightarrow> bool" where
  "actual_written st key s det rs \<longleftrightarrow>
     (if actual_agrees st key s det then rs = []
      else \<exists>b d. rs = [ReqPut key b 0] \<and> unmarshal_actual b = Some d \<and> a_State d = s \<and> a_Details d = det)"

definition health_written :: "StateStore \<Rightarrow> string \<Rightarrow> HealthStatus \<Rightarrow> string \<Rightarrow> request list \<Rightarrow> bool" where
  "health_written st key s det rs \<longleftrightarrow>
     (if health_agrees st key s det then rs = []
      else \<exists>b d. rs = [ReqPut key b 0] \<and> unmarshal_health b = Some d \<and> h_Status d = s \<and> h_Details d = det)"

lemma put_written:
  assumes "put_if svc key data w = (r, w')"
  shows "buildActualIfChanged st key s det t = Inr data \<Longrightarrow> \<exists>rs. sent w' = sent w @ rs \<and> actual_written st key s det rs"
    and "buildHealthIfChanged st key s det t = Inr data \<Longrightarrow> \<exists>rs. sent w' = sent w @ rs \<and> health_written st key s det rs"
  using put_if_sent [OF assms] actual.roundtrip [of "\<lparr>a_State = s, a_UpdatedAt = t, a_Details = det\<rparr>"]
    health.roundtrip [of "\<lparr>h_Status = s, h_UpdatedAt = t, h_Details = det\<rparr>"]
  by (auto simp: build_tree_compare_dead actual_written_def health_written_def split: option.splits if_splits)

text \<open>What a cycle that gets through a group hands on and writes.\<close>

lemma reconcileManagementGroup_status:
  assumes "store_ok st" and "id_ok (cluster_id cfg)" and "id_ok cg" and "id_ok mg" and "mg \<noteq> ''actual''"
    and "reconcileManagementGroup cfg svc st cg mg (c, w) = (Inr g, c', w')"
    and "group_status cfg st cg mg = (s, h, det)"
  shows "gr_Actual g = s \<and> gr_Health g = h \<and> (gr_Available g \<longleftrightarrow> s \<noteq> ActualFailed)
    \<and> (gr_Desired g, gr_Managed g) = readDesired cfg st cg mg \<and> gr_Priority g = readPriority cfg st cg mg
    \<and> (\<exists>as hs. sent w' = sent w @ as @ hs \<and> actual_written st (Actual (cluster_id cfg) cg mg) s det as
        \<and> health_written st (Health (cluster_id cfg) cg mg) h det hs)"
proof -
  obtain a ad hd w1 where a: "a = aggregate (Actual (cluster_id cfg) cg mg)
       (Prefix st (ManagementGroup (cluster_id cfg) cg mg))
       (if snd (readDesired cfg st cg mg) then missingExpectedRoleStates cfg st cg mg else [])"
    and ad: "buildActualIfChanged st (Actual (cluster_id cfg) cg mg) (actualState a) (details a) (clock w (ticks w)) = Inr ad"
    and hd: "buildHealthIfChanged st (Health (cluster_id cfg) cg mg) (healthStatus a) (details a) (clock w (ticks w)) = Inr hd"
    and puts: "put_if svc (Actual (cluster_id cfg) cg mg) ad (snd (now w)) = (None, w1)"
      "put_if svc (Health (cluster_id cfg) cg mg) hd w1 = (None, w')"
    and g: "g = \<lparr>gr_ClusterGroup = cg, gr_ManagementGroup = mg, gr_Priority = readPriority cfg st cg mg,
          gr_Desired = fst (readDesired cfg st cg mg), gr_Managed = snd (readDesired cfg st cg mg),
          gr_Actual = actualState a, gr_Health = healthStatus a,
          gr_Available = (healthStatus a \<noteq> HealthFailed \<and> actualState a \<noteq> ActualFailed)\<rparr>"
    using reconcileManagementGroup_cases [OF assms(6)] by metis
  have r: "actualState a = s" "healthStatus a = h" "details a = det"
    using agg_result_group_status [OF assms(1-5)] assms(7) unfolding a [symmetric] agg_result_def by simp_all
  have av: "s = ActualFailed \<longleftrightarrow> h = HealthFailed"
    using group_status_failed [of cfg st cg mg] assms(7) by simp
  obtain as where as: "sent w1 = sent w @ as" "actual_written st (Actual (cluster_id cfg) cg mg) s det as"
    using put_written(1) [OF puts(1) ad] r by auto
  obtain hs where hs: "sent w' = sent w1 @ hs" "health_written st (Health (cluster_id cfg) cg mg) h det hs"
    using put_written(2) [OF puts(2) hd] r by auto
  show ?thesis using as hs av by (auto simp: g r)
qed



end
