(* ===== verification/Policy.thy ===== *)
theory Policy
  imports Example
begin

text \<open>
  The priority policy: which group is the target, what each branch of the policy writes, and
  the safety of the two-phase switchover.
\<close>

section \<open>Writing a desired state\<close>

text \<open>The stored document already is managed with this state.\<close>

definition desired_agrees :: "StateStore \<Rightarrow> string \<Rightarrow> DesiredState \<Rightarrow> bool" where
  "desired_agrees st key s \<longleftrightarrow>
     (\<exists>d. Option.bind (Get st key) unmarshal_desired = Some d \<and> d_State d = s \<and> d_Managed d)"

text \<open>A put of a managed desired state.\<close>

definition puts_desired :: "string \<Rightarrow> string \<Rightarrow> string \<Rightarrow> DesiredState \<Rightarrow> request \<Rightarrow> bool" where
  "puts_desired c cg mg s r \<longleftrightarrow>
     (\<exists>b d. r = ReqPut (Desired c cg mg) b 0 \<and> unmarshal_desired b = Some d
        \<and> d_State d = s \<and> d_Managed d \<and> d_Details d = [])"

lemma writeDesired_cases:
  assumes "writeDesiredIfChanged cfg svc st cg mg s w = (r, w')"
  obtains (same) "desired_agrees st (Desired (cluster_id cfg) cg mg) s" "r = None" "w' = w"
  | (time) "\<not> desired_agrees st (Desired (cluster_id cfg) cg mg) s" "r = Some time_error" "w' = snd (now w)"
  | (put) b where "\<not> desired_agrees st (Desired (cluster_id cfg) cg mg) s"
      "Put svc (Desired (cluster_id cfg) cg mg) b 0 (snd (now w)) = (r, w')"
      "puts_desired (cluster_id cfg) cg mg s (ReqPut (Desired (cluster_id cfg) cg mg) b 0)"
proof -
  let ?k = "Desired (cluster_id cfg) cg mg"
  let ?doc = "\<lparr>d_State = s, d_Managed = True, d_UpdatedAt = clock w (ticks w), d_Details = []\<rparr>"
  have "writeDesiredIfChanged cfg svc st cg mg s w =
      (if desired_agrees st ?k s then (None, w)
       else case marshal_desired ?doc of None \<Rightarrow> (Some time_error, snd (now w))
            | Some b \<Rightarrow> Put svc ?k b 0 (snd (now w)))"
    by (auto simp: writeDesiredIfChanged_def desired_agrees_def Let_def now_def split: option.splits)
  note def = this
  consider "desired_agrees st ?k s" | "\<not> desired_agrees st ?k s" "marshal_desired ?doc = None"
    | b where "\<not> desired_agrees st ?k s" "marshal_desired ?doc = Some b" by fastforce
  then show ?thesis
  proof cases
    case 1
    then show ?thesis using assms def same by simp
  next
    case 2
    then show ?thesis using assms def time by simp
  next
    case 3
    then show ?thesis
      using assms def desired.roundtrip [of ?doc b] put by (simp add: puts_desired_def)
  qed
qed

lemma writeDesired_sent:
  assumes "writeDesiredIfChanged cfg svc st cg mg s w = (r, w')"
  shows "\<exists>rs. sent w' = sent w @ rs \<and> list_all (puts_desired (cluster_id cfg) cg mg s) rs"
    and "r = None \<Longrightarrow> \<exists>rs. sent w' = sent w @ rs \<and> list_all (puts_desired (cluster_id cfg) cg mg s) rs
           \<and> (desired_agrees st (Desired (cluster_id cfg) cg mg) s \<longleftrightarrow> rs = [])"
  using assms by (cases rule: writeDesired_cases; auto dest: Put_sent)+

section \<open>The target\<close>

lemma findTarget_from_spec:
  assumes "findTarget_from r gs = Some t"
  shows "(r = Some t \<or> t \<in> set gs \<and> gr_Managed t \<and> gr_Available t)
    \<and> (\<forall>g \<in> set gs. gr_Managed g \<and> gr_Available g \<longrightarrow> gr_Priority t \<le> gr_Priority g)
    \<and> (\<forall>x. r = Some x \<longrightarrow> gr_Priority t \<le> gr_Priority x)"
  using assms
proof (induction r gs rule: findTarget_from.induct)
  case (2 r g gs)
  then show ?case by (auto split: if_splits option.splits)
qed simp

lemma findTarget_from_None:
  "findTarget_from r gs = None \<longleftrightarrow> r = None \<and> (\<forall>g \<in> set gs. \<not> (gr_Managed g \<and> gr_Available g))"
  by (induction r gs rule: findTarget_from.induct) (auto split: option.splits)

lemma findTarget_spec:
  "findTarget gs = Some t \<Longrightarrow> t \<in> set gs \<and> gr_Managed t \<and> gr_Available t
     \<and> (\<forall>g \<in> set gs. gr_Managed g \<and> gr_Available g \<longrightarrow> gr_Priority t \<le> gr_Priority g)"
  using findTarget_from_spec [of None gs t] by (auto simp: findTarget_def)

section \<open>The plan\<close>

text \<open>What the policy decides to write, as a list of (group, state), before any write is made.\<close>

definition managed_others :: "string \<Rightarrow> groupRuntime list \<Rightarrow> groupRuntime list" where
  "managed_others t gs = filter (\<lambda>g. gr_ManagementGroup g \<noteq> t \<and> gr_Managed g) gs"

definition actual_of :: "groupRuntime list \<Rightarrow> string \<Rightarrow> ActualState" where
  "actual_of gs mg = (case find (\<lambda>g. gr_ManagementGroup g = mg) gs of None \<Rightarrow> [] | Some g \<Rightarrow> gr_Actual g)"

definition draining :: "groupRuntime list \<Rightarrow> bool" where
  "draining gs \<longleftrightarrow> findCurrentActive gs \<noteq> []
     \<and> actual_of gs (findCurrentActive gs) \<notin> {ActualPassive, ActualFailed}"

definition plan :: "Controller \<Rightarrow> string \<Rightarrow> groupRuntime list \<Rightarrow> (string \<times> string \<times> DesiredState) list" where
  "plan c cg gs =
     (if allSamePriority gs
      then map (\<lambda>g. (gr_ClusterGroup g, gr_ManagementGroup g, DesiredActive)) (filter gr_Managed gs)
      else case findTarget gs of None \<Rightarrow> []
      | Some t \<Rightarrow>
        (let cur = findCurrentActive gs; tname = gr_ManagementGroup t;
             others = map (\<lambda>g. (gr_ClusterGroup g, gr_ManagementGroup g, DesiredPassive)) (managed_others tname gs)
         in if cur = tname then others
            else if draining gs then [(cg, cur, DesiredPassive)]
            else if cur = [] \<and> go_index (switchoverTarget c) [] cg \<noteq> tname then []
            else (gr_ClusterGroup t, tname, DesiredActive) # others))"

definition write_plan :: "Config \<Rightarrow> 'e etcd_service \<Rightarrow> StateStore \<Rightarrow> (string \<times> string \<times> DesiredState) list \<Rightarrow>
    'e world \<Rightarrow> error option \<times> 'e world" where
  "write_plan cfg svc st = for_err (\<lambda>(cg, mg, s). writeDesiredIfChanged cfg svc st cg mg s)"

lemma write_plan_simps:
  "write_plan cfg svc st [] w = (None, w)"
  "write_plan cfg svc st ((g, m, s) # p) w = (case writeDesiredIfChanged cfg svc st g m s w of
      (None, w1) \<Rightarrow> write_plan cfg svc st p w1 | (Some e, w1) \<Rightarrow> (Some e, w1))"
  by (simp_all add: write_plan_def split: prod.splits option.splits)

lemma write_all_active_plan:
  "write_all_active cfg svc st gs =
     write_plan cfg svc st (map (\<lambda>g. (gr_ClusterGroup g, gr_ManagementGroup g, DesiredActive)) (filter gr_Managed gs))"
  by (rule ext) (auto simp: write_all_active_def write_plan_def for_err_map for_err_filter intro!: for_err_cong_set)

lemma write_others_passive_plan:
  "write_others_passive cfg svc st t gs =
     write_plan cfg svc st (map (\<lambda>g. (gr_ClusterGroup g, gr_ManagementGroup g, DesiredPassive)) (managed_others t gs))"
  by (rule ext)
    (auto simp: write_others_passive_def write_plan_def managed_others_def for_err_map for_err_filter
      intro!: for_err_cong_set)

lemma handleAutoFailover_no: "handleAutoFailover cfg svc st cg gs w = (False, w') \<Longrightarrow> w' = w"
  by (auto simp: handleAutoFailover_def Let_def split: if_splits)

text \<open>The policy without a priority swap writes its plan, and besides it only reads the clock.\<close>

definition swaps :: "Config \<Rightarrow> 'e etcd_service \<Rightarrow> StateStore \<Rightarrow> string \<Rightarrow> groupRuntime list \<Rightarrow> 'e world \<Rightarrow> bool" where
  "swaps cfg svc st cg gs w \<longleftrightarrow>
     FailoverMode (Cluster cfg) = ''automatic'' \<and> fst (handleAutoFailover cfg svc st cg gs w)"

lemma note_switchover_frame [simp]:
  "sent (snd (note_switchover cfg cg cur t (c, w))) = sent w"
  "service_state (snd (note_switchover cfg cg cur t (c, w))) = service_state w"
  by (auto simp: note_switchover_def Let_def now_def split: option.splits)

lemma note_switchover_eqs:
  "note_switchover cfg cg cur t (c, w) = (c', w') \<Longrightarrow> sent w' = sent w \<and> service_state w' = service_state w"
  by (metis note_switchover_frame snd_conv)

text \<open>The four branches of the active-passive topology.\<close>

lemma draining_find:
  "draining gs \<longleftrightarrow> findCurrentActive gs \<noteq> [] \<and>
     (case find (\<lambda>g. gr_ManagementGroup g = findCurrentActive gs) gs of None \<Rightarrow> [] | Some g \<Rightarrow> gr_Actual g) \<noteq> ActualPassive \<and>
     (case find (\<lambda>g. gr_ManagementGroup g = findCurrentActive gs) gs of None \<Rightarrow> [] | Some g \<Rightarrow> gr_Actual g) \<noteq> ActualFailed"
  by (simp add: draining_def actual_of_def)

lemma switchover_same:
  assumes "findCurrentActive gs = gr_ManagementGroup t"
  shows "switchover cfg svc st cg gs t (c, w) =
    (let (err, w1) = write_others_passive cfg svc st (gr_ManagementGroup t) gs w in (err, c, w1))"
  using assms by (simp add: switchover_def)

lemma switchover_drain:
  assumes "findCurrentActive gs \<noteq> gr_ManagementGroup t" and "draining gs"
  shows "switchover cfg svc st cg gs t (c, w) =
    (case writeDesiredIfChanged cfg svc st cg (findCurrentActive gs) DesiredPassive w of
       (Some err, w1) \<Rightarrow> (Some err, c, w1)
     | (None, w1) \<Rightarrow> (None, note_switchover cfg cg (findCurrentActive gs) (gr_ManagementGroup t) (c, w1)))"
  using assms unfolding draining_find by (simp add: switchover_def Let_def)

lemma switchover_guard:
  assumes "findCurrentActive gs \<noteq> gr_ManagementGroup t"
    and "findCurrentActive gs = []" "go_index (switchoverTarget c) [] cg \<noteq> gr_ManagementGroup t"
  shows "switchover cfg svc st cg gs t (c, w) = (None, c, w)"
  using assms by (simp add: switchover_def Let_def)

lemma switchover_activate:
  assumes "findCurrentActive gs \<noteq> gr_ManagementGroup t" and "\<not> draining gs"
    and "findCurrentActive gs \<noteq> [] \<or> go_index (switchoverTarget c) [] cg = gr_ManagementGroup t"
  shows "\<exists>c1. switchoverTarget c1 cg = None \<and> switchover cfg svc st cg gs t (c, w) =
    (case writeDesiredIfChanged cfg svc st (gr_ClusterGroup t) (gr_ManagementGroup t) DesiredActive w of
       (Some err, w1) \<Rightarrow> (Some err, c1, w1)
     | (None, w1) \<Rightarrow> (let (err, w2) = write_others_passive cfg svc st (gr_ManagementGroup t) gs w1 in (err, c1, w2)))"
proof -
  let ?cur = "findCurrentActive gs"
  define c0 where "c0 = (if ?cur \<noteq> [] then c\<lparr>switchoverStarted := (switchoverStarted c)(cg @ ''/'' @ ?cur := None)\<rparr> else c)"
  have "switchover cfg svc st cg gs t (c, w) =
    (let c1 = c0\<lparr>switchoverTarget := (switchoverTarget c0)(cg := None)\<rparr>
     in case writeDesiredIfChanged cfg svc st (gr_ClusterGroup t) (gr_ManagementGroup t) DesiredActive w of
       (Some err, w1) \<Rightarrow> (Some err, c1, w1)
     | (None, w1) \<Rightarrow> (let (err, w2) = write_others_passive cfg svc st (gr_ManagementGroup t) gs w1 in (err, c1, w2)))"
    using assms unfolding draining_find c0_def by (auto simp: switchover_def Let_def)
  then show ?thesis
    by (intro exI [of _ "c0\<lparr>switchoverTarget := (switchoverTarget c0)(cg := None)\<rparr>"]) (simp add: Let_def)
qed

lemma switchover_plan:
  assumes "switchover cfg svc st cg gs t (c, w) = (err, c', w')"
    and "findTarget gs = Some t" and "\<not> allSamePriority gs"
  shows "\<exists>w1. write_plan cfg svc st (plan c cg gs) w = (err, w1) \<and> sent w' = sent w1
    \<and> service_state w' = service_state w1"
proof -
  let ?cur = "findCurrentActive gs" and ?t = "gr_ManagementGroup t"
  consider "?cur = ?t" | "?cur \<noteq> ?t" "draining gs"
    | "?cur \<noteq> ?t" "\<not> draining gs" "?cur = []" "go_index (switchoverTarget c) [] cg \<noteq> ?t"
    | "?cur \<noteq> ?t" "\<not> draining gs" "?cur \<noteq> [] \<or> go_index (switchoverTarget c) [] cg = ?t" by blast
  then show ?thesis
  proof cases
    case 1
    then show ?thesis
      using assms unfolding switchover_same [OF 1] by (auto simp: plan_def write_others_passive_plan split: prod.splits)
  next
    case 2
    obtain r w1 where w1: "writeDesiredIfChanged cfg svc st cg ?cur DesiredPassive w = (r, w1)" by fastforce
    have "plan c cg gs = [(cg, ?cur, DesiredPassive)]" using assms 2 by (simp add: plan_def)
    then show ?thesis
      using assms(1) w1 unfolding switchover_drain [OF 2]
      by (cases r) (auto simp: write_plan_simps dest: note_switchover_eqs)
  next
    case 3
    then show ?thesis
      using assms unfolding switchover_guard [OF 3(1,3,4)] by (auto simp: plan_def write_plan_simps Let_def)
  next
    case 4
    obtain r w1 where w1: "writeDesiredIfChanged cfg svc st (gr_ClusterGroup t) ?t DesiredActive w = (r, w1)"
      by fastforce
    have "plan c cg gs = (gr_ClusterGroup t, ?t, DesiredActive)
        # map (\<lambda>g. (gr_ClusterGroup g, gr_ManagementGroup g, DesiredPassive)) (managed_others ?t gs)"
      using assms 4 by (auto simp: plan_def Let_def)
    then show ?thesis
      using assms(1) w1 switchover_activate [OF 4, of cfg svc st w]
      by (cases r; cases "write_others_passive cfg svc st ?t gs w1")
        (auto simp: write_plan_simps write_others_passive_plan)
  qed
qed

lemma policy_plan:
  assumes "applyPriorityPolicy cfg svc st cg gs (c, w) = (err, c', w')" and "\<not> swaps cfg svc st cg gs w"
  shows "\<exists>w1. write_plan cfg svc st (plan c cg gs) w = (err, w1) \<and> sent w' = sent w1
    \<and> service_state w' = service_state w1"
proof -
  have "(if FailoverMode (Cluster cfg) = ''automatic'' then handleAutoFailover cfg svc st cg gs w else (False, w))
      = (False, w)"
    using assms(2) handleAutoFailover_no [of cfg svc st cg gs w]
    by (cases "handleAutoFailover cfg svc st cg gs w") (auto simp: swaps_def)
  then have *: "applyPriorityPolicy cfg svc st cg gs (c, w) =
      (if gs = [] then (None, c, w) else if allSamePriority gs
       then (let (err, w) = write_all_active cfg svc st gs w in (err, c, w))
       else case findTarget gs of None \<Rightarrow> (None, c, w)
            | Some t \<Rightarrow> switchover cfg svc st cg gs t (c, w))"
    by (simp add: applyPriorityPolicy_def)
  consider "gs = []" | "gs \<noteq> []" "allSamePriority gs" | "\<not> allSamePriority gs" "findTarget gs = None"
    | t where "\<not> allSamePriority gs" "findTarget gs = Some t" by blast
  then show ?thesis
  proof cases
    case 1
    then show ?thesis using assms(1) * by (simp add: plan_def allSamePriority_def write_plan_def)
  next
    case 2
    then show ?thesis using assms(1) * by (auto simp: plan_def write_all_active_plan split: prod.splits)
  next
    case 3
    then show ?thesis using assms(1) * by (simp add: plan_def write_plan_simps split: if_splits)
  next
    case 4
    then have "gs \<noteq> []" by (auto simp: allSamePriority_def)
    then show ?thesis using 4 assms(1) * switchover_plan by simp
  qed
qed

section \<open>What a plan leaves in etcd\<close>

lemma write_plan_sent:
  fixes w :: "'e world"
  assumes "write_plan cfg svc st p w = (err, w')"
  shows "\<exists>rs. sent w' = sent w @ rs \<and> (\<forall>r \<in> set rs. \<exists>(cg, mg, s) \<in> set p. puts_desired (cluster_id cfg) cg mg s r)"
proof -
  let ?P = "\<lambda>v :: 'e world. \<exists>rs. sent v = sent w @ rs \<and>
    (\<forall>r \<in> set rs. \<exists>(cg, mg, s) \<in> set p. puts_desired (cluster_id cfg) cg mg s r)"
  have "?P (snd (for_err (\<lambda>(cg, mg, s). writeDesiredIfChanged cfg svc st cg mg s) p w))"
  proof (rule for_err_invariant)
    fix x and v :: "'e world" assume x: "x \<in> set p" and v: "?P v"
    obtain cg mg s where x': "x = (cg, mg, s)" by (cases x)
    obtain r v' where v': "writeDesiredIfChanged cfg svc st cg mg s v = (r, v')" by fastforce
    obtain rs where rs: "sent v' = sent v @ rs" "list_all (puts_desired (cluster_id cfg) cg mg s) rs"
      using writeDesired_sent(1) [OF v'] by blast
    have "\<forall>r \<in> set rs. \<exists>(cg, mg, s) \<in> set p. puts_desired (cluster_id cfg) cg mg s r"
      using rs(2) x x' by (auto simp: list_all_iff)
    then show "?P (snd ((\<lambda>(cg, mg, s). writeDesiredIfChanged cfg svc st cg mg s) x v))"
      using v rs(1) by (auto simp: x' v')
  qed simp
  then show ?thesis using assms by (simp add: write_plan_def)
qed

text \<open>The desired document a key space holds for a group, if it is managed and in this state.\<close>

definition desires :: "(string \<rightharpoonup> bytes) \<Rightarrow> string \<Rightarrow> DesiredState \<Rightarrow> bool" where
  "desires m key s \<longleftrightarrow> (\<exists>d. Option.bind (m key) unmarshal_desired = Some d \<and> d_State d = s \<and> d_Managed d)"

lemma desired_agrees_desires: "desired_agrees st key s \<longleftrightarrow> desires (Get st) key s"
  by (simp add: desired_agrees_def desires_def)

definition plan_keys :: "string \<Rightarrow> (string \<times> string \<times> DesiredState) list \<Rightarrow> string list" where
  "plan_keys c p = map (\<lambda>(cg, mg, s). Desired c cg mg) p"

context etcd_kv
begin

lemma writeDesired_kv:
  assumes "writeDesiredIfChanged cfg svc st cg mg s w = (r, w')"
    and "\<And>s. desires (Get st) (Desired (cluster_id cfg) cg mg) s
      \<longleftrightarrow> desires (kv (service_state w)) (Desired (cluster_id cfg) cg mg) s"
  shows "k \<noteq> Desired (cluster_id cfg) cg mg \<Longrightarrow> kv (service_state w') k = kv (service_state w) k"
    and "r = None \<Longrightarrow> desires (kv (service_state w')) (Desired (cluster_id cfg) cg mg) s"
proof -
  let ?k = "Desired (cluster_id cfg) cg mg"
  from assms(1) have "(k \<noteq> ?k \<longrightarrow> kv (service_state w') k = kv (service_state w) k)
      \<and> (r = None \<longrightarrow> desires (kv (service_state w')) ?k s)"
  proof (cases rule: writeDesired_cases)
    case same
    then show ?thesis using assms(2) by (simp add: desired_agrees_desires)
  next
    case (put b)
    then show ?thesis
      using Put_ok [of ?k b 0 "snd (now w)" w'] Put_other [of ?k b 0 "snd (now w)" r w' k]
      by (auto simp: puts_desired_def desires_def)
  qed simp
  then show "k \<noteq> ?k \<Longrightarrow> kv (service_state w') k = kv (service_state w) k"
    and "r = None \<Longrightarrow> desires (kv (service_state w')) ?k s" by simp_all
qed

lemma write_plan_kv:
  assumes "write_plan cfg svc st p w = (r, w')" and "distinct (plan_keys (cluster_id cfg) p)"
    and "\<forall>k \<in> set (plan_keys (cluster_id cfg) p). \<forall>s. desires (Get st) k s \<longleftrightarrow> desires (kv (service_state w)) k s"
  shows "(\<forall>k. k \<notin> set (plan_keys (cluster_id cfg) p) \<longrightarrow> kv (service_state w') k = kv (service_state w) k)
    \<and> (r = None \<longrightarrow> (\<forall>(cg, mg, s) \<in> set p. desires (kv (service_state w')) (Desired (cluster_id cfg) cg mg) s))"
  using assms
proof (induction p arbitrary: w)
  case Nil
  then show ?case by (simp add: write_plan_simps)
next
  case (Cons x p)
  obtain cg mg s where x: "x = (cg, mg, s)" by (cases x)
  let ?k = "Desired (cluster_id cfg) cg mg"
  obtain r1 w1 where w1: "writeDesiredIfChanged cfg svc st cg mg s w = (r1, w1)" by fastforce
  have pk: "plan_keys (cluster_id cfg) (x # p) = ?k # plan_keys (cluster_id cfg) p" by (simp add: x plan_keys_def)
  have other: "kv (service_state w1) k = kv (service_state w) k" if "k \<noteq> ?k" for k
    using writeDesired_kv(1) [OF w1] Cons.prems(3) that pk by simp
  show ?case
  proof (cases r1)
    case (Some e)
    then show ?thesis using Cons.prems(1) w1 other pk by (auto simp: x write_plan_simps)
  next
    case None
    have here: "desires (kv (service_state w1)) ?k s"
      using writeDesired_kv(2) [OF w1] Cons.prems(3) None pk by simp
    have rest: "write_plan cfg svc st p w1 = (r, w')" using Cons.prems(1) w1 None by (simp add: x write_plan_simps)
    have "\<forall>k \<in> set (plan_keys (cluster_id cfg) p). \<forall>s. desires (Get st) k s \<longleftrightarrow> desires (kv (service_state w1)) k s"
      using Cons.prems(2,3) other pk by (auto simp: desires_def) (metis (no_types))+
    from Cons.IH [OF rest _ this] Cons.prems(2) pk
    have IH: "\<forall>k. k \<notin> set (plan_keys (cluster_id cfg) p) \<longrightarrow> kv (service_state w') k = kv (service_state w1) k"
      "r = None \<longrightarrow> (\<forall>(cg, mg, s) \<in> set p. desires (kv (service_state w')) (Desired (cluster_id cfg) cg mg) s)"
      by auto
    have "desires (kv (service_state w')) ?k s" using here IH(1) Cons.prems(2) pk by (simp add: desires_def)
    then show ?thesis using IH other pk by (auto simp: x)
  qed
qed

end

section \<open>Priority swaps\<close>

text \<open>\<open>writePriority\<close> leaves the document alone or puts one that differs in the priority only.\<close>

definition stored_mgconfig :: "StateStore \<Rightarrow> string \<Rightarrow> string \<Rightarrow> string \<Rightarrow> ManagementGroupConfigDocument option" where
  "stored_mgconfig st c cg mg = Option.bind (Get st (ManagementGroupConfig c cg mg)) unmarshal_mgconfig"

definition puts_priority :: "StateStore \<Rightarrow> string \<Rightarrow> string \<Rightarrow> string \<Rightarrow> int \<Rightarrow> request \<Rightarrow> bool" where
  "puts_priority st c cg mg p r \<longleftrightarrow>
     (\<exists>b doc t. stored_mgconfig st c cg mg = Some doc \<and> mgc_Priority doc \<noteq> p
        \<and> r = ReqPut (ManagementGroupConfig c cg mg) b 0
        \<and> marshal_mgconfig (doc\<lparr>mgc_Priority := p, mgc_UpdatedAt := t\<rparr>) = Some b)"

lemma writePriority_stored:
  assumes "stored_mgconfig st (cluster_id cfg) cg mg = Some doc"
  shows "writePriority cfg svc st cg mg p w =
      (if mgc_Priority doc = p then w
       else case marshal_mgconfig (doc\<lparr>mgc_Priority := p, mgc_UpdatedAt := clock w (ticks w)\<rparr>) of
         None \<Rightarrow> snd (now w)
       | Some b \<Rightarrow> snd (Put svc (ManagementGroupConfig (cluster_id cfg) cg mg) b 0 (snd (now w))))"
  using assms
  by (auto simp: writePriority_def stored_mgconfig_def now_def Let_def split: option.splits bind_splits)

lemma writePriority_cases:
  obtains (skip) "service_state (writePriority cfg svc st cg mg p w) = service_state w"
      "sent (writePriority cfg svc st cg mg p w) = sent w"
  | (put) b where "writePriority cfg svc st cg mg p w
      = snd (Put svc (ManagementGroupConfig (cluster_id cfg) cg mg) b 0 (snd (now w)))"
      "puts_priority st (cluster_id cfg) cg mg p (ReqPut (ManagementGroupConfig (cluster_id cfg) cg mg) b 0)"
proof (cases "stored_mgconfig st (cluster_id cfg) cg mg")
  case None
  then have "writePriority cfg svc st cg mg p w = w"
    by (cases "Get st (ManagementGroupConfig (cluster_id cfg) cg mg)")
      (simp_all add: writePriority_def stored_mgconfig_def Let_def)
  then show ?thesis using skip by simp
next
  case (Some doc)
  show ?thesis
  proof (cases "mgc_Priority doc = p")
    case True
    then show ?thesis using skip by (simp add: writePriority_stored [OF Some])
  next
    case False
    then show ?thesis
      using skip put Some
      by (cases "marshal_mgconfig (doc\<lparr>mgc_Priority := p, mgc_UpdatedAt := clock w (ticks w)\<rparr>)")
        (auto simp: puts_priority_def writePriority_stored [OF Some])
  qed
qed

text \<open>The writes of a swap, group by group.\<close>

definition swap_write :: "groupRuntime list \<Rightarrow> groupRuntime \<Rightarrow> int option" where
  "swap_write gs g =
     (let m = min_priority (-1) gs; n = min_priority (-1) (filter gr_Available gs)
      in if gr_Priority g = m \<and> \<not> gr_Available g then Some n
         else if gr_Priority g = n \<and> gr_Available g then Some m else None)"

lemma handleAutoFailover_yes:
  assumes "handleAutoFailover cfg svc st cg gs w = (True, w')"
  shows "w' = for_each (\<lambda>g w. case swap_write gs g of None \<Rightarrow> w
      | Some p \<Rightarrow> writePriority cfg svc st cg (gr_ManagementGroup g) p w) gs w"
    and "0 \<le> min_priority (-1) gs" and "0 \<le> min_priority (-1) (filter gr_Available gs)"
    and "\<exists>g \<in> set gs. gr_Priority g = min_priority (-1) gs \<and> \<not> gr_Available g \<and> gr_Managed g"
proof -
  have eq: "(\<lambda>g w. if gr_Priority g = min_priority (-1) gs \<and> \<not> gr_Available g
        then writePriority cfg svc st cg (gr_ManagementGroup g) (min_priority (-1) (filter gr_Available gs)) w
        else if gr_Priority g = min_priority (-1) (filter gr_Available gs) \<and> gr_Available g
        then writePriority cfg svc st cg (gr_ManagementGroup g) (min_priority (-1) gs) w else w)
    = (\<lambda>g w. case swap_write gs g of None \<Rightarrow> w
        | Some p \<Rightarrow> writePriority cfg svc st cg (gr_ManagementGroup g) p w)"
    by (intro ext) (simp add: swap_write_def Let_def)
  show "w' = for_each (\<lambda>g w. case swap_write gs g of None \<Rightarrow> w
      | Some p \<Rightarrow> writePriority cfg svc st cg (gr_ManagementGroup g) p w) gs w"
    and "0 \<le> min_priority (-1) gs" and "0 \<le> min_priority (-1) (filter gr_Available gs)"
    and "\<exists>g \<in> set gs. gr_Priority g = min_priority (-1) gs \<and> \<not> gr_Available g \<and> gr_Managed g"
    using assms unfolding handleAutoFailover_def Let_def eq
    by (auto simp: list_ex_iff split: if_splits)
qed

context etcd_kv
begin

lemma Put_other_snd: "k' \<noteq> k \<Longrightarrow> kv (service_state (snd (Put svc k b l w))) k' = kv (service_state w) k'"
  using Put_other [of k b l w] by (metis prod.collapse)

lemma writePriority_kv:
  "k \<noteq> ManagementGroupConfig (cluster_id cfg) cg mg \<Longrightarrow>
     kv (service_state (writePriority cfg svc st cg mg p w)) k = kv (service_state w) k"
  by (rule writePriority_cases [where cfg = cfg and svc = svc and st = st and cg = cg and mg = mg and p = p and w = w])
    (auto simp: Put_other_snd)

lemma handleAutoFailover_kv:
  assumes "handleAutoFailover cfg svc st cg gs w = (r, w')"
    and "\<forall>g \<in> set gs. k \<noteq> ManagementGroupConfig (cluster_id cfg) cg (gr_ManagementGroup g)"
  shows "kv (service_state w') k = kv (service_state w) k"
proof (cases r)
  case True
  then have w': "w' = for_each (\<lambda>g w. case swap_write gs g of None \<Rightarrow> w
      | Some p \<Rightarrow> writePriority cfg svc st cg (gr_ManagementGroup g) p w) gs w"
    using handleAutoFailover_yes(1) assms(1) by simp
  show ?thesis
    unfolding w' by (rule for_each_invariant) (use assms(2) writePriority_kv in \<open>auto split: option.splits\<close>)
next
  case False
  then show ?thesis using assms(1) handleAutoFailover_no [of cfg svc st cg gs w w'] by simp
qed

end

text \<open>
  The groups as a cycle hands them to the policy: distinct, of one cluster group, with the
  desired state read from a store that agrees with etcd on their desired documents.
\<close>

definition groups_read :: "Config \<Rightarrow> StateStore \<Rightarrow> string \<Rightarrow> groupRuntime list \<Rightarrow> (string \<rightharpoonup> bytes) \<Rightarrow> bool" where
  "groups_read cfg st cg gs m \<longleftrightarrow>
     id_ok (cluster_id cfg) \<and> group_ok cg \<and> distinct (map gr_ManagementGroup gs)
     \<and> (\<forall>g \<in> set gs. gr_ClusterGroup g = cg \<and> member_ok (gr_ManagementGroup g)
        \<and> (gr_Desired g, gr_Managed g) = readDesired cfg st cg (gr_ManagementGroup g)
        \<and> Get st (Desired (cluster_id cfg) cg (gr_ManagementGroup g))
            = map_option normalizeJSON (m (Desired (cluster_id cfg) cg (gr_ManagementGroup g))))"

lemma unmarshal_normalizeJSON: "unmarshal f (normalizeJSON b) = unmarshal f b"
  by (cases b) simp_all

lemma groups_read_agrees:
  assumes "groups_read cfg st cg gs m" and "g \<in> set gs"
  shows "desires (Get st) (Desired (cluster_id cfg) cg (gr_ManagementGroup g)) s
    \<longleftrightarrow> desires m (Desired (cluster_id cfg) cg (gr_ManagementGroup g)) s"
  using assms
  by (cases "m (Desired (cluster_id cfg) cg (gr_ManagementGroup g))")
    (auto simp: groups_read_def desires_def unmarshal_desired_def unmarshal_normalizeJSON)

lemma groups_read_desires:
  assumes "groups_read cfg st cg gs m" and "g \<in> set gs"
  shows "desires m (Desired (cluster_id cfg) cg (gr_ManagementGroup g)) s \<longleftrightarrow> gr_Desired g = s \<and> gr_Managed g"
proof -
  have "(gr_Desired g, gr_Managed g) = readDesired cfg st cg (gr_ManagementGroup g)"
    using assms by (simp add: groups_read_def)
  then have "desires (Get st) (Desired (cluster_id cfg) cg (gr_ManagementGroup g)) s \<longleftrightarrow> gr_Desired g = s \<and> gr_Managed g"
    by (auto simp: desires_def readDesired_def split: option.splits bind_splits)
  then show ?thesis using groups_read_agrees [OF assms] by simp
qed

lemma groups_read_keys:
  assumes "groups_read cfg st cg gs m" and "g \<in> set gs" and "h \<in> set gs"
  shows "Desired (cluster_id cfg) cg (gr_ManagementGroup g) = Desired (cluster_id cfg) cg (gr_ManagementGroup h) \<longleftrightarrow> g = h"
    and "Desired (cluster_id cfg) cg (gr_ManagementGroup g) \<noteq> ManagementGroupConfig (cluster_id cfg) cg (gr_ManagementGroup h)"
    and "gr_ManagementGroup g = gr_ManagementGroup h \<longleftrightarrow> g = h"
proof -
  have ok: "id_ok (cluster_id cfg)" "group_ok cg" "member_ok (gr_ManagementGroup g)" "member_ok (gr_ManagementGroup h)"
    and d: "distinct (map gr_ManagementGroup gs)"
    using assms by (auto simp: groups_read_def)
  show names: "gr_ManagementGroup g = gr_ManagementGroup h \<longleftrightarrow> g = h"
    using d assms(2,3) by (auto simp: distinct_map dest: inj_onD)
  show "Desired (cluster_id cfg) cg (gr_ManagementGroup g) = Desired (cluster_id cfg) cg (gr_ManagementGroup h) \<longleftrightarrow> g = h"
    using entity_key_inject [of "cluster_id cfg" "EDesired cg (gr_ManagementGroup g)" "EDesired cg (gr_ManagementGroup h)"]
      ok names by simp
  show "Desired (cluster_id cfg) cg (gr_ManagementGroup g) \<noteq> ManagementGroupConfig (cluster_id cfg) cg (gr_ManagementGroup h)"
    using entity_key_inject [of "cluster_id cfg" "EDesired cg (gr_ManagementGroup g)" "EGroupConfig cg (gr_ManagementGroup h)"]
      ok by simp
qed

text \<open>The shapes of a plan of the active-passive topology.\<close>

definition passive_others :: "string \<Rightarrow> groupRuntime list \<Rightarrow> (string \<times> string \<times> DesiredState) list" where
  "passive_others t gs = map (\<lambda>g. (gr_ClusterGroup g, gr_ManagementGroup g, DesiredPassive)) (managed_others t gs)"

lemma findCurrentActive_in:
  assumes "findCurrentActive gs \<noteq> []"
  obtains g where "g \<in> set gs" "gr_ManagementGroup g = findCurrentActive gs"
  using assms unfolding findCurrentActive_def Let_def
  by (auto split: option.splits if_splits dest!: find_SomeD)

lemma plan_cases:
  assumes "\<not> allSamePriority gs"
  obtains (none) "plan c cg gs = []"
  | (others) t where "findTarget gs = Some t" "findCurrentActive gs = gr_ManagementGroup t"
      "plan c cg gs = passive_others (gr_ManagementGroup t) gs"
  | (drain) g where "g \<in> set gs" "gr_ManagementGroup g = findCurrentActive gs" "draining gs"
      "plan c cg gs = [(cg, gr_ManagementGroup g, DesiredPassive)]"
  | (activate) t where "findTarget gs = Some t" "\<not> draining gs"
      "findCurrentActive gs \<noteq> [] \<or> go_index (switchoverTarget c) [] cg = gr_ManagementGroup t"
      "plan c cg gs = (gr_ClusterGroup t, gr_ManagementGroup t, DesiredActive) # passive_others (gr_ManagementGroup t) gs"
proof (cases "findTarget gs")
  case None
  then show ?thesis using assms none by (simp add: plan_def)
next
  case (Some t)
  let ?cur = "findCurrentActive gs" and ?t = "gr_ManagementGroup t"
  have plan: "plan c cg gs = (if ?cur = ?t then passive_others ?t gs
      else if draining gs then [(cg, ?cur, DesiredPassive)]
      else if ?cur = [] \<and> go_index (switchoverTarget c) [] cg \<noteq> ?t then []
      else (gr_ClusterGroup t, ?t, DesiredActive) # passive_others ?t gs)"
    using assms Some by (simp add: plan_def passive_others_def Let_def)
  consider "?cur = ?t" | "?cur \<noteq> ?t" "draining gs"
    | "?cur \<noteq> ?t" "\<not> draining gs" "?cur = [] \<and> go_index (switchoverTarget c) [] cg \<noteq> ?t"
    | "?cur \<noteq> ?t" "\<not> draining gs" "\<not> (?cur = [] \<and> go_index (switchoverTarget c) [] cg \<noteq> ?t)" by blast
  then show ?thesis
  proof cases
    case 1
    then show ?thesis using plan Some others by simp
  next
    case 2
    then obtain g where "g \<in> set gs" "gr_ManagementGroup g = ?cur"
      using findCurrentActive_in [of gs] by (auto simp: draining_def)
    then show ?thesis using 2 plan drain [of g] by simp
  next
    case 3
    then show ?thesis using plan none by simp
  next
    case 4
    then show ?thesis using plan Some activate [of t] by auto
  qed
qed

lemma desires_unique: "desires m k s \<Longrightarrow> desires m k s' \<Longrightarrow> s = s'"
  by (auto simp: desires_def)

abbreviation group_key :: "Config \<Rightarrow> string \<Rightarrow> groupRuntime \<Rightarrow> string" where
  "group_key cfg cg g \<equiv> Desired (cluster_id cfg) cg (gr_ManagementGroup g)"

lemma passive_others_keys:
  assumes "groups_read cfg st cg gs m"
  shows "plan_keys (cluster_id cfg) (passive_others t gs) = map (group_key cfg cg) (managed_others t gs)"
    and "distinct (map (group_key cfg cg) (managed_others t gs))"
proof -
  have d: "distinct gs" and cgs: "\<And>g. g \<in> set gs \<Longrightarrow> gr_ClusterGroup g = cg"
    using assms by (auto simp: groups_read_def distinct_map)
  show "plan_keys (cluster_id cfg) (passive_others t gs) = map (group_key cfg cg) (managed_others t gs)"
    by (auto simp: plan_keys_def passive_others_def managed_others_def cgs)
  show "distinct (map (group_key cfg cg) (managed_others t gs))"
    using d groups_read_keys(1) [OF assms]
    by (auto simp: distinct_map managed_others_def intro!: inj_onI)
qed

text \<open>A plan writes to groups of the cycle, each at most once, in a store that agrees with etcd.\<close>

lemma plan_keys_ok:
  assumes "groups_read cfg st cg gs m" and "\<not> allSamePriority gs"
  shows "distinct (plan_keys (cluster_id cfg) (plan c cg gs))
    \<and> set (plan_keys (cluster_id cfg) (plan c cg gs)) \<subseteq> group_key cfg cg ` set gs
    \<and> (\<forall>k \<in> set (plan_keys (cluster_id cfg) (plan c cg gs)). \<forall>s. desires (Get st) k s \<longleftrightarrow> desires m k s)"
proof -
  have "distinct (plan_keys (cluster_id cfg) (plan c cg gs))
    \<and> set (plan_keys (cluster_id cfg) (plan c cg gs)) \<subseteq> group_key cfg cg ` set gs"
    using assms(2)
  proof (cases rule: plan_cases [of gs c cg])
    case none
    then show ?thesis by (simp add: plan_keys_def)
  next
    case (others t)
    then show ?thesis using passive_others_keys [OF assms(1)] by (auto simp: managed_others_def)
  next
    case (drain g)
    have "plan_keys (cluster_id cfg) (plan c cg gs) = [group_key cfg cg g]"
      unfolding drain(4) by (simp add: plan_keys_def)
    then show ?thesis using drain(1) by simp
  next
    case (activate t)
    have t: "t \<in> set gs" "gr_ClusterGroup t = cg"
      using findTarget_spec activate(1) assms(1) by (auto simp: groups_read_def)
    then have "plan_keys (cluster_id cfg) (plan c cg gs)
        = map (group_key cfg cg) (t # managed_others (gr_ManagementGroup t) gs)"
      using activate(4) passive_others_keys(1) [OF assms(1)] by (simp add: plan_keys_def)
    then show ?thesis
      using t passive_others_keys(2) [OF assms(1)] groups_read_keys(1) [OF assms(1)]
      by (auto simp: managed_others_def)
  qed
  then show ?thesis using groups_read_agrees [OF assms(1)] by blast
qed

context etcd_kv
begin

lemma policy_plan_kv:
  assumes "groups_read cfg st cg gs (kv (service_state w))" and "\<not> allSamePriority gs"
    and "write_plan cfg svc st (plan c cg gs) w = (None, w')" and "g \<in> set gs"
  shows "(cg, gr_ManagementGroup g, s) \<in> set (plan c cg gs) \<Longrightarrow> desires (kv (service_state w')) (group_key cfg cg g) s"
    and "\<forall>s. (cg, gr_ManagementGroup g, s) \<notin> set (plan c cg gs) \<Longrightarrow>
      kv (service_state w') (group_key cfg cg g) = kv (service_state w) (group_key cfg cg g)"
proof -
  note ok = plan_keys_ok [OF assms(1,2), of c]
  note kv = write_plan_kv [OF assms(3)] 
  show "desires (kv (service_state w')) (group_key cfg cg g) s" if "(cg, gr_ManagementGroup g, s) \<in> set (plan c cg gs)"
    using kv ok that by fastforce
  have "\<forall>x \<in> set (plan c cg gs). fst x = cg \<and> (\<exists>h \<in> set gs. gr_ManagementGroup h = fst (snd x))"
    using assms(2)
  proof (cases rule: plan_cases [of gs c cg])
    case (activate t)
    then show ?thesis
      using findTarget_spec [of gs t] assms(1) by (auto simp: passive_others_def managed_others_def groups_read_def)
  qed (use assms(1) in \<open>auto simp: passive_others_def managed_others_def groups_read_def\<close>)
  then have "group_key cfg cg g \<notin> set (plan_keys (cluster_id cfg) (plan c cg gs))"
    if "\<forall>s. (cg, gr_ManagementGroup g, s) \<notin> set (plan c cg gs)"
    using that assms(4) groups_read_keys(1) [OF assms(1)] by (fastforce simp: plan_keys_def)
  then show "kv (service_state w') (group_key cfg cg g) = kv (service_state w) (group_key cfg cg g)"
    if "\<forall>s. (cg, gr_ManagementGroup g, s) \<notin> set (plan c cg gs)"
    using kv ok that by blast
qed

text \<open>After the plan, an active group is the target or was active before.\<close>

lemma plan_active:
  assumes gr: "groups_read cfg st cg gs (kv (service_state w))" and ns: "\<not> allSamePriority gs"
    and wp: "write_plan cfg svc st (plan c cg gs) w = (None, w')" and g: "g \<in> set gs"
    and act: "desires (kv (service_state w')) (group_key cfg cg g) DesiredActive"
  shows "(\<exists>t. findTarget gs = Some t \<and> (\<forall>h \<in> set gs. desires (kv (service_state w')) (group_key cfg cg h) DesiredActive
       \<longrightarrow> h = t)) \<or> desires (kv (service_state w)) (group_key cfg cg g) DesiredActive"
proof -
  note kv = policy_plan_kv [OF gr ns wp]
  have only: "h = t" if t: "findTarget gs = Some t" and h: "h \<in> set gs"
    and p: "set (passive_others (gr_ManagementGroup t) gs) \<subseteq> set (plan c cg gs)"
      "set (plan c cg gs) \<subseteq> insert (gr_ClusterGroup t, gr_ManagementGroup t, DesiredActive) (set (passive_others (gr_ManagementGroup t) gs))"
    and a: "desires (kv (service_state w')) (group_key cfg cg h) DesiredActive" for h t
  proof (rule ccontr)
    assume "h \<noteq> t"
    then have ne: "gr_ManagementGroup h \<noteq> gr_ManagementGroup t"
      using groups_read_keys(3) [OF gr h, of t] findTarget_spec [OF t] by simp
    have cgh: "gr_ClusterGroup h = cg" using gr h by (simp add: groups_read_def)
    show False
    proof (cases "gr_Managed h")
      case True
      then have "(cg, gr_ManagementGroup h, DesiredPassive) \<in> set (plan c cg gs)"
        using p(1) h ne cgh by (force simp: passive_others_def managed_others_def)
      from kv(1) [OF h this] a show False using desires_unique by fastforce
    next
      case False
      then have "\<forall>s. (cg, gr_ManagementGroup h, s) \<notin> set (plan c cg gs)"
        using p(2) ne h groups_read_keys(3) [OF gr] by (auto simp: passive_others_def managed_others_def)
      from kv(2) [OF h this] a have "desires (kv (service_state w)) (group_key cfg cg h) DesiredActive"
        by (simp add: desires_def)
      then show False using groups_read_desires [OF gr h] False by simp
    qed
  qed
  show ?thesis
    using ns
  proof (cases rule: plan_cases [of gs c cg])
    case none
    then show ?thesis using kv(2) [OF g] act by (simp add: desires_def)
  next
    case (others t)
    then show ?thesis using only [of t] by auto
  next
    case (drain h)
    show ?thesis
    proof (cases "g = h")
      case True
      then have "desires (kv (service_state w')) (group_key cfg cg g) DesiredPassive"
        using kv(1) [OF g, of DesiredPassive] drain by simp
      then show ?thesis using act desires_unique by fastforce
    next
      case False
      then have "\<forall>s. (cg, gr_ManagementGroup g, s) \<notin> set (plan c cg gs)"
        unfolding drain(4) using groups_read_keys(3) [OF gr g drain(1)] by simp
      then show ?thesis using kv(2) [OF g] act by (simp add: desires_def)
    qed
  next
    case (activate t)
    then show ?thesis using only [of t] by auto
  qed
qed

end

section \<open>Safety of the switchover\<close>

lemma policy_active_unique:
  assumes "etcd_kv svc kv" and "groups_read cfg st cg gs (kv (service_state w))"
    and "\<not> allSamePriority gs"
    and "applyPriorityPolicy cfg svc st cg gs (c, w) = (None, c', w')"
    and "\<forall>g \<in> set gs. \<forall>h \<in> set gs. desires (kv (service_state w)) (group_key cfg cg g) DesiredActive
      \<and> desires (kv (service_state w)) (group_key cfg cg h) DesiredActive \<longrightarrow> g = h"
    and "g \<in> set gs" and "desires (kv (service_state w')) (group_key cfg cg g) DesiredActive"
    and "h \<in> set gs" and "desires (kv (service_state w')) (group_key cfg cg h) DesiredActive"
  shows "g = h"
proof (cases "swaps cfg svc st cg gs w")
  case True
  then obtain w1 where w1: "handleAutoFailover cfg svc st cg gs w = (True, w1)" "w' = w1"
    using assms(3,4) by (cases "handleAutoFailover cfg svc st cg gs w")
      (auto simp: swaps_def applyPriorityPolicy_def allSamePriority_def split: list.splits)
  have "kv (service_state w') (group_key cfg cg x) = kv (service_state w) (group_key cfg cg x)" if "x \<in> set gs" for x
    using etcd_kv.handleAutoFailover_kv [OF assms(1) w1(1)] w1(2) that groups_read_keys(2) [OF assms(2)] by simp
  then show ?thesis using assms(5-9) by (simp add: desires_def)
next
  case False
  then obtain w1 where w1: "write_plan cfg svc st (plan c cg gs) w = (None, w1)" "service_state w' = service_state w1"
    using policy_plan [OF assms(4)] by blast
  note active = etcd_kv.plan_active [OF assms(1-3) w1(1), folded w1(2)]
  show ?thesis using active [OF assms(6,7)] active [OF assms(8,9)] assms(5-9) by blast
qed

text \<open>
  At most one group of an active-passive cluster group is told to be active. Take the
  groups as a cycle reads them, from a cache that agrees with etcd, and suppose at most one of
  them is managed with desired state active. If the policy returns without an error then the
  same holds in etcd afterwards, in every branch: already correct, draining, guarded,
  activating, or swapping priorities.
\<close>

theorem policy_keeps_one_active:
  assumes "etcd_kv svc kv" and "groups_read cfg st cg gs (kv (service_state w))"
    and "\<not> allSamePriority gs"
    and "applyPriorityPolicy cfg svc st cg gs (c, w) = (None, c', w')"
    and "card {g \<in> set gs. desires (kv (service_state w)) (group_key cfg cg g) DesiredActive} \<le> 1"
  shows "card {g \<in> set gs. desires (kv (service_state w')) (group_key cfg cg g) DesiredActive} \<le> 1"
  using assms(5) policy_active_unique [OF assms(1-4)] by (auto simp: card_le_Suc0_iff_eq)

lemma example_groups_read:
  "groups_read (example_cfg mode) (example_store (pair_items dx mx dy my)) ''g''
     [runtime ''x'' px dx mx ax, runtime ''y'' py dy my ay]
     (map_of (fst (service_state (example_world (pair_items dx mx dy my)))))"
  by (simp add: groups_read_def entity_ok_defs readDesired_def pair_desired) (simp add: desired_json_def)

text \<open>The active group failed; the policy hands over to the other one.\<close>

definition handover_items :: "(entity \<times> bytes) list" where
  "handover_items = pair_items DesiredPassive True DesiredActive True"

definition handover_groups :: "groupRuntime list" where
  "handover_groups = [runtime ''x'' 1 DesiredPassive True ActualPassive, runtime ''y'' 2 DesiredActive True ActualFailed]"

definition handover :: "error option \<times> Controller \<times> mem_etcd world" where
  "handover = applyPriorityPolicy (example_cfg ''manual'') mem_service (example_store handover_items) ''g''
     handover_groups (new_controller, example_world handover_items)"

lemma handover_ok:
  "applyPriorityPolicy (example_cfg ''manual'') mem_service (example_store handover_items) ''g''
     handover_groups (new_controller, example_world handover_items) = (None, fst (snd handover), snd (snd handover))"
proof -
  have "fst handover = None" by code_simp
  then show ?thesis unfolding handover_def [symmetric] by (metis prod.collapse)
qed

text \<open>A readable form of the requests: keys and decoded states.\<close>

definition desired_writes :: "request list \<Rightarrow> (string \<times> DesiredState option) list" where
  "desired_writes rs = concat (map (\<lambda>r. case r of
     ReqPut k b l \<Rightarrow> [(k, map_option d_State (unmarshal_desired b))] | _ \<Rightarrow> []) rs)"

lemma handover_writes:
  "desired_writes (sent (snd (snd handover)))
     = [(Desired ''c'' ''g'' ''x'', Some DesiredActive), (Desired ''c'' ''g'' ''y'', Some DesiredPassive)]"
  by code_simp

lemma desired_writes_mem:
  assumes "(k, Some s) \<in> set (desired_writes rs)"
  shows "\<exists>b l d. ReqPut k b l \<in> set rs \<and> unmarshal_desired b = Some d \<and> d_State d = s"
proof -
  obtain r where r: "r \<in> set rs" "(k, Some s) \<in> set (case r of
      ReqPut k b l \<Rightarrow> [(k, map_option d_State (unmarshal_desired b))] | _ \<Rightarrow> [])"
    using assms unfolding desired_writes_def by auto
  then obtain b l where b: "r = ReqPut k b l" "map_option d_State (unmarshal_desired b) = Some s"
    by (simp add: eq_commute [of "Some s"] split: request.splits) (metis (no_types))
  then obtain d where "unmarshal_desired b = Some d" "d_State d = s" by blast
  then show ?thesis using r(1) b(1) by blast
qed

lemma handover_not_same: "\<not> allSamePriority handover_groups"
  by (simp add: handover_groups_def allSamePriority_def)

theorem policy_keeps_one_active_witness:
  "card {g \<in> set handover_groups. desires (map_of (fst (service_state (snd (snd handover)))))
     (Desired ''c'' ''g'' (gr_ManagementGroup g)) DesiredActive} \<le> 1"
proof -
  have read: "groups_read (example_cfg ''manual'') (example_store handover_items) ''g'' handover_groups
      (map_of (fst (service_state (example_world handover_items))))"
    using example_groups_read by (simp add: handover_items_def handover_groups_def)
  have "{g \<in> set handover_groups. desires (map_of (fst (service_state (example_world handover_items))))
      (group_key (example_cfg ''manual'') ''g'' g) DesiredActive} = {runtime ''y'' 2 DesiredActive True ActualFailed}"
    by (auto simp: handover_groups_def desires_def handover_items_def pair_desired)
  then show ?thesis
    using policy_keeps_one_active [OF mem.etcd_kv_axioms read handover_not_same
        handover_ok] by simp
qed

lemma findCurrentActive_none:
  assumes "\<forall>g \<in> set gs. gr_ManagementGroup g \<noteq> []"
  shows "findCurrentActive gs = [] \<longleftrightarrow>
    (\<forall>g \<in> set gs. \<not> (gr_Desired g = DesiredActive \<and> gr_Managed g) \<and> \<not> (gr_Desired g = DesiredPassive
      \<and> gr_Actual g \<in> {ActualActive, ActualStopping, ActualStarting}))"
  using assms unfolding findCurrentActive_def Let_def
  by (auto simp: find_None_iff split: option.splits dest!: find_SomeD)

lemma findCurrentActive_some:
  assumes "\<forall>g \<in> set gs. gr_ManagementGroup g \<noteq> []" and "findCurrentActive gs \<noteq> []"
  obtains g where "g \<in> set gs" "gr_ManagementGroup g = findCurrentActive gs" "gr_Desired g = DesiredActive" "gr_Managed g"
  | g where "g \<in> set gs" "gr_ManagementGroup g = findCurrentActive gs" "gr_Desired g = DesiredPassive"
      "gr_Actual g \<in> {ActualActive, ActualStopping, ActualStarting}"
  using assms unfolding findCurrentActive_def Let_def
  by (auto simp: find_None_iff split: option.splits if_splits dest!: find_SomeD)

lemma actual_of_distinct:
  assumes "distinct (map gr_ManagementGroup gs)" and "g \<in> set gs"
  shows "actual_of gs (gr_ManagementGroup g) = gr_Actual g"
proof -
  have "find (\<lambda>h. gr_ManagementGroup h = gr_ManagementGroup g) gs = Some g"
    using assms by (induction gs) auto
  then show ?thesis by (simp add: actual_of_def)
qed

lemma mgconfig_not_desired: "marshal_mgconfig x = Some b \<Longrightarrow> unmarshal_desired b = Some d \<Longrightarrow> d_State d = []"
  by (auto simp: marshal_mgconfig_def unmarshal_desired_def read_defs same_field_def lower_def split: bind_splits)

lemma writePriority_sent:
  "\<exists>rs. sent (writePriority cfg svc st cg mg p w) = sent w @ rs \<and> length rs \<le> 1
    \<and> list_all (puts_priority st (cluster_id cfg) cg mg p) rs"
  by (rule writePriority_cases [where cfg = cfg and svc = svc and st = st and cg = cg and mg = mg and p = p and w = w])
    auto

lemma handleAutoFailover_sent:
  fixes w :: "'e world"
  assumes "handleAutoFailover cfg svc st cg gs w = (True, w')"
  shows "\<exists>rs. sent w' = sent w @ rs \<and> (\<forall>r \<in> set rs. \<exists>g \<in> set gs. \<exists>p. swap_write gs g = Some p
    \<and> puts_priority st (cluster_id cfg) cg (gr_ManagementGroup g) p r)"
proof -
  let ?P = "\<lambda>v :: 'e world. \<exists>rs. sent v = sent w @ rs \<and> (\<forall>r \<in> set rs. \<exists>g \<in> set gs. \<exists>p. swap_write gs g = Some p
    \<and> puts_priority st (cluster_id cfg) cg (gr_ManagementGroup g) p r)"
  have "?P (for_each (\<lambda>g w. case swap_write gs g of None \<Rightarrow> w
      | Some p \<Rightarrow> writePriority cfg svc st cg (gr_ManagementGroup g) p w) gs w)"
  proof (rule for_each_invariant)
    fix g and v :: "'e world" assume g: "g \<in> set gs" and v: "?P v"
    show "?P (case swap_write gs g of None \<Rightarrow> v
      | Some p \<Rightarrow> writePriority cfg svc st cg (gr_ManagementGroup g) p v)"
    proof (cases "swap_write gs g")
      case None
      then show ?thesis using v by simp
    next
      case (Some p)
      obtain qs where qs: "sent (writePriority cfg svc st cg (gr_ManagementGroup g) p v) = sent v @ qs"
        "\<forall>r \<in> set qs. puts_priority st (cluster_id cfg) cg (gr_ManagementGroup g) p r"
        using writePriority_sent [of cfg svc st cg "gr_ManagementGroup g" p v] by (auto simp: list_all_iff)
      obtain rs where rs: "sent v = sent w @ rs" "\<forall>r \<in> set rs. \<exists>g \<in> set gs. \<exists>p. swap_write gs g = Some p
          \<and> puts_priority st (cluster_id cfg) cg (gr_ManagementGroup g) p r" using v by blast
      have "\<forall>r \<in> set (rs @ qs). \<exists>g \<in> set gs. \<exists>p. swap_write gs g = Some p
          \<and> puts_priority st (cluster_id cfg) cg (gr_ManagementGroup g) p r"
        using qs(2) rs(2) g Some by auto
      then show ?thesis using qs(1) rs(1) Some by (intro exI [of _ "rs @ qs"]) simp
    qed
  qed simp
  then show ?thesis using handleAutoFailover_yes(1) [OF assms] by simp
qed

lemma policy_swap:
  assumes "applyPriorityPolicy cfg svc st cg gs (c, w) = (err, c', w')" and "swaps cfg svc st cg gs w"
  shows "handleAutoFailover cfg svc st cg gs w = (True, w') \<and> err = None \<and> c' = c"
proof -
  have "gs \<noteq> []" using assms(2) by (auto simp: swaps_def handleAutoFailover_def)
  then show ?thesis
    using assms by (cases "handleAutoFailover cfg svc st cg gs w") (auto simp: swaps_def applyPriorityPolicy_def)
qed

text \<open>
  C2: an activation is the second phase of a switchover. Whatever the policy is given, if it
  asks etcd to store a desired document with state active in an active-passive cluster group,
  the document is that of the best managed and available group, and either a managed group
  told to be active is known to be passive or failed (the hand-over), or no group is told to
  be active by the controller, none that is told to be passive still runs, and this leader
  drained the previous owner for this very target.
\<close>

theorem activation_needs_drained_owner:
  assumes "\<forall>g \<in> set gs. gr_ManagementGroup g \<noteq> []" and "distinct (map gr_ManagementGroup gs)"
    and "\<not> allSamePriority gs"
    and "applyPriorityPolicy cfg svc st cg gs (c, w) = (err, c', w')"
    and "sent w' = sent w @ rs" and "ReqPut k b l \<in> set rs"
    and "unmarshal_desired b = Some d" and "d_State d = DesiredActive"
  shows "\<exists>t \<in> set gs. k = Desired (cluster_id cfg) (gr_ClusterGroup t) (gr_ManagementGroup t)
    \<and> gr_Managed t \<and> gr_Available t
    \<and> (\<forall>g \<in> set gs. gr_Managed g \<and> gr_Available g \<longrightarrow> gr_Priority t \<le> gr_Priority g)
    \<and> ((\<exists>g \<in> set gs. gr_Managed g \<and> gr_Desired g = DesiredActive \<and> gr_Actual g \<in> {ActualPassive, ActualFailed})
      \<or> ((\<forall>g \<in> set gs. \<not> (gr_Managed g \<and> gr_Desired g = DesiredActive)
            \<and> \<not> (gr_Desired g = DesiredPassive \<and> gr_Actual g \<in> {ActualActive, ActualStopping, ActualStarting}))
          \<and> switchoverTarget c cg = Some (gr_ManagementGroup t)))"
proof (cases "swaps cfg svc st cg gs w")
  case True
  obtain rs' where "sent w' = sent w @ rs'" "\<forall>r \<in> set rs'. \<exists>g \<in> set gs. \<exists>p. swap_write gs g = Some p
      \<and> puts_priority st (cluster_id cfg) cg (gr_ManagementGroup g) p r"
    using policy_swap [OF assms(4) True] handleAutoFailover_sent by metis
  then have "\<exists>x. marshal_mgconfig x = Some b" using assms(5,6) by (fastforce simp: puts_priority_def)
  then show ?thesis using mgconfig_not_desired assms(7,8) by fastforce
next
  case False
  obtain w1 where "write_plan cfg svc st (plan c cg gs) w = (err, w1)" "sent w' = sent w1"
    using policy_plan [OF assms(4) False] by blast
  then have "\<exists>(g, m, s) \<in> set (plan c cg gs). puts_desired (cluster_id cfg) g m s (ReqPut k b l)"
    using write_plan_sent [of cfg svc st "plan c cg gs" w err w1] assms(5,6) by auto
  then obtain g m where gm: "(g, m, DesiredActive) \<in> set (plan c cg gs)" "k = Desired (cluster_id cfg) g m"
    using assms(7,8) by (auto simp: puts_desired_def)
  have active: "(g, m, DesiredActive) \<notin> set (passive_others t gs)" for t by (auto simp: passive_others_def)
  from assms(3) show ?thesis
  proof (cases rule: plan_cases [of gs c cg])
    case (activate t)
    have t: "gr_ClusterGroup t = g" "gr_ManagementGroup t = m" using gm(1) activate(4) active by auto
    note spec = findTarget_spec [OF activate(1)]
    let ?cur = "findCurrentActive gs"
    have "(\<exists>g \<in> set gs. gr_Managed g \<and> gr_Desired g = DesiredActive \<and> gr_Actual g \<in> {ActualPassive, ActualFailed})"
      if cur: "?cur \<noteq> []"
      using assms(1) cur
    proof (cases rule: findCurrentActive_some)
      case (1 g)
      then show ?thesis using activate(2) actual_of_distinct [OF assms(2), of g] cur by (auto simp: draining_def)
    next
      case (2 g)
      then show ?thesis using activate(2) actual_of_distinct [OF assms(2), of g] cur by (auto simp: draining_def)
    qed
    moreover have "switchoverTarget c cg = Some (gr_ManagementGroup t)" if "?cur = []"
      using activate(3) that spec assms(1) by (auto simp: go_index_def split: option.splits)
    ultimately show ?thesis
      using spec t gm(2) findCurrentActive_none [OF assms(1)] by (intro bexI [of _ t]) blast+
  qed (use gm(1) active in auto)
qed

theorem activation_needs_drained_owner_witness:
  "\<exists>t \<in> set handover_groups. Desired ''c'' ''g'' ''x'' = Desired ''c'' (gr_ClusterGroup t) (gr_ManagementGroup t)
     \<and> gr_Managed t \<and> gr_Available t"
proof -
  obtain b l d where w: "ReqPut (Desired ''c'' ''g'' ''x'') b l \<in> set (sent (snd (snd handover)))"
      "unmarshal_desired b = Some d" "d_State d = DesiredActive"
    using desired_writes_mem [of "Desired ''c'' ''g'' ''x''" DesiredActive "sent (snd (snd handover))"] handover_writes
    by auto
  have "sent (snd (snd handover)) = sent (example_world handover_items) @ sent (snd (snd handover))"
    by (simp add: example_world_def)
  from activation_needs_drained_owner [OF _ _ handover_not_same handover_ok this w] show ?thesis
    by (auto simp: handover_groups_def)
qed

section \<open>Progress of the switchover\<close>

lemma applyPriorityPolicy_switchover:
  assumes "\<not> allSamePriority gs" and "\<not> swaps cfg svc st cg gs w" and "findTarget gs = Some t"
  shows "applyPriorityPolicy cfg svc st cg gs (c, w) = switchover cfg svc st cg gs t (c, w)"
proof -
  have "gs \<noteq> []" using assms(1) by (auto simp: allSamePriority_def)
  moreover have "(if FailoverMode (Cluster cfg) = ''automatic'' then handleAutoFailover cfg svc st cg gs w else (False, w))
      = (False, w)"
    using assms(2) handleAutoFailover_no [of cfg svc st cg gs w]
    by (cases "handleAutoFailover cfg svc st cg gs w") (auto simp: swaps_def)
  ultimately show ?thesis using assms by (simp add: applyPriorityPolicy_def)
qed

text \<open>
  The two phases add up. If in one cycle the owner has to be drained and its timer is not
  running, and in a later cycle of the same leader no group is told to be active or still runs
  and the same target is still the best, then the first cycle only tells the owner to be
  passive, and the later one, when it ends without an error, tells the target to be active
  before it does anything else, and forgets the switchover.
\<close>

theorem switchover_completes:
  assumes "\<not> allSamePriority gs1" and "\<not> swaps cfg svc st1 cg gs1 w" and "findTarget gs1 = Some t1"
    and "draining gs1" and "findCurrentActive gs1 \<noteq> gr_ManagementGroup t1"
    and "switchoverStarted c (cg @ ''/'' @ findCurrentActive gs1) = None"
    and "applyPriorityPolicy cfg svc st1 cg gs1 (c, w) = (None, c1, w1)"
    and "\<not> allSamePriority gs2" and "\<not> swaps cfg svc st2 cg gs2 w2" and "findTarget gs2 = Some t2"
    and "gr_ManagementGroup t2 = gr_ManagementGroup t1" and "findCurrentActive gs2 = []"
    and "gr_ManagementGroup t2 \<noteq> []"
    and "\<not> desired_agrees st2 (Desired (cluster_id cfg) (gr_ClusterGroup t2) (gr_ManagementGroup t2)) DesiredActive"
    and "applyPriorityPolicy cfg svc st2 cg gs2 (c1, w2) = (None, c2, w3)"
  shows "(\<exists>rs. sent w1 = sent w @ rs
      \<and> list_all (puts_desired (cluster_id cfg) cg (findCurrentActive gs1) DesiredPassive) rs)
    \<and> (\<exists>r rs. sent w3 = sent w2 @ r # rs
      \<and> puts_desired (cluster_id cfg) (gr_ClusterGroup t2) (gr_ManagementGroup t2) DesiredActive r)
    \<and> switchoverTarget c2 cg = None"
proof -
  let ?cur = "findCurrentActive gs1"
  obtain u where u: "writeDesiredIfChanged cfg svc st1 cg ?cur DesiredPassive w = (None, u)"
    and c1: "(c1, w1) = note_switchover cfg cg ?cur (gr_ManagementGroup t1) (c, u)"
    using assms(7) unfolding applyPriorityPolicy_switchover [OF assms(1-3)] switchover_drain [OF assms(5,4)]
    by (auto split: prod.splits option.splits)
  have one: "switchoverTarget c1 cg = Some (gr_ManagementGroup t1)" "sent w1 = sent u"
    using c1 assms(6) by (auto simp: note_switchover_def now_def Let_def)
  have nd: "\<not> draining gs2" using assms(12) by (simp add: draining_def)
  have ph2: "findCurrentActive gs2 \<noteq> gr_ManagementGroup t2"
      "findCurrentActive gs2 \<noteq> [] \<or> go_index (switchoverTarget c1) [] cg = gr_ManagementGroup t2"
    using assms(11-13) one(1) by (auto simp: go_index_def)
  obtain r v where rv: "writeDesiredIfChanged cfg svc st2 (gr_ClusterGroup t2) (gr_ManagementGroup t2) DesiredActive w2
      = (r, v)" by fastforce
  obtain r' v' where rv': "write_others_passive cfg svc st2 (gr_ManagementGroup t2) gs2 v = (r', v')" by fastforce
  obtain c0 where c0: "switchoverTarget c0 cg = None"
      "switchover cfg svc st2 cg gs2 t2 (c1, w2) = (case r of Some err \<Rightarrow> (Some err, c0, v) | None \<Rightarrow> (r', c0, v'))"
    using switchover_activate [OF ph2(1) nd ph2(2), of cfg svc st2 w2]
    by (cases r) (auto simp: rv rv' simp del: DesiredActive_def)
  then have v: "switchoverTarget c2 cg = None"
      "writeDesiredIfChanged cfg svc st2 (gr_ClusterGroup t2) (gr_ManagementGroup t2) DesiredActive w2 = (None, v)"
      "write_others_passive cfg svc st2 (gr_ManagementGroup t2) gs2 v = (None, w3)"
    using assms(15) rv rv' unfolding applyPriorityPolicy_switchover [OF assms(8-10)] by (auto split: option.splits)
  obtain rs where rs: "sent v = sent w2 @ rs" "rs \<noteq> []"
      "list_all (puts_desired (cluster_id cfg) (gr_ClusterGroup t2) (gr_ManagementGroup t2) DesiredActive) rs"
    using writeDesired_sent(2) [OF v(2)] assms(14) by auto
  obtain qs where qs: "sent w3 = sent v @ qs"
    using write_plan_sent v(3) unfolding write_others_passive_plan by blast
  show ?thesis
    using writeDesired_sent(1) [OF u] one(2) v(1) rs qs by (cases rs) auto
qed

text \<open>The owner \<open>y\<close> drains for \<open>x\<close>, then has drained.\<close>

definition drain_items :: "DesiredState \<Rightarrow> (entity \<times> bytes) list" where
  "drain_items dy = pair_items DesiredPassive True dy True"

definition drain_groups :: "DesiredState \<Rightarrow> ActualState \<Rightarrow> groupRuntime list" where
  "drain_groups dy ay = [runtime ''x'' 1 DesiredPassive True ActualPassive, runtime ''y'' 2 dy True ay]"

definition cycle1 :: "error option \<times> Controller \<times> mem_etcd world" where
  "cycle1 = applyPriorityPolicy (example_cfg ''manual'') mem_service (example_store (drain_items DesiredActive)) ''g''
     (drain_groups DesiredActive ActualActive) (new_controller, example_world (drain_items DesiredActive))"

definition cycle2 :: "error option \<times> Controller \<times> mem_etcd world" where
  "cycle2 = applyPriorityPolicy (example_cfg ''manual'') mem_service (example_store (drain_items DesiredPassive)) ''g''
     (drain_groups DesiredPassive ActualPassive) (snd cycle1)"

lemma drain_groups_facts:
  "\<not> allSamePriority (drain_groups dy ay)"
  "findTarget (drain_groups dy ay) = Some (runtime ''x'' 1 DesiredPassive True ActualPassive)"
  "findCurrentActive (drain_groups DesiredActive ay) = ''y''"
  "findCurrentActive (drain_groups DesiredPassive ActualPassive) = []"
  "draining (drain_groups DesiredActive ActualActive)"
  by (simp_all add: drain_groups_def allSamePriority_def findTarget_def findCurrentActive_def draining_def actual_of_def)

lemma manual_swaps: "\<not> swaps (example_cfg ''manual'') svc st cg gs w"
  by (simp add: swaps_def)

lemma cycles_ok:
  "applyPriorityPolicy (example_cfg ''manual'') mem_service (example_store (drain_items DesiredActive)) ''g''
     (drain_groups DesiredActive ActualActive) (new_controller, example_world (drain_items DesiredActive))
   = (None, fst (snd cycle1), snd (snd cycle1))"
  "applyPriorityPolicy (example_cfg ''manual'') mem_service (example_store (drain_items DesiredPassive)) ''g''
     (drain_groups DesiredPassive ActualPassive) (fst (snd cycle1), snd (snd cycle1))
   = (None, fst (snd cycle2), snd (snd cycle2))"
proof -
  have "fst cycle1 = None" by code_simp
  then show "applyPriorityPolicy (example_cfg ''manual'') mem_service (example_store (drain_items DesiredActive)) ''g''
     (drain_groups DesiredActive ActualActive) (new_controller, example_world (drain_items DesiredActive))
   = (None, fst (snd cycle1), snd (snd cycle1))" unfolding cycle1_def [symmetric] by (metis prod.collapse)
  have "fst cycle2 = None" by code_simp
  then show "applyPriorityPolicy (example_cfg ''manual'') mem_service (example_store (drain_items DesiredPassive)) ''g''
     (drain_groups DesiredPassive ActualPassive) (fst (snd cycle1), snd (snd cycle1))
   = (None, fst (snd cycle2), snd (snd cycle2))" unfolding prod.collapse cycle2_def [symmetric] by (metis prod.collapse)
qed

theorem switchover_completes_witness:
  "\<exists>r rs. sent (snd (snd cycle2)) = sent (snd (snd cycle1)) @ r # rs \<and> puts_desired ''c'' ''g'' ''x'' DesiredActive r"
proof -
  have dis: "\<not> desired_agrees (example_store (drain_items DesiredPassive)) (Desired ''c'' ''g'' ''x'') DesiredActive"
    by (simp add: desired_agrees_def drain_items_def pair_desired)
  show ?thesis
    using switchover_completes [OF drain_groups_facts(1) manual_swaps drain_groups_facts(2) drain_groups_facts(5) _ _
        cycles_ok(1) drain_groups_facts(1) manual_swaps drain_groups_facts(2) _ drain_groups_facts(4) _ _ cycles_ok(2)] dis
      drain_groups_facts(3) [of ActualActive]
    by (simp add: new_controller_def)
qed

text \<open>
  C12: the switchover is lost when the leader changes. A leader that starts with no recorded
  target, in a cluster group where no group is told to be active and none that is told to be
  passive still runs, sends nothing and records nothing, however often it runs the policy and
  whatever groups are available: a cluster group that the previous leader had drained for a
  switchover stays without an active group.
\<close>

theorem drained_group_stays_passive:
  assumes "\<not> allSamePriority gs" and "\<not> swaps cfg svc st cg gs w"
    and "\<forall>g \<in> set gs. gr_ManagementGroup g \<noteq> []"
    and "\<forall>g \<in> set gs. \<not> (gr_Managed g \<and> gr_Desired g = DesiredActive)"
    and "\<forall>g \<in> set gs. gr_Desired g = DesiredPassive \<longrightarrow> gr_Actual g \<notin> {ActualActive, ActualStopping, ActualStarting}"
  shows "applyPriorityPolicy cfg svc st cg gs (new_controller, w) = (None, new_controller, w)"
proof (cases "findTarget gs")
  case None
  then have "plan new_controller cg gs = []" using assms(1) by (simp add: plan_def)
  moreover have "gs \<noteq> []" using assms(1) by (auto simp: allSamePriority_def)
  moreover have "(if FailoverMode (Cluster cfg) = ''automatic'' then handleAutoFailover cfg svc st cg gs w else (False, w))
      = (False, w)"
    using assms(2) handleAutoFailover_no [of cfg svc st cg gs w]
    by (cases "handleAutoFailover cfg svc st cg gs w") (auto simp: swaps_def)
  ultimately show ?thesis using None assms(1) by (simp add: applyPriorityPolicy_def)
next
  case (Some t)
  have cur: "findCurrentActive gs = []" using findCurrentActive_none [OF assms(3)] assms(4,5) by blast
  moreover have "gr_ManagementGroup t \<noteq> []" using findTarget_spec [OF Some] assms(3) by blast
  ultimately show ?thesis
    unfolding applyPriorityPolicy_switchover [OF assms(1,2) Some]
    by (intro switchover_guard) (auto simp: go_index_def new_controller_def)
qed

theorem drained_group_stays_passive_witness:
  "applyPriorityPolicy (example_cfg ''manual'') mem_service (example_store (drain_items DesiredPassive)) ''g''
     (drain_groups DesiredPassive ActualPassive) (new_controller, example_world (drain_items DesiredPassive))
   = (None, new_controller, example_world (drain_items DesiredPassive))"
  by (rule drained_group_stays_passive [OF drain_groups_facts(1) manual_swaps]) (simp_all add: drain_groups_def)

section \<open>Groups that are not managed\<close>

text \<open>
  The secondary signal takes an unmanaged group over. If the owner the policy finds is a
  group that an administrator took out of management while its services still run, the cycle
  stores a desired document for it with managed set.
\<close>

theorem unmanaged_group_taken_over:
  assumes "\<not> allSamePriority gs" and "\<not> swaps cfg svc st cg gs w" and "findTarget gs = Some t"
    and "distinct (map gr_ManagementGroup gs)" and "g \<in> set gs" and "\<not> gr_Managed g"
    and "gr_ManagementGroup g = findCurrentActive gs" and "gr_ManagementGroup g \<noteq> []"
    and "gr_Actual g \<in> {ActualActive, ActualStopping, ActualStarting}"
    and "(gr_Desired g, gr_Managed g) = readDesired cfg st cg (gr_ManagementGroup g)"
    and "applyPriorityPolicy cfg svc st cg gs (c, w) = (None, c', w')"
  shows "\<exists>r. sent w' = sent w @ [r] \<and> puts_desired (cluster_id cfg) cg (gr_ManagementGroup g) DesiredPassive r"
proof -
  let ?k = "Desired (cluster_id cfg) cg (gr_ManagementGroup g)"
  have drain: "draining gs"
    using assms(7-9) actual_of_distinct [OF assms(4,5)] by (auto simp: draining_def)
  have "gr_Managed t" using findTarget_spec [OF assms(3)] by simp
  then have ne: "findCurrentActive gs \<noteq> gr_ManagementGroup t"
    using assms(3-7) findTarget_spec [OF assms(3)] by (auto simp: distinct_map dest: inj_onD)
  have dis: "\<not> desired_agrees st ?k DesiredPassive"
    using assms(6,10) by (auto simp: desired_agrees_def readDesired_def split: option.splits bind_splits)
  obtain u where u: "writeDesiredIfChanged cfg svc st cg (gr_ManagementGroup g) DesiredPassive w = (None, u)"
    and n: "(c', w') = note_switchover cfg cg (gr_ManagementGroup g) (gr_ManagementGroup t) (c, u)"
    using assms(11) unfolding applyPriorityPolicy_switchover [OF assms(1-3)] switchover_drain [OF ne drain] assms(7)
    by (auto split: prod.splits option.splits)
  show ?thesis
    using u
  proof (cases rule: writeDesired_cases)
    case (put b)
    then show ?thesis using note_switchover_eqs [OF n [symmetric]] Put_sent [OF put(2)] by auto
  qed (use dis in simp_all)
qed

definition unmanaged_items :: "(entity \<times> bytes) list" where
  "unmanaged_items = pair_items DesiredPassive True DesiredPassive False"

definition unmanaged_groups :: "groupRuntime list" where
  "unmanaged_groups = [runtime ''x'' 1 DesiredPassive True ActualPassive, runtime ''y'' 2 DesiredPassive False ActualActive]"

definition takeover :: "error option \<times> Controller \<times> mem_etcd world" where
  "takeover = applyPriorityPolicy (example_cfg ''manual'') mem_service (example_store unmanaged_items) ''g''
     unmanaged_groups (new_controller, example_world unmanaged_items)"

lemma takeover_ok:
  "applyPriorityPolicy (example_cfg ''manual'') mem_service (example_store unmanaged_items) ''g''
     unmanaged_groups (new_controller, example_world unmanaged_items) = (None, fst (snd takeover), snd (snd takeover))"
proof -
  have "fst takeover = None" by code_simp
  then show ?thesis unfolding takeover_def [symmetric] by (metis prod.collapse)
qed

theorem unmanaged_group_taken_over_witness:
  "\<exists>r. sent (snd (snd takeover)) = [r] \<and> puts_desired ''c'' ''g'' ''y'' DesiredPassive r"
proof -
  have "\<not> allSamePriority unmanaged_groups"
    "findTarget unmanaged_groups = Some (runtime ''x'' 1 DesiredPassive True ActualPassive)"
    by (simp_all add: unmanaged_groups_def allSamePriority_def findTarget_def)
  from unmanaged_group_taken_over [OF this(1) manual_swaps this(2) _ _ _ _ _ _ _ takeover_ok,
      of "runtime ''y'' 2 DesiredPassive False ActualActive"]
  show ?thesis
    by (simp add: unmanaged_groups_def findCurrentActive_def readDesired_def unmanaged_items_def pair_desired
        example_world_def)
qed

section \<open>Automatic failover\<close>

lemma min_priority_from:
  assumes "0 \<le> p" and "\<forall>g \<in> set gs. 0 \<le> gr_Priority g"
  shows "min_priority p gs = Min (insert p (gr_Priority ` set gs))"
  using assms
proof (induction gs arbitrary: p)
  case Nil
  then show ?case by simp
next
  case (Cons g gs)
  have "min_priority p (g # gs) = min_priority (min (gr_Priority g) p) gs"
    using Cons.prems(1) by (simp add: min_def)
  also have "\<dots> = Min (insert (min (gr_Priority g) p) (gr_Priority ` set gs))"
    using Cons by simp
  also have "\<dots> = Min (insert p (gr_Priority ` set (g # gs)))"
    by (cases "gs = []") (simp_all add: min.commute min.left_commute min.assoc)
  finally show ?case .
qed

lemma min_priority_Min:
  assumes "\<forall>g \<in> set gs. 0 \<le> gr_Priority g" and "gs \<noteq> []"
  shows "min_priority (-1) gs = Min (gr_Priority ` set gs)"
proof -
  obtain x xs where gs: "gs = x # xs" using assms(2) by (cases gs) auto
  then show ?thesis using assms(1) min_priority_from [of "gr_Priority x" xs] by simp
qed

lemma min_priority_least:
  assumes "\<forall>g \<in> set gs. 0 \<le> gr_Priority g" and "g \<in> set gs" and "\<forall>h \<in> set gs. gr_Priority g \<le> gr_Priority h"
  shows "min_priority (-1) gs = gr_Priority g"
proof -
  have "gs \<noteq> []" using assms(2) by auto
  then show ?thesis
    using assms by (simp add: min_priority_Min) (intro Min_eqI; auto)
qed

lemma swaps_iff:
  assumes "\<forall>g \<in> set gs. 0 \<le> gr_Priority g"
  shows "fst (handleAutoFailover cfg svc st cg gs w) \<longleftrightarrow>
    (\<exists>g \<in> set gs. gr_Managed g \<and> \<not> gr_Available g \<and> (\<forall>h \<in> set gs. gr_Priority g \<le> gr_Priority h))
    \<and> (\<exists>g \<in> set gs. gr_Available g)"
proof (cases "gs = []")
  case True
  then show ?thesis by (simp add: handleAutoFailover_def)
next
  case False
  let ?m = "min_priority (-1) gs" and ?n = "min_priority (-1) (filter gr_Available gs)"
  have m: "?m = Min (gr_Priority ` set gs)" using min_priority_Min [OF assms False] .
  then have m0: "0 \<le> ?m" using assms False by simp
  have n: "0 \<le> ?n \<longleftrightarrow> (\<exists>g \<in> set gs. gr_Available g)"
  proof (cases "filter gr_Available gs = []")
    case True
    then show ?thesis by (simp add: filter_empty_conv)
  next
    case ne: False
    then have "?n = Min (gr_Priority ` set (filter gr_Available gs))"
      using assms by (intro min_priority_Min) auto
    moreover have "set (filter gr_Available gs) \<noteq> {}" using ne by (metis set_empty)
    ultimately have "0 \<le> ?n" using assms by (simp del: set_filter) simp
    then show ?thesis using ne by (auto simp: filter_empty_conv)
  qed
  have top: "gr_Priority g = ?m \<longleftrightarrow> (\<forall>h \<in> set gs. gr_Priority g \<le> gr_Priority h)" if "g \<in> set gs" for g
    unfolding m using that by (auto intro!: Min_eqI [symmetric])
  have "fst (handleAutoFailover cfg svc st cg gs w) \<longleftrightarrow>
      (\<exists>g \<in> set gs. gr_Priority g = ?m \<and> \<not> gr_Available g \<and> gr_Managed g) \<and> 0 \<le> ?n"
    using m0 by (auto simp: handleAutoFailover_def Let_def list_ex_iff)
  then show ?thesis using top n by blast
qed

text \<open>
  With equal priorities automatic failover does nothing and stops the policy. When the
  best priority is shared by a managed group that failed and an available one, the swap
  exchanges equal priorities: no request is made, and the policy returns as if it had written,
  in every cycle for as long as the first group stays failed.
\<close>

theorem equal_priority_failover_stuck:
  assumes "FailoverMode (Cluster cfg) = ''automatic''" and "\<forall>g \<in> set gs. 0 \<le> gr_Priority g"
    and "\<forall>g \<in> set gs. \<exists>doc. stored_mgconfig st (cluster_id cfg) cg (gr_ManagementGroup g) = Some doc
      \<and> mgc_Priority doc = gr_Priority g"
    and "a \<in> set gs" and "gr_Managed a" and "\<not> gr_Available a" and "\<forall>g \<in> set gs. gr_Priority a \<le> gr_Priority g"
    and "b \<in> set gs" and "gr_Available b" and "gr_Priority b = gr_Priority a"
  shows "applyPriorityPolicy cfg svc st cg gs (c, w) = (None, c, w)"
proof -
  obtain w' where yes: "handleAutoFailover cfg svc st cg gs w = (True, w')"
    using swaps_iff [OF assms(2)] assms(4-9) by (metis prod.collapse)
  have m: "min_priority (-1) gs = gr_Priority a" by (rule min_priority_least) (use assms in auto)
  have n: "min_priority (-1) (filter gr_Available gs) = gr_Priority b"
    by (rule min_priority_least) (use assms in auto)
  have same: "swap_write gs g \<in> {None, Some (gr_Priority g)}" for g
    by (auto simp: swap_write_def m n assms(10) Let_def)
  have "writePriority cfg svc st cg (gr_ManagementGroup g) (gr_Priority g) v = v" if "g \<in> set gs" for g v
    using assms(3) that by (auto simp: writePriority_stored)
  then have step: "(case swap_write gs g of None \<Rightarrow> v
      | Some p \<Rightarrow> writePriority cfg svc st cg (gr_ManagementGroup g) p v) = v" if "g \<in> set gs" for g v
    using same [of g] that by auto
  have "for_each (\<lambda>g w. case swap_write gs g of None \<Rightarrow> w
      | Some p \<Rightarrow> writePriority cfg svc st cg (gr_ManagementGroup g) p w) gs w = w"
    by (rule for_each_invariant [where P = "\<lambda>v. v = w"]) (simp_all add: step)
  then have "w' = w" using handleAutoFailover_yes(1) [OF yes] by simp
  moreover have "gs \<noteq> []" using assms(4) by auto
  ultimately show ?thesis using yes assms(1) by (simp add: applyPriorityPolicy_def)
qed

definition tie_items :: "(entity \<times> bytes) list" where
  "tie_items = [(EGroupConfig ''g'' ''x'', priority_json 1), (EGroupConfig ''g'' ''y'', priority_json 1)]"

definition tie_groups :: "groupRuntime list" where
  "tie_groups = [runtime ''x'' 1 DesiredActive True ActualFailed, runtime ''y'' 1 DesiredPassive True ActualPassive]"

theorem equal_priority_failover_stuck_witness:
  "applyPriorityPolicy (example_cfg ''automatic'') mem_service (example_store tie_items) ''g'' tie_groups
     (new_controller, example_world tie_items) = (None, new_controller, example_world tie_items)"
proof -
  have i: "\<forall>(e, b) \<in> set tie_items. entity_strict e" "distinct (map fst tie_items)"
    by (simp_all add: tie_items_def entity_ok_defs)
  have "Get (example_store tie_items) (ManagementGroupConfig ''c'' ''g'' m) = Some (priority_json 1)"
    if "m = ''x'' \<or> m = ''y''" for m
    using Get_example [OF i, of "EGroupConfig ''g'' m"] that by (auto simp: entity_ok_defs tie_items_def priority_json_def)
  then have docs: "\<forall>g \<in> set tie_groups. \<exists>doc. stored_mgconfig (example_store tie_items) (cluster_id (example_cfg ''automatic''))
      ''g'' (gr_ManagementGroup g) = Some doc \<and> mgc_Priority doc = gr_Priority g"
    by (simp add: tie_groups_def stored_mgconfig_def int64_def)
  show ?thesis
    by (rule equal_priority_failover_stuck [OF _ _ docs, where a = "runtime ''x'' 1 DesiredActive True ActualFailed"
          and b = "runtime ''y'' 1 DesiredPassive True ActualPassive"])
      (simp_all add: tie_groups_def)
qed

text \<open>The priority document a key space holds.\<close>

definition config_at :: "(string \<rightharpoonup> bytes) \<Rightarrow> string \<Rightarrow> ManagementGroupConfigDocument option" where
  "config_at m key = Option.bind (m key) unmarshal_mgconfig"

abbreviation config_key :: "Config \<Rightarrow> string \<Rightarrow> groupRuntime \<Rightarrow> string" where
  "config_key cfg cg g \<equiv> ManagementGroupConfig (cluster_id cfg) cg (gr_ManagementGroup g)"

lemma clock_writePriority: "clock (writePriority cfg svc st cg mg p w) = clock w"
  by (auto simp: writePriority_def Let_def now_def split: option.splits)

context etcd_kv
begin

lemma writePriority_effect:
  assumes "puts_succeed svc" and "clock_ok w" and "int64 p"
    and "config_at (kv (service_state w)) (ManagementGroupConfig (cluster_id cfg) cg mg) = Some doc"
    and "stored_mgconfig st (cluster_id cfg) cg mg = Some doc"
  shows "\<exists>doc'. config_at (kv (service_state (writePriority cfg svc st cg mg p w)))
        (ManagementGroupConfig (cluster_id cfg) cg mg) = Some doc'
      \<and> mgc_Priority doc' = p \<and> mgc_Roles doc' = mgc_Roles doc"
proof (cases "mgc_Priority doc = p")
  case True
  then have "writePriority cfg svc st cg mg p w = w"
    by (simp add: writePriority_stored [OF assms(5)])
  then show ?thesis using assms(4) True by simp
next
  case False
  let ?k = "ManagementGroupConfig (cluster_id cfg) cg mg"
  let ?doc = "doc\<lparr>mgc_Priority := p, mgc_UpdatedAt := clock w (ticks w)\<rparr>"
  obtain b where b: "marshal_mgconfig ?doc = Some b"
    using mgconfig.total [of ?doc] assms(2) by (auto simp: clock_ok_def)
  then have "unmarshal_mgconfig b = Some ?doc" using mgconfig.roundtrip [of ?doc b] assms(3) by simp
  moreover have "writePriority cfg svc st cg mg p w = snd (Put svc ?k b 0 (snd (now w)))"
    using False b by (simp add: writePriority_stored [OF assms(5)])
  moreover have "kv (service_state (snd (Put svc ?k b 0 (snd (now w))))) ?k = Some b"
    using Put_ok [of ?k b 0 "snd (now w)"] puts_succeed_Put [OF assms(1), of ?k b 0 "snd (now w)"]
    by (cases "Put svc ?k b 0 (snd (now w))") simp
  ultimately show ?thesis by (simp add: config_at_def)
qed

lemma swap_effect:
  fixes w :: "'e world"
  assumes "puts_succeed svc" and "clock_ok w" and "distinct (map (config_key cfg cg) gs)"
    and "\<forall>g \<in> set gs. \<exists>doc. stored_mgconfig st (cluster_id cfg) cg (gr_ManagementGroup g) = Some doc
      \<and> config_at (kv (service_state w)) (config_key cfg cg g) = Some doc"
    and "\<forall>g \<in> set gs. \<forall>p. F g = Some p \<longrightarrow> int64 p"
    and "g \<in> set gs"
  shows "\<exists>doc doc'. config_at (kv (service_state w)) (config_key cfg cg g) = Some doc
    \<and> config_at (kv (service_state (for_each (\<lambda>g w. case F g of None \<Rightarrow> w
        | Some p \<Rightarrow> writePriority cfg svc st cg (gr_ManagementGroup g) p w) gs w))) (config_key cfg cg g) = Some doc'
    \<and> mgc_Roles doc' = mgc_Roles doc
    \<and> mgc_Priority doc' = (case F g of None \<Rightarrow> mgc_Priority doc | Some p \<Rightarrow> p)"
  using assms
proof (induction gs arbitrary: w)
  case Nil
  then show ?case by simp
next
  case (Cons x xs)
  define f where "f = (\<lambda>g w. case F g of None \<Rightarrow> w
        | Some p \<Rightarrow> writePriority cfg svc st cg (gr_ManagementGroup g) p w)"
  have other: "kv (service_state (f x w)) k = kv (service_state w) k" if "k \<noteq> config_key cfg cg x" for k x w
    using that writePriority_kv by (auto simp: f_def split: option.splits)
  have nin: "config_key cfg cg x \<notin> set (map (config_key cfg cg) xs)" using Cons.prems(3) by simp
  have clk: "clock_ok (f x w)" using Cons.prems(2) by (auto simp: f_def clock_ok_def clock_writePriority split: option.splits)
  have rest: "\<forall>g \<in> set xs. \<exists>doc. stored_mgconfig st (cluster_id cfg) cg (gr_ManagementGroup g) = Some doc
      \<and> config_at (kv (service_state (f x w))) (config_key cfg cg g) = Some doc"
    using Cons.prems(3,4) other by (auto simp: config_at_def) (metis (no_types) image_eqI)
  show ?case
  proof (cases "g = x")
    case False
    then have g: "g \<in> set xs" using Cons.prems(6) by simp
    then have "config_key cfg cg g \<in> set (map (config_key cfg cg) xs)" by simp
    then have "config_key cfg cg g \<noteq> config_key cfg cg x" using nin by metis
    from other [OF this] have "config_at (kv (service_state (f x w))) (config_key cfg cg g)
        = config_at (kv (service_state w)) (config_key cfg cg g)" by (simp add: config_at_def)
    then show ?thesis
      using Cons.IH [OF Cons.prems(1) clk _ rest _ g] Cons.prems(3,5) by (simp add: f_def [symmetric])
  next
    case True
    obtain doc where doc: "stored_mgconfig st (cluster_id cfg) cg (gr_ManagementGroup x) = Some doc"
      "config_at (kv (service_state w)) (config_key cfg cg x) = Some doc" using Cons.prems(4) by auto
    have "\<exists>doc'. config_at (kv (service_state (f x w))) (config_key cfg cg x) = Some doc'
        \<and> mgc_Roles doc' = mgc_Roles doc \<and> mgc_Priority doc' = (case F x of None \<Rightarrow> mgc_Priority doc | Some p \<Rightarrow> p)"
      using writePriority_effect [OF Cons.prems(1,2) _ doc(2,1)] Cons.prems(5) doc by (fastforce simp: f_def split: option.splits)
    moreover have "kv (service_state (for_each f xs (f x w))) (config_key cfg cg x) = kv (service_state (f x w)) (config_key cfg cg x)"
    proof (rule for_each_invariant [where P = "\<lambda>v. kv (service_state v) (config_key cfg cg x) = kv (service_state (f x w)) (config_key cfg cg x)"])
      fix y and v :: "'e world" assume "y \<in> set xs" and "kv (service_state v) (config_key cfg cg x) = kv (service_state (f x w)) (config_key cfg cg x)"
      moreover have "config_key cfg cg y \<in> set (map (config_key cfg cg) xs)" using \<open>y \<in> set xs\<close> by simp
      then have "config_key cfg cg x \<noteq> config_key cfg cg y" using nin by metis
      ultimately show "kv (service_state (f y v)) (config_key cfg cg x) = kv (service_state (f x w)) (config_key cfg cg x)"
        using other [of "config_key cfg cg x" y v] by simp
    qed simp
    ultimately show ?thesis using doc True by (simp add: config_at_def f_def [symmetric])
  qed
qed

end


definition failed_groups :: "groupRuntime list" where
  "failed_groups = [runtime ''x'' 1 DesiredActive True ActualFailed, runtime ''y'' 2 DesiredPassive True ActualPassive]"

definition failover :: "error option \<times> Controller \<times> mem_etcd world" where
  "failover = applyPriorityPolicy (example_cfg ''automatic'') mem_service (example_store handover_items) ''g''
     failed_groups (new_controller, example_world handover_items)"


section \<open>The switchover timer\<close>

definition role_time :: "RoleConfig \<Rightarrow> int" where
  "role_time r = CheckInterval (Timeouts r) + Converge (Timeouts r) + Exec (Timeouts r)"

lemma wrap64_id: "int64 x \<Longrightarrow> wrap64 x = x"
  by (simp add: wrap64_def int64_def)

text \<open>
  C15: the switchover timer is long enough for every role. With non-negative role timeouts
  whose sums fit a Go duration, the timeout of a group is positive, at least the sum of check
  interval, converge and exec timeouts of each configured role of the group, and it is that
  sum for one of them or else thirty seconds.
\<close>

theorem switchover_timeout_covers_roles:
  assumes "\<forall>(n, r) \<in> set (Roles cfg). 0 \<le> CheckInterval (Timeouts r) \<and> 0 \<le> Converge (Timeouts r)
      \<and> 0 \<le> Exec (Timeouts r) \<and> int64 (role_time r)"
  shows "0 < switchoverTimeout cfg cg mg
    \<and> (\<forall>n \<in> set (mg_Roles (mg_conf cfg cg mg)). \<forall>r. map_of (Roles cfg) n = Some r
        \<longrightarrow> role_time r \<le> switchoverTimeout cfg cg mg)
    \<and> (switchoverTimeout cfg cg mg = 30 * Second
        \<or> (\<exists>n \<in> set (mg_Roles (mg_conf cfg cg mg)). \<exists>r. map_of (Roles cfg) n = Some r
            \<and> switchoverTimeout cfg cg mg = role_time r))"
proof -
  let ?f = "\<lambda>roleID maxT. case map_of (Roles cfg) roleID of None \<Rightarrow> maxT
      | Some roleCfg \<Rightarrow> (let t = wrap64 (wrap64 (CheckInterval (Timeouts roleCfg) + Converge (Timeouts roleCfg))
           + Exec (Timeouts roleCfg)) in if maxT < t then t else maxT)"
  have role: "wrap64 (wrap64 (CheckInterval (Timeouts r) + Converge (Timeouts r)) + Exec (Timeouts r)) = role_time r
      \<and> 0 \<le> role_time r" if "map_of (Roles cfg) n = Some r" for n r
  proof -
    have "0 \<le> CheckInterval (Timeouts r)" "0 \<le> Converge (Timeouts r)" "0 \<le> Exec (Timeouts r)" "int64 (role_time r)"
      using map_of_SomeD [OF that] assms by auto
    then have "int64 (CheckInterval (Timeouts r) + Converge (Timeouts r))" by (simp add: int64_def role_time_def)
    then show ?thesis using \<open>int64 (role_time r)\<close> \<open>0 \<le> Exec (Timeouts r)\<close> \<open>0 \<le> Converge (Timeouts r)\<close>
        \<open>0 \<le> CheckInterval (Timeouts r)\<close> by (simp add: wrap64_id role_time_def)
  qed
  define g where "g = (\<lambda>n m. case map_of (Roles cfg) n of None \<Rightarrow> m | Some r \<Rightarrow> max m (role_time r))"
  have f: "?f = g"
    by (intro ext) (use role in \<open>auto simp: g_def Let_def max_def split: option.splits\<close>)
  have longest: "m \<le> fold g ns m \<and> (\<forall>n \<in> set ns. \<forall>r. map_of (Roles cfg) n = Some r \<longrightarrow> role_time r \<le> fold g ns m)
      \<and> (fold g ns m = m \<or> (\<exists>n \<in> set ns. \<exists>r. map_of (Roles cfg) n = Some r \<and> fold g ns m = role_time r))" for ns m
  proof (induction ns arbitrary: m)
    case (Cons n ns)
    have gn: "g n m = (case map_of (Roles cfg) n of None \<Rightarrow> m | Some r \<Rightarrow> max m (role_time r))"
      by (simp add: g_def)
    show ?case
      using Cons.IH [of "g n m"] gn by (cases "map_of (Roles cfg) n") (auto simp: max_def split: if_splits)
  qed simp
  have T: "switchoverTimeout cfg cg mg = (let x = fold g (mg_Roles (mg_conf cfg cg mg)) 0
      in if x = 0 then 30 * Second else x)"
    unfolding switchoverTimeout_def f
    by (simp add: mg_conf_def go_index_def zero_mgconf_def split: option.splits)
  have "0 < (30 * Second :: int)" by (simp add: Second_def)
  then show ?thesis
    using longest [of 0 "mg_Roles (mg_conf cfg cg mg)"] unfolding T Let_def by fastforce
qed

theorem switchover_timeout_covers_roles_witness:
  "0 < switchoverTimeout (example_cfg ''manual'') ''g'' ''x'' \<and> 20 \<le> switchoverTimeout (example_cfg ''manual'') ''g'' ''x''"
proof -
  have "\<forall>(n, r) \<in> set (Roles (example_cfg ''manual'')). 0 \<le> CheckInterval (Timeouts r)
      \<and> 0 \<le> Converge (Timeouts r) \<and> 0 \<le> Exec (Timeouts r) \<and> int64 (role_time r)"
    by (simp add: example_cfg_def example_role_def role_time_def int64_def)
  from switchover_timeout_covers_roles [OF this, of "''g''" "''x''"] show ?thesis
    by (simp add: example_cfg_def mg_conf_def go_index_def role_time_def example_role_def)
qed

end
