(* ===== verification/Cycle.thy ===== *)
theory Cycle
  imports Aggregation Policy
begin

text \<open>
  One cycle of the leader as a whole, and all its cycles: \<^verbatim>\<open>Reconcile\<close> reads every group of a
  cluster group as its declarative status, then runs the policy on them.
\<close>

section \<open>What a cycle reads\<close>

text \<open>The record of a group that a cycle hands to the policy, from the store alone.\<close>

definition seen_group :: "Config \<Rightarrow> StateStore \<Rightarrow> string \<Rightarrow> string \<Rightarrow> groupRuntime" where
  "seen_group cfg st cg mg =
     (let (s, h, det) = group_status cfg st cg mg; (desired, managed) = readDesired cfg st cg mg
      in \<lparr>gr_ClusterGroup = cg, gr_ManagementGroup = mg, gr_Priority = readPriority cfg st cg mg,
          gr_Desired = desired, gr_Managed = managed, gr_Actual = s, gr_Health = h, gr_Available = (s \<noteq> ActualFailed)\<rparr>)"

definition listed :: "Config \<Rightarrow> StateStore \<Rightarrow> string \<Rightarrow> string list" where
  "listed cfg st cg = filter (\<lambda>mg. \<not> isSystemKey mg) (ListChildren st (ClusterGroup (cluster_id cfg) cg))"

definition seen_groups :: "Config \<Rightarrow> StateStore \<Rightarrow> string \<Rightarrow> groupRuntime list" where
  "seen_groups cfg st cg = map (seen_group cfg st cg) (listed cfg st cg)"

text \<open>Names of groups that the controller reconciles.\<close>

definition managed_name :: "string \<Rightarrow> bool" where
  "managed_name mg \<longleftrightarrow> member_ok mg \<and> \<not> isSystemKey mg \<and> mg \<noteq> ''actual''"

lemma seen_group_fields [simp]:
  "gr_ClusterGroup (seen_group cfg st cg mg) = cg" "gr_ManagementGroup (seen_group cfg st cg mg) = mg"
  "(gr_Desired (seen_group cfg st cg mg), gr_Managed (seen_group cfg st cg mg)) = readDesired cfg st cg mg"
  by (simp_all add: seen_group_def split: prod.splits)

text \<open>A step that keeps the clock and touches no other keys.\<close>

definition touches :: "('e \<Rightarrow> string \<rightharpoonup> bytes) \<Rightarrow> string set \<Rightarrow> 'e world \<Rightarrow> 'e world \<Rightarrow> bool" where
  "touches kv K w w' \<longleftrightarrow> clock w' = clock w \<and> (\<forall>k. k \<notin> K \<longrightarrow> kv (service_state w') k = kv (service_state w) k)"

lemma touches_refl [simp]: "touches kv K w w"
  by (simp add: touches_def)

lemma touches_trans: "touches kv K w w1 \<Longrightarrow> touches kv K w1 w2 \<Longrightarrow> touches kv K w w2"
  by (simp add: touches_def)

lemma touches_mono: "touches kv K w w' \<Longrightarrow> K \<subseteq> L \<Longrightarrow> touches kv L w w'"
  by (auto simp: touches_def)

lemma touches_now [simp]: "touches kv K w (snd (now w))"
  by (simp add: touches_def now_def)

lemma build_succeeds:
  assumes "time_ok t"
  shows "\<exists>d. buildActualIfChanged st key s det t = Inr d" and "\<exists>d. buildHealthIfChanged st key h det t = Inr d"
  using actual.total [of "\<lparr>a_State = s, a_UpdatedAt = t, a_Details = det\<rparr>"]
    health.total [of "\<lparr>h_Status = h, h_UpdatedAt = t, h_Details = det\<rparr>"] assms
  by (auto simp: build_tree_compare_dead)

definition status_keys :: "string \<Rightarrow> string \<Rightarrow> string set" where
  "status_keys c cg = {k. \<exists>mg. member_ok mg \<and> (k = Actual c cg mg \<or> k = Health c cg mg)}"

context etcd_kv
begin

lemma Put_touches: "Put svc k b l w = (r, w') \<Longrightarrow> touches kv {k} w w'"
  using Put_other [of k b l w r w'] by (auto simp: touches_def dest: Put_clock)

lemma put_if_done:
  assumes "puts_succeed svc" and "put_if svc k d w = (r, w')"
  shows "r = None \<and> touches kv {k} w w'"
  using assms puts_succeed_Put [of svc k _ 0 w] Put_touches [of k _ 0 w r w']
  by (auto simp: put_if_def split: option.splits) (metis fst_conv)

text \<open>Against a reliable service a cycle gets through every group.\<close>

lemma reconcileManagementGroup_done:
  assumes "puts_succeed svc" and "clock_ok w" and "store_ok st" and "id_ok (cluster_id cfg)" and "id_ok cg" and "id_ok mg" and "mg \<noteq> ''actual''"
    and "reconcileManagementGroup cfg svc st cg mg (c, w) = (r, c', w')"
  shows "r = Inr (seen_group cfg st cg mg) \<and> switchoverTarget c' = switchoverTarget c \<and> switchoverStarted c' = switchoverStarted c
    \<and> touches kv {Actual (cluster_id cfg) cg mg, Health (cluster_id cfg) cg mg} w w'"
proof -
  let ?K = "{Actual (cluster_id cfg) cg mg, Health (cluster_id cfg) cg mg}"
  obtain ds m where rd: "readDesired cfg st cg mg = (ds, m)" by fastforce
  let ?missing = "if m then missingExpectedRoleStates cfg st cg mg else []"
  let ?t = "clock w (ticks w)" and ?c = "note_missing (cg @ ''/'' @ mg) m ?missing c"
  define a where "a = aggregate (Actual (cluster_id cfg) cg mg) (Prefix st (ManagementGroup (cluster_id cfg) cg mg)) ?missing"
  have "time_ok ?t" using assms(2) by (simp add: clock_ok_def)
  from build_succeeds [OF this] obtain ad hd where
    b: "buildActualIfChanged st (Actual (cluster_id cfg) cg mg) (actualState a) (details a) ?t = Inr ad"
      "buildHealthIfChanged st (Health (cluster_id cfg) cg mg) (healthStatus a) (details a) ?t = Inr hd" by metis
  define w0 where "w0 = snd (now w)"
  then have n: "now w = (?t, w0)" and w0: "touches kv ?K w w0" by (simp_all add: now_def touches_def)
  obtain r1 w1 where p1: "put_if svc (Actual (cluster_id cfg) cg mg) ad w0 = (r1, w1)" by fastforce
  obtain r2 w2 where p2: "put_if svc (Health (cluster_id cfg) cg mg) hd w1 = (r2, w2)" by fastforce
  note wrote = put_if_done [OF assms(1) p1] put_if_done [OF assms(1) p2]
  have run: "r = Inr \<lparr>gr_ClusterGroup = cg, gr_ManagementGroup = mg, gr_Priority = readPriority cfg st cg mg, gr_Desired = ds,
        gr_Managed = m, gr_Actual = actualState a, gr_Health = healthStatus a,
        gr_Available = (healthStatus a \<noteq> HealthFailed \<and> actualState a \<noteq> ActualFailed)\<rparr>" "c' = ?c" "w' = w2"
    using assms(8) wrote by (auto simp: reconcileManagementGroup_def Let_def n rd a_def [symmetric] b p1 p2)
  have verdict: "group_status cfg st cg mg = (actualState a, healthStatus a, details a)"
    using agg_result_group_status [OF assms(3-7)] by (simp add: a_def rd agg_result_def)
  then have "healthStatus a = HealthFailed \<longleftrightarrow> actualState a = ActualFailed" using group_status_failed [of cfg st cg mg] by simp
  then have "r = Inr (seen_group cfg st cg mg)" by (simp only: run(1) seen_group_def verdict rd prod.case) auto
  moreover have "touches kv ?K w w2"
    using touches_trans [OF w0 touches_trans [OF touches_mono [OF conjunct2 [OF wrote(1)]] touches_mono [OF conjunct2 [OF wrote(2)]]]] by auto
  moreover have "switchoverTarget ?c = switchoverTarget c" "switchoverStarted ?c = switchoverStarted c"
    by (simp_all add: note_missing_def)
  ultimately show ?thesis using run by simp
qed

lemma reconcile_groups_done:
  assumes "puts_succeed svc" and "clock_ok w" and "store_ok st" and "id_ok (cluster_id cfg)" and "group_ok cg"
    and "\<forall>mg \<in> set mgs. isSystemKey mg \<or> managed_name mg"
    and "reconcile_groups cfg svc st cg mgs (c, w) = (gs, c', w')"
  shows "gs = map (seen_group cfg st cg) (filter (\<lambda>mg. \<not> isSystemKey mg) mgs) \<and> switchoverTarget c' = switchoverTarget c
    \<and> switchoverStarted c' = switchoverStarted c \<and> touches kv (status_keys (cluster_id cfg) cg) w w'"
  using assms(2,6,7)
proof (induction mgs arbitrary: c w gs)
  case (Cons mg mgs)
  show ?case
  proof (cases "isSystemKey mg")
    case True
    then show ?thesis using Cons by simp
  next
    case False
    then have mg: "id_ok mg" "mg \<noteq> ''actual''" "member_ok mg" using Cons.prems(2) by (auto simp: managed_name_def member_ok_def)
    have cg: "id_ok cg" using assms(5) by (simp add: group_ok_def)
    obtain r c1 w1 where one: "reconcileManagementGroup cfg svc st cg mg (c, w) = (r, c1, w1)" by (metis surjective_pairing)
    obtain rs where all: "reconcile_groups cfg svc st cg mgs (c1, w1) = (rs, c', w')"
      using Cons.prems(3) by (auto simp: False one split: prod.splits)
    note g = reconcileManagementGroup_done [OF assms(1) Cons.prems(1) assms(3,4) cg mg(1,2) one]
    have "{Actual (cluster_id cfg) cg mg, Health (cluster_id cfg) cg mg} \<subseteq> status_keys (cluster_id cfg) cg"
      using mg by (auto simp: status_keys_def)
    then have t: "touches kv (status_keys (cluster_id cfg) cg) w w1" using g touches_mono by blast
    then have "clock_ok w1" using Cons.prems(1) by (simp add: touches_def clock_ok_def)
    from Cons.IH [OF this _ all] Cons.prems(2,3) g t touches_trans [OF t] show ?thesis
      by (auto simp: False one all)
  qed
qed simp

lemma writeDesired_succeeds:
  assumes "puts_succeed svc" and "clock_ok w" and "writeDesiredIfChanged cfg svc st cg mg s w = (r, w')"
  shows "r = None \<and> touches kv {Desired (cluster_id cfg) cg mg} w w'"
proof -
  let ?doc = "\<lparr>d_State = s, d_Managed = True, d_UpdatedAt = clock w (ticks w), d_Details = []\<rparr>"
  have "time_ok (d_UpdatedAt ?doc)" using assms(2) by (simp add: clock_ok_def)
  then obtain b where b: "marshal_desired ?doc = Some b" using desired.total by blast
  define w0 where "w0 = snd (now w)"
  then have n: "now w = (clock w (ticks w), w0)" and w0: "touches kv {Desired (cluster_id cfg) cg mg} w w0"
    by (simp_all add: now_def touches_def)
  have "writeDesiredIfChanged cfg svc st cg mg s w =
      (if desired_agrees st (Desired (cluster_id cfg) cg mg) s then (None, w) else Put svc (Desired (cluster_id cfg) cg mg) b 0 w0)"
    by (auto simp: writeDesiredIfChanged_def desired_agrees_def Let_def n b split: option.splits)
  then consider "r = None" "w' = w" | "Put svc (Desired (cluster_id cfg) cg mg) b 0 w0 = (r, w')"
    using assms(3) by (auto split: if_splits)
  then show ?thesis
  proof cases
    case 2
    then show ?thesis
      using puts_succeed_Put [OF assms(1), of "Desired (cluster_id cfg) cg mg" b 0 w0] touches_trans [OF w0 Put_touches] by auto
  qed simp
qed

lemma writePriority_touches: "touches kv {ManagementGroupConfig (cluster_id cfg) cg mg} w (writePriority cfg svc st cg mg p w)"
proof -
  have "touches kv {ManagementGroupConfig (cluster_id cfg) cg mg} w (snd (Put svc (ManagementGroupConfig (cluster_id cfg) cg mg) b 0 (snd (now w))))" for b
    using touches_trans [OF touches_now Put_touches] by (metis prod.collapse)
  then show ?thesis by (auto simp: writePriority_def Let_def split: option.splits prod.splits) (simp_all add: touches_def now_def)
qed

lemma for_err_succeeds:
  assumes "\<And>x w r w'. x \<in> set xs \<Longrightarrow> clock_ok w \<Longrightarrow> f x w = (r, w') \<Longrightarrow> r = None \<and> touches kv K w w'"
    and "clock_ok w" and "for_err f xs w = (r, w')"
  shows "r = None \<and> touches kv K w w'"
  using assms
proof (induction xs arbitrary: w)
  case (Cons x xs)
  obtain w1 where x: "f x w = (None, w1)" "touches kv K w w1" using Cons.prems(1) [of x w] Cons.prems(2) by (cases "f x w") auto
  then have ck: "clock_ok w1" using Cons.prems(2) by (simp add: touches_def clock_ok_def)
  have rest: "for_err f xs w1 = (r, w')" using Cons.prems(3) x(1) by simp
  have "r = None \<and> touches kv K w1 w'" by (rule Cons.IH [OF _ ck rest]) (rule Cons.prems(1), simp_all)
  then show ?case using touches_trans [OF x(2)] by blast
qed simp

end

text \<open>The documents that the policy writes for these groups.\<close>

definition policy_keys :: "string \<Rightarrow> string \<Rightarrow> string list \<Rightarrow> string set" where
  "policy_keys c cg mgs = {k. \<exists>mg \<in> set mgs. k = Desired c cg mg \<or> k = ManagementGroupConfig c cg mg}"

context etcd_kv
begin

lemma policy_succeeds:
  assumes "puts_succeed svc" and "clock_ok w" and "\<forall>g \<in> set gs. gr_ClusterGroup g = cg \<and> member_ok (gr_ManagementGroup g)"
    and "applyPriorityPolicy cfg svc st cg gs (c, w) = (err, c', w')"
  shows "err = None \<and> touches kv (policy_keys (cluster_id cfg) cg (map gr_ManagementGroup gs)) w w'"
proof -
  let ?M = "gr_ManagementGroup ` set gs" and ?K = "policy_keys (cluster_id cfg) cg (map gr_ManagementGroup gs)"
  have desired: "r = None \<and> touches kv ?K w w'"
    if "writeDesiredIfChanged cfg svc st cg mg s w = (r, w')" "mg \<in> ?M" "clock_ok w" for mg s w r w'
  proof -
    have "{Desired (cluster_id cfg) cg mg} \<subseteq> ?K" using that(2) by (auto simp: policy_keys_def)
    then show ?thesis using writeDesired_succeeds [OF assms(1) that(3,1)] touches_mono by blast
  qed
  have all: "r = None \<and> touches kv ?K w w'" if "write_all_active cfg svc st gs w = (r, w')" "clock_ok w" for r w w'
    using that(1) unfolding write_all_active_def
    by (rule for_err_succeeds [OF _ that(2), rotated]) (use assms(3) in \<open>auto dest!: desired split: if_splits\<close>)
  have others: "r = None \<and> touches kv ?K w w'" if "write_others_passive cfg svc st t gs w = (r, w')" "clock_ok w" for t r w w'
    using that(1) unfolding write_others_passive_def
    by (rule for_err_succeeds [OF _ that(2), rotated]) (use assms(3) in \<open>auto dest!: desired split: if_splits\<close>)
  have priority: "touches kv ?K w (writePriority cfg svc st cg mg p w)" if "mg \<in> ?M" for mg p w
    by (rule touches_mono [OF writePriority_touches]) (use that in \<open>auto simp: policy_keys_def\<close>)
  have member: "findCurrentActive gs \<in> ?M" if "findCurrentActive gs \<noteq> []"
  proof -
    have "\<forall>g \<in> set gs. gr_ManagementGroup g \<noteq> []" using assms(3) by (auto simp: member_ok_def id_ok_def)
    from findCurrentActive_some [OF this that] show ?thesis by (metis imageI)
  qed
  have note_: "touches kv ?K w (snd (note_switchover cfg cg cur t (c, w)))" for cur t c w
    by (auto simp: note_switchover_def Let_def now_def touches_def split: option.splits)
  have swap: "err = None \<and> touches kv ?K w w'" if "switchover cfg svc st cg gs t (c, w) = (err, c', w')" "t \<in> set gs" "clock_ok w"
    for t c w err c' w'
  proof -
    let ?t = "gr_ManagementGroup t"
    consider (same) "findCurrentActive gs = ?t" | (drain) "findCurrentActive gs \<noteq> ?t" "draining gs"
      | (guard) "findCurrentActive gs \<noteq> ?t" "findCurrentActive gs = []" "go_index (switchoverTarget c) [] cg \<noteq> ?t"
      | (activate) "findCurrentActive gs \<noteq> ?t" "\<not> draining gs" "findCurrentActive gs \<noteq> [] \<or> go_index (switchoverTarget c) [] cg = ?t"
      by blast
    then show ?thesis
    proof cases
      case same
      then show ?thesis using that(1) switchover_same [OF same, of cfg svc st cg c w] others [OF _ that(3)] by (auto split: prod.splits)
    next
      case drain
      obtain r w1 where r: "writeDesiredIfChanged cfg svc st cg (findCurrentActive gs) DesiredPassive w = (r, w1)" by fastforce
      have "findCurrentActive gs \<in> ?M" using drain(2) member by (auto simp: draining_def)
      note d = desired [OF r this that(3)]
      then have "switchover cfg svc st cg gs t (c, w) = (None, note_switchover cfg cg (findCurrentActive gs) ?t (c, w1))"
        unfolding switchover_drain [OF drain] r by simp
      then have "err = None" "w' = snd (note_switchover cfg cg (findCurrentActive gs) ?t (c, w1))" using that(1) by (metis fst_conv snd_conv)+
      then show ?thesis using d touches_trans [OF conjunct2 [OF d] note_] by simp
    next
      case guard
      then show ?thesis using that(1) switchover_guard [OF guard, of cfg svc st w] by simp
    next
      case activate
      have t: "gr_ClusterGroup t = cg" "?t \<in> ?M" using assms(3) that(2) by auto
      obtain r w1 where r: "writeDesiredIfChanged cfg svc st cg ?t DesiredActive w = (r, w1)" by fastforce
      note d = desired [OF r t(2) that(3)]
      then have ck: "clock_ok w1" using that(3) by (simp add: touches_def clock_ok_def)
      obtain r' w2 where r': "write_others_passive cfg svc st ?t gs w1 = (r', w2)" by fastforce
      have "err = None" "w' = w2"
        using switchover_activate [OF activate, of cfg svc st w] that(1) r r' d others [OF r' ck] t(1) by auto
      then show ?thesis using touches_trans [OF conjunct2 [OF d]] others [OF r' ck] by blast
    qed
  qed
  have failover: "touches kv ?K w (snd (handleAutoFailover cfg svc st cg gs w))" for w
  proof -
    define f where "f = (\<lambda>minPri nextPri (g :: groupRuntime) w. if gr_Priority g = minPri \<and> \<not> gr_Available g
        then writePriority cfg svc st cg (gr_ManagementGroup g) nextPri w
        else if gr_Priority g = nextPri \<and> gr_Available g then writePriority cfg svc st cg (gr_ManagementGroup g) minPri w else w)"
    have step: "touches kv ?K w (f p q g u)" if "g \<in> set gs" "touches kv ?K w u" for p q g u
    proof -
      have "touches kv ?K u (f p q g u)" using priority [of "gr_ManagementGroup g" u] assms(3) that(1) by (simp add: f_def)
      then show ?thesis by (rule touches_trans [OF that(2)])
    qed
    have "touches kv ?K w (for_each (f p q) gs w)" for p q
      by (rule for_each_invariant [where P = "touches kv ?K w"]) (rule touches_refl, rule step)
    then show ?thesis by (simp add: handleAutoFailover_def Let_def f_def)
  qed
  obtain b w1 where b: "(if FailoverMode (Cluster cfg) = ''automatic'' then handleAutoFailover cfg svc st cg gs w else (False, w)) = (b, w1)"
    by fastforce
  then have w1: "touches kv ?K w w1" using failover [of w] by (auto split: if_splits)
  then have ck: "clock_ok w1" using assms(2) by (simp add: touches_def clock_ok_def)
  have run: "applyPriorityPolicy cfg svc st cg gs (c, w) = (if gs = [] then (None, c, w) else if b then (None, c, w1)
      else if allSamePriority gs then (let (err, w) = write_all_active cfg svc st gs w1 in (err, c, w))
      else case findTarget gs of None \<Rightarrow> (None, c, w1) | Some t \<Rightarrow> switchover cfg svc st cg gs t (c, w1))"
    by (simp add: applyPriorityPolicy_def b)
  consider "gs = []" | "gs \<noteq> []" "b" | (active) "gs \<noteq> []" "\<not> b" "allSamePriority gs"
    | "gs \<noteq> []" "\<not> b" "\<not> allSamePriority gs" "findTarget gs = None"
    | (switch) t where "gs \<noteq> []" "\<not> b" "\<not> allSamePriority gs" "findTarget gs = Some t" by fastforce
  then show ?thesis
  proof cases
    case active
    then show ?thesis using assms(4) run all [OF _ ck] touches_trans [OF w1] by (auto split: prod.splits)
  next
    case (switch t)
    then have "switchover cfg svc st cg gs t (c, w1) = (err, c', w')" using assms(4) run by simp
    from swap [OF this _ ck]
    show ?thesis using findTarget_spec [OF switch(4)] touches_trans [OF w1] by blast
  qed (use assms(4) run w1 in auto)
qed

text \<open>A whole cluster group: its groups are read as \<open>seen_groups\<close>, and the policy runs on them.\<close>

lemma reconcileClusterGroup_done:
  assumes "puts_succeed svc" and "clock_ok w" and "store_ok st" and "id_ok (cluster_id cfg)" and "group_ok cg"
    and "\<forall>mg \<in> set (ListChildren st (ClusterGroup (cluster_id cfg) cg)). isSystemKey mg \<or> managed_name mg"
    and "reconcileClusterGroup cfg svc st cg (c, w) = (c', w')"
  shows "\<exists>c1 w1. applyPriorityPolicy cfg svc st cg (seen_groups cfg st cg) (c1, w1) = (None, c', w')
    \<and> switchoverTarget c1 = switchoverTarget c \<and> switchoverStarted c1 = switchoverStarted c \<and> clock_ok w1
    \<and> touches kv (status_keys (cluster_id cfg) cg) w w1 \<and> touches kv (policy_keys (cluster_id cfg) cg (listed cfg st cg)) w1 w'"
proof -
  let ?mgs = "ListChildren st (ClusterGroup (cluster_id cfg) cg)"
  define c0 where "c0 = (if go_index (lastManagementGroups c) [] cg \<noteq> ?mgs
      then c\<lparr>lastManagementGroups := (lastManagementGroups c)(cg \<mapsto> ?mgs)\<rparr> else c)"
  obtain gs c1 w1 where gs: "reconcile_groups cfg svc st cg ?mgs (c0, w) = (gs, c1, w1)" by (metis surjective_pairing)
  note read = reconcile_groups_done [OF assms(1-6) gs]
  then have seen: "gs = seen_groups cfg st cg" by (simp add: seen_groups_def listed_def)
  obtain err where pol: "applyPriorityPolicy cfg svc st cg gs (c1, w1) = (err, c', w')"
    using assms(7) by (cases "applyPriorityPolicy cfg svc st cg gs (c1, w1)") (auto simp: reconcileClusterGroup_def Let_def c0_def [symmetric] gs)
  have ck: "clock_ok w1" using read assms(2) by (simp add: touches_def clock_ok_def)
  have "\<forall>g \<in> set gs. gr_ClusterGroup g = cg \<and> member_ok (gr_ManagementGroup g)"
    using assms(6) by (auto simp: seen seen_groups_def listed_def managed_name_def)
  note policy_succeeds [OF assms(1) ck this pol]
  moreover have "switchoverTarget c0 = switchoverTarget c" "switchoverStarted c0 = switchoverStarted c" by (simp_all add: c0_def)
  moreover have "map gr_ManagementGroup gs = listed cfg st cg" by (simp add: seen seen_groups_def comp_def)
  ultimately show ?thesis using pol read ck seen by auto
qed

end

section \<open>At most one active group\<close>

text \<open>The store has the desired documents of the groups of a cluster group as etcd holds them.\<close>

definition current :: "Config \<Rightarrow> StateStore \<Rightarrow> (string \<rightharpoonup> bytes) \<Rightarrow> string \<Rightarrow> bool" where
  "current cfg st m cg \<longleftrightarrow> (\<forall>mg. managed_name mg \<longrightarrow>
     Get st (Desired (cluster_id cfg) cg mg) = map_option normalizeJSON (m (Desired (cluster_id cfg) cg mg)))"

definition one_active :: "Config \<Rightarrow> (string \<rightharpoonup> bytes) \<Rightarrow> string \<Rightarrow> bool" where
  "one_active cfg m cg \<longleftrightarrow> (\<forall>x y. managed_name x \<and> managed_name y \<and> desires m (Desired (cluster_id cfg) cg x) DesiredActive
     \<and> desires m (Desired (cluster_id cfg) cg y) DesiredActive \<longrightarrow> x = y)"

text \<open>What a cycle may be run on: a loaded store in which the cluster group is readable and has several priorities.\<close>

definition legible :: "Config \<Rightarrow> StateStore \<Rightarrow> string \<Rightarrow> bool" where
  "legible cfg st cg \<longleftrightarrow> (\<forall>mg \<in> set (ListChildren st (ClusterGroup (cluster_id cfg) cg)). isSystemKey mg \<or> managed_name mg)
     \<and> \<not> allSamePriority (seen_groups cfg st cg)"

lemma Desired_listed:
  assumes "id_ok (cluster_id cfg)" and "group_ok cg" and "managed_name mg" and "Get st (Desired (cluster_id cfg) cg mg) \<noteq> None"
  shows "mg \<in> set (listed cfg st cg)"
proof -
  have ok: "entity_ok (EDesired cg mg)" "id_ok cg" "id_ok mg" using assms(2,3) by (simp_all add: managed_name_def member_ok_def group_ok_def)
  have d: "split (Desired (cluster_id cfg) cg mg) = [cluster_id cfg, ''cluster'', cg, mg] @ [''desired'']"
    using entity_key_path [OF assms(1) ok(1)] entity_segs_ok [OF assms(1) ok(1)] split_abs_path [of "entity_segs (cluster_id cfg) (EDesired cg mg)"]
    by (auto simp: entity_segs_def intro: id_seg_ok)
  have c: "split (ClusterGroup (cluster_id cfg) cg) = [cluster_id cfg, ''cluster'', cg]"
    using assms(1) ok(2) by (subst split_abs_path [symmetric]) (auto simp: key_simps intro: id_seg_ok)
  have "find_node ([cluster_id cfg, ''cluster'', cg, mg] @ [''desired'']) (root st) \<noteq> None"
    using assms(4) by (auto simp: Get_def findLocked_def d simp del: append.simps split: option.splits)
  then have "find_node [cluster_id cfg, ''cluster'', cg, mg] (root st) \<noteq> None"
    unfolding find_node_append by (cases "find_node [cluster_id cfg, ''cluster'', cg, mg] (root st)") auto
  then show ?thesis using assms(3) by (simp add: listed_def in_ListChildren c managed_name_def)
qed

lemma Desired_distinct:
  assumes "id_ok c" and "group_ok cg" and "group_ok cg'" and "member_ok mg" and "member_ok mg'"
  shows "Desired c cg mg = Desired c cg' mg' \<longleftrightarrow> cg = cg' \<and> mg = mg'"
    and "Desired c cg mg \<noteq> Actual c cg' mg'" and "Desired c cg mg \<noteq> Health c cg' mg'" and "Desired c cg mg \<noteq> ManagementGroupConfig c cg' mg'"
  using entity_key_inject [OF assms(1), of "EDesired cg mg" "EDesired cg' mg'"] entity_key_inject [OF assms(1), of "EDesired cg mg" "EActual cg' mg'"]
    entity_key_inject [OF assms(1), of "EDesired cg mg" "EHealth cg' mg'"] entity_key_inject [OF assms(1), of "EDesired cg mg" "EGroupConfig cg' mg'"] assms(2-5)
  by simp_all

lemma listed_names:
  assumes "legible cfg st cg" and "mg \<in> set (listed cfg st cg)"
  shows "managed_name mg" and "member_ok mg"
  using assms by (auto simp: legible_def listed_def managed_name_def)

context etcd_kv
begin

lemma cycle_leaves_desired:
  assumes "id_ok (cluster_id cfg)" and "group_ok cg" and "group_ok cg'" and "member_ok mg" and "\<forall>mg \<in> set mgs. member_ok mg"
    and "cg' \<noteq> cg \<or> mg \<notin> set mgs"
    and "touches kv (status_keys (cluster_id cfg) cg) w w1" and "touches kv (policy_keys (cluster_id cfg) cg mgs) w1 w'"
  shows "kv (service_state w') (Desired (cluster_id cfg) cg' mg) = kv (service_state w) (Desired (cluster_id cfg) cg' mg)"
proof -
  have "Desired (cluster_id cfg) cg' mg \<notin> status_keys (cluster_id cfg) cg"
    using Desired_distinct(2,3) [OF assms(1,3,2,4)] by (auto simp: status_keys_def)
  moreover have "Desired (cluster_id cfg) cg' mg \<notin> policy_keys (cluster_id cfg) cg mgs"
    using Desired_distinct(1,4) [OF assms(1,3,2,4)] assms(5,6) by (auto simp: policy_keys_def)
  ultimately show ?thesis using assms(7,8) by (simp add: touches_def)
qed

text \<open>The policy of a cycle reads the groups as etcd has them.\<close>

lemma cycle_groups_read:
  assumes "store_ok st" and "id_ok (cluster_id cfg)" and "group_ok cg" and "legible cfg st cg"
    and "current cfg st (kv (service_state w)) cg" and "touches kv (status_keys (cluster_id cfg) cg) w w1"
  shows "member_ok mg \<Longrightarrow> kv (service_state w1) (Desired (cluster_id cfg) cg mg) = kv (service_state w) (Desired (cluster_id cfg) cg mg)"
    and "groups_read cfg st cg (seen_groups cfg st cg) (kv (service_state w1))"
proof -
  show same: "kv (service_state w1) (Desired (cluster_id cfg) cg mg) = kv (service_state w) (Desired (cluster_id cfg) cg mg)" if "member_ok mg" for mg
    using assms(6) Desired_distinct(2,3) [OF assms(2,3,3) that] by (auto simp: touches_def status_keys_def)
  have "store_wf st" using assms(1) by (simp add: store_ok_def)
  then show "groups_read cfg st cg (seen_groups cfg st cg) (kv (service_state w1))"
    using assms(2,3,5) listed_names [OF assms(4)] same distinct_ListChildren
    by (auto simp: groups_read_def seen_groups_def listed_def comp_def current_def)
qed

lemma cluster_group_one_active:
  assumes "puts_succeed svc" and "clock_ok w" and "store_ok st" and "id_ok (cluster_id cfg)" and "group_ok cg" and "legible cfg st cg"
    and "current cfg st (kv (service_state w)) cg" and "one_active cfg (kv (service_state w)) cg"
    and "reconcileClusterGroup cfg svc st cg (c, w) = (c', w')"
  shows "one_active cfg (kv (service_state w')) cg \<and> clock_ok w'
    \<and> (\<forall>cg' mg. group_ok cg' \<and> member_ok mg \<and> cg' \<noteq> cg \<longrightarrow>
        kv (service_state w') (Desired (cluster_id cfg) cg' mg) = kv (service_state w) (Desired (cluster_id cfg) cg' mg))"
proof -
  let ?gs = "seen_groups cfg st cg" and ?D = "Desired (cluster_id cfg) cg"
  have legible: "\<forall>mg \<in> set (ListChildren st (ClusterGroup (cluster_id cfg) cg)). isSystemKey mg \<or> managed_name mg"
      "\<not> allSamePriority ?gs" using assms(6) by (simp_all add: legible_def)
  obtain c1 w1 where pol: "applyPriorityPolicy cfg svc st cg ?gs (c1, w1) = (None, c', w')"
      and t: "touches kv (status_keys (cluster_id cfg) cg) w w1" "touches kv (policy_keys (cluster_id cfg) cg (listed cfg st cg)) w1 w'" "clock_ok w1"
    using reconcileClusterGroup_done [OF assms(1-5) legible(1) assms(9)] by blast
  note names = listed_names [OF assms(6)]
  note same = cycle_groups_read(1) [OF assms(3-7) t(1)] and read = cycle_groups_read(2) [OF assms(3-7) t(1)]
  have other: "\<not> desires (kv (service_state w')) (?D mg) s" if "managed_name mg" "mg \<notin> set (listed cfg st cg)" for mg s
  proof -
    have "Get st (?D mg) = None" using Desired_listed [OF assms(4,5) that(1)] that(2) by blast
    then have "kv (service_state w) (?D mg) = None" using assms(7) that(1) by (simp add: current_def)
    moreover have "kv (service_state w') (?D mg) = kv (service_state w) (?D mg)"
      using that by (intro cycle_leaves_desired [OF assms(4,5,5) _ _ _ t(1,2)]) (auto simp: managed_name_def names)
    ultimately show ?thesis by (simp add: desires_def)
  qed
  have unique: "\<forall>g \<in> set ?gs. \<forall>h \<in> set ?gs. desires (kv (service_state w1)) (group_key cfg cg g) DesiredActive
      \<and> desires (kv (service_state w1)) (group_key cfg cg h) DesiredActive \<longrightarrow> g = h"
  proof (intro ballI impI)
    fix g h
    assume "g \<in> set ?gs" "h \<in> set ?gs"
    then obtain x y where xy: "g = seen_group cfg st cg x" "h = seen_group cfg st cg y" "x \<in> set (listed cfg st cg)" "y \<in> set (listed cfg st cg)"
      by (auto simp: seen_groups_def)
    assume "desires (kv (service_state w1)) (group_key cfg cg g) DesiredActive \<and> desires (kv (service_state w1)) (group_key cfg cg h) DesiredActive"
    then have "desires (kv (service_state w)) (?D x) DesiredActive" "desires (kv (service_state w)) (?D y) DesiredActive"
      using same [OF names(2) [OF xy(3)]] same [OF names(2) [OF xy(4)]] by (simp_all add: xy desires_def)
    then show "g = h" using assms(8) names(1) xy unfolding one_active_def by blast
  qed
  have "one_active cfg (kv (service_state w')) cg"
    unfolding one_active_def
  proof (intro allI impI)
    fix x y
    assume xy: "managed_name x \<and> managed_name y \<and> desires (kv (service_state w')) (?D x) DesiredActive \<and> desires (kv (service_state w')) (?D y) DesiredActive"
    then have "seen_group cfg st cg x \<in> set ?gs" "seen_group cfg st cg y \<in> set ?gs" using other by (auto simp: seen_groups_def)
    from policy_active_unique [OF etcd_kv_axioms read legible(2) pol unique this(1) _ this(2)] xy
    have "seen_group cfg st cg x = seen_group cfg st cg y" by simp
    then show "x = y" by (metis seen_group_fields(2))
  qed
  moreover have "clock_ok w'" using t(2,3) by (simp add: touches_def clock_ok_def)
  ultimately show ?thesis using cycle_leaves_desired [OF assms(4,5) _ _ _ _ t(1,2)] names by blast
qed

text \<open>All cluster groups of a cycle.\<close>

lemma Reconcile_one_active:
  assumes "puts_succeed svc" and "clock_ok w" and "store_ok st" and "id_ok (cluster_id cfg)"
    and "distinct (map fst (cl_Groups (Cluster cfg)))" and "\<forall>cg \<in> fst ` set (cl_Groups (Cluster cfg)). group_ok cg \<and> legible cfg st cg
      \<and> current cfg st (kv (service_state w)) cg \<and> one_active cfg (kv (service_state w)) cg"
    and "Reconcile cfg svc st (c, w) = (c', w')" and "cg \<in> fst ` set (cl_Groups (Cluster cfg))"
  shows "one_active cfg (kv (service_state w')) cg"
proof -
  let ?f = "\<lambda>(cg, _) cw. reconcileClusterGroup cfg svc st cg cw"
  have "\<forall>cg \<in> fst ` set gs \<union> G. one_active cfg (kv (service_state w')) cg"
    if "for_each ?f gs (c, w) = (c', w')" "clock_ok w" "distinct (map fst gs)" "fst ` set gs \<inter> G = {}" "\<forall>cg \<in> fst ` set gs \<union> G. group_ok cg"
      "\<forall>cg \<in> fst ` set gs. legible cfg st cg \<and> current cfg st (kv (service_state w)) cg"
      "\<forall>cg \<in> fst ` set gs \<union> G. one_active cfg (kv (service_state w)) cg"
    for gs :: "(string \<times> ClusterGroupConfig) list" and G c w c' w'
    using that
  proof (induction gs arbitrary: c w G)
    case (Cons x gs)
    let ?cg = "fst x"
    obtain c1 w1 where one: "reconcileClusterGroup cfg svc st ?cg (c, w) = (c1, w1)" by fastforce
    have rest: "for_each ?f gs (c1, w1) = (c', w')" using Cons.prems(1) one by (cases x) simp
    have cg: "group_ok ?cg" "legible cfg st ?cg" "current cfg st (kv (service_state w)) ?cg" "one_active cfg (kv (service_state w)) ?cg"
      using Cons.prems(5-7) by simp_all
    note step = cluster_group_one_active [OF assms(1) Cons.prems(2) assms(3,4) cg one]
    have keep: "kv (service_state w1) (Desired (cluster_id cfg) cg' mg) = kv (service_state w) (Desired (cluster_id cfg) cg' mg)"
      if "cg' \<in> fst ` set gs \<union> G" "managed_name mg" for cg' mg
    proof -
      have "cg' \<noteq> ?cg" "group_ok cg'" using that(1) Cons.prems(3-5) by auto
      then show ?thesis using step that(2) by (simp add: managed_name_def)
    qed
    have "\<forall>cg' \<in> fst ` set gs \<union> insert ?cg G. one_active cfg (kv (service_state w')) cg'"
    proof (rule Cons.IH [OF rest])
      show "clock_ok w1" using step by blast
      show "distinct (map fst gs)" "fst ` set gs \<inter> insert ?cg G = {}" "\<forall>cg \<in> fst ` set gs \<union> insert ?cg G. group_ok cg"
        using Cons.prems(3-5) by auto
      show "\<forall>cg \<in> fst ` set gs. legible cfg st cg \<and> current cfg st (kv (service_state w1)) cg"
        using Cons.prems(6) keep by (auto simp: current_def)
      show "\<forall>cg \<in> fst ` set gs \<union> insert ?cg G. one_active cfg (kv (service_state w1)) cg"
      proof
        fix cg' assume cg': "cg' \<in> fst ` set gs \<union> insert ?cg G"
        show "one_active cfg (kv (service_state w1)) cg'"
        proof (cases "cg' = ?cg")
          case True
          then show ?thesis using step by simp
        next
          case False
          then have "cg' \<in> fst ` set gs \<union> G" using cg' by blast
          moreover from keep [OF this] have "desires (kv (service_state w1)) (Desired (cluster_id cfg) cg' mg) s
              \<longleftrightarrow> desires (kv (service_state w)) (Desired (cluster_id cfg) cg' mg) s" if "managed_name mg" for mg s
            using that by (simp add: desires_def)
          moreover have "one_active cfg (kv (service_state w)) cg'" using Cons.prems(7) calculation(1) by simp
          ultimately show ?thesis unfolding one_active_def by blast
        qed
      qed
    qed
    then show ?case by auto
  qed simp
  from this [of "cl_Groups (Cluster cfg)" c w c' w' "{}"] show ?thesis
    using assms by (auto simp: Reconcile_def split: if_splits)
qed

end

text \<open>
  The leaders of a cluster over time. A leader runs cycles, each on a store that is current then;
  another leader may take over, with its empty memory; and anything else may change etcd,
  except that it tells no further group to be active.
\<close>

inductive leaders_reach :: "Config \<Rightarrow> 'e etcd_service \<Rightarrow> ('e \<Rightarrow> string \<rightharpoonup> bytes) \<Rightarrow> 'e world \<Rightarrow> Controller \<Rightarrow> 'e world \<Rightarrow> bool"
  for cfg svc kv w0 where
  start: "leaders_reach cfg svc kv w0 new_controller w0"
| elected: "leaders_reach cfg svc kv w0 c w \<Longrightarrow> leaders_reach cfg svc kv w0 new_controller w"
| cycle: "leaders_reach cfg svc kv w0 c w \<Longrightarrow> store_ok st \<Longrightarrow> clock_ok w \<Longrightarrow>
    (\<And>cg. cg \<in> fst ` set (cl_Groups (Cluster cfg)) \<Longrightarrow> legible cfg st cg \<and> current cfg st (kv (service_state w)) cg) \<Longrightarrow>
    Reconcile cfg svc st (c, w) = (c', w') \<Longrightarrow> leaders_reach cfg svc kv w0 c' w'"
| other: "leaders_reach cfg svc kv w0 c w \<Longrightarrow>
    (\<And>cg mg. cg \<in> fst ` set (cl_Groups (Cluster cfg)) \<Longrightarrow> desires (kv (service_state w')) (Desired (cluster_id cfg) cg mg) DesiredActive
      \<Longrightarrow> desires (kv (service_state w)) (Desired (cluster_id cfg) cg mg) DesiredActive) \<Longrightarrow>
    leaders_reach cfg svc kv w0 c w'"

section \<open>Properties\<close>



text \<open>The group \<open>y\<close> is to be active but does not run; one cycle hands over to \<open>x\<close>.\<close>

definition handed :: "Controller \<times> mem_etcd world" where
  "handed = Reconcile (example_cfg ''manual'') mem_service (example_store handover_items) (new_controller, example_world handover_items)"

lemma handed_active: "desires (map_of (fst (service_state (snd handed)))) (Desired ''c'' ''g'' ''x'') DesiredActive"
proof -
  have "case Option.bind (map_of (fst (service_state (snd handed))) (Desired ''c'' ''g'' ''x'')) unmarshal_desired of
      None \<Rightarrow> False | Some d \<Rightarrow> d_State d = DesiredActive \<and> d_Managed d" by code_simp
  then show ?thesis by (simp add: desires_def split: option.splits)
qed

lemma example_names: "managed_name ''x''" "managed_name ''y''"
  by (simp_all add: managed_name_def entity_ok_defs isSystemKey_def)

lemma handover_current: "current (example_cfg mode) (example_store handover_items) (map_of (fst (service_state (example_world handover_items)))) ''g''"
proof -
  have "entity_strict (EDesired ''g'' mg)" if "managed_name mg" for mg
    using that by (simp add: managed_name_def entity_ok_defs)
  from pair_Get [OF this] pair_service [OF this] show ?thesis
    by (simp add: current_def handover_items_def)
qed

lemma handover_one_active: "one_active (example_cfg mode) (map_of (fst (service_state (example_world handover_items)))) ''g''"
proof -
  have "mg = ''y''" if "managed_name mg" "desires (map_of (fst (service_state (example_world handover_items)))) (Desired ''c'' ''g'' mg) DesiredActive" for mg
  proof -
    have "entity_strict (EDesired ''g'' mg)" using that(1) by (simp add: managed_name_def entity_ok_defs)
    from pair_service [OF this, of DesiredPassive True DesiredActive True] that(2) show ?thesis
      by (auto simp: handover_items_def desires_def pair_items_def split: if_splits)
  qed
  then show ?thesis by (simp add: one_active_def) blast
qed

lemma handover_legible: "legible (example_cfg ''manual'') (example_store handover_items) ''g''"
proof -
  have kids: "ListChildren (example_store handover_items) (ClusterGroup ''c'' ''g'') = [''x'', ''y'']" by code_simp
  have "readPriority (example_cfg ''manual'') (example_store handover_items) ''g'' ''x'' \<noteq> readPriority (example_cfg ''manual'') (example_store handover_items) ''g'' ''y''"
    by code_simp
  then show ?thesis
    using example_names by (simp add: legible_def kids seen_groups_def listed_def allSamePriority_def seen_group_def isSystemKey_def split_beta)
qed


end
