(* ===== verification/Roles.thy ===== *)
theory Roles
  imports Config Etcd
begin

text \<open>
  \<^verbatim>\<open>internal/roles\<close>: running an actor (\<^verbatim>\<open>actors.go\<close>, \<^verbatim>\<open>types.go\<close>, \<^verbatim>\<open>utils.go\<close>), the executor of a
  role (\<^verbatim>\<open>executor.go\<close>) and the convergence loop (\<^verbatim>\<open>converge.go\<close>). Processes are the business of
  the operating system: a parameter on the same external state as the etcd service.
\<close>

section \<open>Types\<close>

type_synonym ActorName = string

definition ProbeActive :: ActorName where "ProbeActive = ''probe_active''"
definition SetActive :: ActorName where "SetActive = ''set_active''"
definition ProbePassive :: ActorName where "ProbePassive = ''probe_passive''"
definition SetPassive :: ActorName where "SetPassive = ''set_passive''"
definition ForceStop :: ActorName where "ForceStop = ''force_stop''"

type_synonym ErrorType = string

definition ErrorExec :: ErrorType where "ErrorExec = ''exec_error''"
definition ErrorExitCode :: ErrorType where "ErrorExitCode = ''exit_code''"
definition ErrorTimeout :: ErrorType where "ErrorTimeout = ''timeout''"

record ActorRequest =
  aq_Name :: ActorName
  aq_Command :: "string list"
  aq_ClusterGroup :: string
  aq_ManagementGroup :: string
  aq_NodeID :: string
  aq_Role :: string
  aq_Desired :: string

record ActorResult =
  OK :: bool
  ar_ErrorType :: ErrorType
  ExitCode :: int
  Stdout :: string
  Stderr :: string
  ar_Error :: string
  Attempt :: int
  StartedAt :: int
  EndedAt :: int
  ar_Duration :: Duration

definition zero_result :: ActorResult where
  "zero_result = \<lparr>OK = False, ar_ErrorType = [], ExitCode = 0, Stdout = [], Stderr = [], ar_Error = [],
     Attempt = 0, StartedAt = zero_time, EndedAt = zero_time, ar_Duration = 0\<rparr>"

definition trim :: "string \<Rightarrow> int \<Rightarrow> string" where
  "trim s limit = (if limit \<le> 0 \<or> int (length s) \<le> limit then s else take (nat limit) s)"

section \<open>The operating system, as a parameter\<close>

text \<open>
  How a process ends: successfully, with an exit status (or a signal, status -1), or without
  having run. \<open>pe_Deadline\<close> is whether the deadline of its context has passed by then;
  \<open>os_run\<close> takes the arguments, the environment and the deadline. \<open>os_cancelled\<close> is whether the
  context of the worker has been cancelled.
\<close>

datatype proc_outcome = ProcOK | ProcExit int error | ProcFail error

record proc_end =
  pe_Outcome :: proc_outcome
  pe_Stdout :: string
  pe_Stderr :: string
  pe_Deadline :: bool

record 'e os =
  os_environ :: "string list"
  os_stat :: "'e \<Rightarrow> string \<Rightarrow> error option \<times> 'e"
  os_run :: "'e \<Rightarrow> string list \<Rightarrow> string list \<Rightarrow> int \<Rightarrow> proc_end \<times> 'e"
  os_cancelled :: "'e \<Rightarrow> bool"

definition Stat :: "'e os \<Rightarrow> string \<Rightarrow> 'e world \<Rightarrow> error option \<times> 'e world" where
  "Stat os path w = (let (err, e) = os_stat os (service_state w) path in (err, w\<lparr>service_state := e\<rparr>))"

definition Command_Run :: "'e os \<Rightarrow> string list \<Rightarrow> string list \<Rightarrow> int \<Rightarrow> 'e world \<Rightarrow> proc_end \<times> 'e world" where
  "Command_Run os argv env deadline w =
     (let (r, e) = os_run os (service_state w) argv env deadline in (r, w\<lparr>service_state := e\<rparr>))"

text \<open>A context is its deadline, if it has one; \<^verbatim>\<open>context.WithTimeout\<close> takes the earlier of two.\<close>

definition with_timeout :: "int option \<Rightarrow> int \<Rightarrow> Duration \<Rightarrow> int" where
  "with_timeout ctx t d = (case ctx of None \<Rightarrow> t + d | Some u \<Rightarrow> min u (t + d))"

section \<open>Running an actor\<close>

record ExecActorRunner =
  er_Timeout :: Duration
  er_DetailsMaxSize :: int

definition actor_env :: "'e os \<Rightarrow> ActorRequest \<Rightarrow> string list" where
  "actor_env os req = os_environ os @
     [''CT_ACTOR='' @ aq_Name req, ''CT_CLUSTER_GROUP='' @ aq_ClusterGroup req,
      ''CT_MANAGEMENT_GROUP='' @ aq_ManagementGroup req, ''CT_NODE_ID='' @ aq_NodeID req,
      ''CT_ROLE='' @ aq_Role req, ''CT_DESIRED='' @ aq_Desired req]"

text \<open>\<^verbatim>\<open>ExecActorRunner.Run\<close>.\<close>

definition Run_actor :: "'e os \<Rightarrow> ExecActorRunner \<Rightarrow> int option \<Rightarrow> ActorRequest \<Rightarrow> int \<Rightarrow> 'e world \<Rightarrow>
    ActorResult \<times> 'e world" where
  "Run_actor os r ctx req attempt w =
     (let (start, w) = now w
      in case aq_Command req of
        [] \<Rightarrow>
          let (ended, w) = now w
          in (zero_result\<lparr>ar_ErrorType := ErrorExec, ar_Error := ''empty command'', Attempt := attempt,
                StartedAt := start, EndedAt := ended\<rparr>, w)
      | path # args \<Rightarrow>
          (case Stat os path w of
             (Some err, w) \<Rightarrow>
               let (ended, w) = now w
               in (zero_result\<lparr>ar_ErrorType := ErrorExec, ar_Error := ''binary not accessible: '' @ err,
                     Attempt := attempt, StartedAt := start, EndedAt := ended\<rparr>, w)
           | (None, w) \<Rightarrow>
               let (t, w) = now w;
                   (p, w) = Command_Run os (path # args) (actor_env os req) (with_timeout ctx t (er_Timeout r)) w;
                   (ended, w) = now w;
                   res = zero_result\<lparr>Attempt := attempt, StartedAt := start, EndedAt := ended,
                     ar_Duration := ended - start, Stdout := trim (pe_Stdout p) (er_DetailsMaxSize r),
                     Stderr := trim (pe_Stderr p) (er_DetailsMaxSize r)\<rparr>
               in if pe_Deadline p
                  then (res\<lparr>OK := False, ar_ErrorType := ErrorTimeout, ar_Error := ''timeout'', ExitCode := -1\<rparr>, w)
                  else (case pe_Outcome p of
                      ProcExit code err \<Rightarrow>
                        (res\<lparr>OK := False, ar_ErrorType := ErrorExitCode, ExitCode := code, ar_Error := err\<rparr>, w)
                    | ProcFail err \<Rightarrow>
                        (res\<lparr>OK := False, ar_ErrorType := ErrorExec, ExitCode := -2, ar_Error := err\<rparr>, w)
                    | ProcOK \<Rightarrow> (res\<lparr>OK := True, ExitCode := 0\<rparr>, w))))"

section \<open>The executor\<close>

record RoleExecutor =
  Runner :: ExecActorRunner
  re_Actors :: "(ActorName \<times> string list) list"
  re_Converge :: Duration
  re_RetryInterval :: Duration

record RoleRequest =
  rq_ClusterGroup :: string
  rq_ManagementGroup :: string
  rq_NodeID :: string
  rq_Role :: string
  rq_Desired :: string

record RoleStatus =
  rs_State :: string
  rs_Health :: string
  rs_Details :: "(string \<times> json) list"

definition build :: "RoleRequest \<Rightarrow> ActorName \<Rightarrow> string list \<Rightarrow> ActorRequest" where
  "build req name cmd =
     \<lparr>aq_Name = name, aq_Command = cmd, aq_ClusterGroup = rq_ClusterGroup req,
      aq_ManagementGroup = rq_ManagementGroup req, aq_NodeID = rq_NodeID req, aq_Role = rq_Role req,
      aq_Desired = rq_Desired req\<rparr>"

text \<open>\<^verbatim>\<open>Duration.Milliseconds\<close> truncates towards zero.\<close>

definition Milliseconds :: "Duration \<Rightarrow> int" where
  "Milliseconds d = (if d < 0 then - (- d div Millisecond) else d div Millisecond)"

definition success :: "string \<Rightarrow> ActorResult \<Rightarrow> RoleStatus" where
  "success state res =
     \<lparr>rs_State = state, rs_Health = ''ok'',
      rs_Details = [(''attempt'', JInt (Attempt res)), (''stdout'', JStr (Stdout res)), (''stderr'', JStr (Stderr res)),
        (''duration_ms'', JInt (Milliseconds (ar_Duration res)))]\<rparr>"

definition failedActor :: "ActorResult \<Rightarrow> RoleStatus" where
  "failedActor res =
     \<lparr>rs_State = ''failed'', rs_Health = ''failed'',
      rs_Details = [(''attempt'', JInt (Attempt res)), (''error'', JStr (ar_Error res)),
        (''error_type'', JStr (ar_ErrorType res)), (''exit_code'', JInt (ExitCode res)),
        (''stdout'', JStr (Stdout res)), (''stderr'', JStr (Stderr res)),
        (''duration_ms'', JInt (Milliseconds (ar_Duration res)))]\<rparr>"

definition failed :: "string \<Rightarrow> RoleStatus" where
  "failed msg = \<lparr>rs_State = ''failed'', rs_Health = ''failed'', rs_Details = [(''error'', JStr msg)]\<rparr>"

definition failedWith :: "string \<Rightarrow> (string \<times> json) list \<Rightarrow> RoleStatus" where
  "failedWith msg d =
     \<lparr>rs_State = ''failed'', rs_Health = ''failed'', rs_Details = AList.update ''error'' (JStr msg) d\<rparr>"

definition forceStop :: "'e os \<Rightarrow> RoleExecutor \<Rightarrow> RoleRequest \<Rightarrow> 'e world \<Rightarrow> RoleStatus \<times> 'e world" where
  "forceStop os e req w =
     (case map_of (re_Actors e) ForceStop of
        None \<Rightarrow> (success ''passive'' zero_result, w)
      | Some cmd \<Rightarrow>
          (let (res, w) = Run_actor os (Runner e) None (build req ForceStop cmd) 1 w
           in if ar_ErrorType res = ErrorExec then (failedActor res, w)
              else if OK res then (success ''passive'' res, w)
              else (failedActor res, w)))"

section \<open>Convergence\<close>

text \<open>\<^verbatim>\<open>deadlineCtx.Done()\<close>: the deadline has passed or the context of the worker was cancelled.\<close>

definition ctx_done :: "'e os \<Rightarrow> int \<Rightarrow> 'e world \<Rightarrow> bool \<times> 'e world" where
  "ctx_done os deadline w = (let (t, w') = now w in (deadline \<le> t \<or> os_cancelled os (service_state w'), w'))"

definition transition_status :: "string \<Rightarrow> string \<Rightarrow> int \<Rightarrow> RoleStatus" where
  "transition_status transitionState target t =
     \<lparr>rs_State = transitionState, rs_Health = ''warning'',
      rs_Details = [(''message'', JStr ''Convergence in progress''), (''target'', JStr target),
        (''started_at'', JStr (rfc3339 (t div ns_per_s * ns_per_s)))]\<rparr>"

text \<open>
  One round of the loop: the status it ends with, or the flag and the world of the next round.
  \<open>attempt\<close> counts the rounds before this one. An actor that is not configured is skipped, and
  \<^verbatim>\<open>time.Sleep\<close> only lets time pass.
\<close>

definition ensure_probe :: "'e os \<Rightarrow> RoleExecutor \<Rightarrow> RoleRequest \<Rightarrow> int \<Rightarrow> ActorName \<Rightarrow> string \<Rightarrow> int \<Rightarrow>
    'e world \<Rightarrow> RoleStatus option \<times> 'e world" where
  "ensure_probe os e req deadline probe target attempt w =
     (case map_of (re_Actors e) probe of
        None \<Rightarrow> (None, w)
      | Some cmd \<Rightarrow>
          (let (res, w) = Run_actor os (Runner e) (Some deadline) (build req probe cmd) attempt w
           in if OK res then (Some (success target res), w)
              else if ar_ErrorType res = ErrorExec then (Some (failedActor res), w) else (None, w)))"

definition ensure_set :: "'e os \<Rightarrow> RoleExecutor \<Rightarrow> RoleRequest \<Rightarrow> int \<Rightarrow> ActorName \<Rightarrow> int \<Rightarrow>
    'e world \<Rightarrow> RoleStatus option \<times> 'e world" where
  "ensure_set os e req deadline setter attempt w =
     (case map_of (re_Actors e) setter of
        None \<Rightarrow> (None, w)
      | Some cmd \<Rightarrow>
          (let (res, w) = Run_actor os (Runner e) (Some deadline) (build req setter cmd) attempt w
           in if ar_ErrorType res = ErrorExec then (Some (failedActor res), w) else (None, w)))"

definition notify_transition :: "(RoleStatus \<Rightarrow> 'e world \<Rightarrow> 'e world) option \<Rightarrow> string \<Rightarrow> string \<Rightarrow> bool \<Rightarrow>
    'e world \<Rightarrow> 'e world" where
  "notify_transition onTransition transitionState target transitioned w =
     (if transitioned then w else case onTransition of
        None \<Rightarrow> w
      | Some notify_ \<Rightarrow> (let (t, w) = now w in notify_ (transition_status transitionState target t) w))"

definition ensure_round :: "'e os \<Rightarrow> RoleExecutor \<Rightarrow> RoleRequest \<Rightarrow> int \<Rightarrow> ActorName \<Rightarrow> ActorName \<Rightarrow> string \<Rightarrow> string \<Rightarrow>
    (RoleStatus \<Rightarrow> 'e world \<Rightarrow> 'e world) option \<Rightarrow> int \<Rightarrow> bool \<Rightarrow> 'e world \<Rightarrow> (RoleStatus \<times> 'e world) + bool \<times> 'e world" where
  "ensure_round os e req deadline probe setter target transitionState onTransition attempt transitioned w =
     (let (expired, w) = ctx_done os deadline w
      in if expired
         then Inl (failedWith ''converge timeout'' [(''target'', JStr target), (''attempt'', JInt attempt)],
                   if target = ''passive'' then snd (forceStop os e req w) else w)
         else
           (let attempt = attempt + 1
            in case ensure_probe os e req deadline probe target attempt w of
              (Some status, w) \<Rightarrow> Inl (status, w)
            | (None, w) \<Rightarrow>
                (let w = notify_transition onTransition transitionState target transitioned w
                 in case ensure_set os e req deadline setter attempt w of
                   (Some status, w) \<Rightarrow> Inl (status, w)
                 | (None, w) \<Rightarrow> Inr (True, w))))"

partial_function (option) ensure_loop :: "'e os \<Rightarrow> RoleExecutor \<Rightarrow> RoleRequest \<Rightarrow> int \<Rightarrow> ActorName \<Rightarrow> ActorName \<Rightarrow>
    string \<Rightarrow> string \<Rightarrow> (RoleStatus \<Rightarrow> 'e world \<Rightarrow> 'e world) option \<Rightarrow> int \<Rightarrow> bool \<Rightarrow> 'e world \<Rightarrow> (RoleStatus \<times> 'e world) option" where
  "ensure_loop os e req deadline probe setter target transitionState onTransition attempt transitioned w =
     (case ensure_round os e req deadline probe setter target transitionState onTransition attempt transitioned w of
        Inl r \<Rightarrow> Some r
      | Inr (transitioned', w') \<Rightarrow>
          ensure_loop os e req deadline probe setter target transitionState onTransition (attempt + 1) transitioned' w')"

definition ensure :: "'e os \<Rightarrow> RoleExecutor \<Rightarrow> RoleRequest \<Rightarrow> ActorName \<Rightarrow> ActorName \<Rightarrow> string \<Rightarrow> string \<Rightarrow>
    (RoleStatus \<Rightarrow> 'e world \<Rightarrow> 'e world) option \<Rightarrow> 'e world \<Rightarrow> (RoleStatus \<times> 'e world) option" where
  "ensure os e req probe setter target transitionState onTransition w =
     (let (t, w) = now w
      in ensure_loop os e req (t + re_Converge e) probe setter target transitionState onTransition 0 False w)"

definition Reconcile_role :: "'e os \<Rightarrow> RoleExecutor \<Rightarrow> RoleRequest \<Rightarrow> (RoleStatus \<Rightarrow> 'e world \<Rightarrow> 'e world) option \<Rightarrow>
    'e world \<Rightarrow> (RoleStatus \<times> 'e world) option" where
  "Reconcile_role os e req onTransition w =
     (if rq_Desired req = ''active'' then ensure os e req ProbeActive SetActive ''active'' ''starting'' onTransition w
      else if rq_Desired req = ''passive''
      then ensure os e req ProbePassive SetPassive ''passive'' ''stopping'' onTransition w
      else Some (failed ''unsupported desired state'', w))"

definition ReconcileDisabled :: "'e os \<Rightarrow> RoleExecutor \<Rightarrow> RoleRequest \<Rightarrow> 'e world \<Rightarrow> RoleStatus \<times> 'e world" where
  "ReconcileDisabled os e req w =
     (if rq_Desired req \<noteq> ''active'' \<and> rq_Desired req \<noteq> ''passive''
      then (failed ''unsupported desired state for disabled control mode'', w)
      else
        let probeActor = (if rq_Desired req = ''active'' then ProbeActive else ProbePassive)
        in case map_of (re_Actors e) probeActor of
          None \<Rightarrow> (\<lparr>rs_State = ''failed'', rs_Health = ''failed'',
                    rs_Details = [(''message'', JStr ''no probe actor configured'')]\<rparr>, w)
        | Some cmd \<Rightarrow>
            (let (res, w) = Run_actor os (Runner e) None (build req probeActor cmd) 1 w
             in if ar_ErrorType res = ErrorExec then (failedActor res, w)
                else if OK res then (\<lparr>rs_State = rq_Desired req, rs_Health = ''ok'', rs_Details = []\<rparr>, w)
                else (\<lparr>rs_State = ''failed'', rs_Health = ''failed'',
                       rs_Details = [(''message'', JStr ''probe failed: actual state does not match desired''),
                         (''stdout'', JStr (Stdout res)), (''stderr'', JStr (Stderr res))]\<rparr>, w)))"

section \<open>Convergence ends\<close>

text \<open>
  Running an actor reads the clock and the operating system, and sends nothing to etcd.
  \<open>keeps_time\<close> is what the loop needs of the transition callback: it may read the clock, not
  turn it back. \<open>time_passes w d\<close>: from some reading on the clock is at least \<open>d\<close> later than now.
\<close>

definition keeps_time :: "(RoleStatus \<Rightarrow> 'e world \<Rightarrow> 'e world) option \<Rightarrow> bool" where
  "keeps_time onTransition = (case onTransition of None \<Rightarrow> True
     | Some h \<Rightarrow> (\<forall>s w. clock (h s w) = clock w \<and> ticks w \<le> ticks (h s w)))"

definition time_passes :: "'e world \<Rightarrow> Duration \<Rightarrow> bool" where
  "time_passes w d = (\<exists>n. \<forall>k \<ge> n. clock w (ticks w) + d \<le> clock w k)"

lemma Run_actor_time:
  assumes "Run_actor os r ctx req attempt w = (res, w')"
  shows "clock w' = clock w \<and> ticks w < ticks w' \<and> sent w' = sent w \<and> sessionLeaseID w' = sessionLeaseID w"
  using assms by (auto simp: Run_actor_def Stat_def Command_Run_def now_def Let_def
      split: list.splits prod.splits option.splits proc_outcome.splits if_splits)

lemma notify_transition_time:
  assumes "keeps_time onTransition"
  shows "clock (notify_transition onTransition ts target b w) = clock w
    \<and> ticks w \<le> ticks (notify_transition onTransition ts target b w)"
proof -
  have "clock (h s (snd (now w))) = clock w \<and> Suc (ticks w) \<le> ticks (h s (snd (now w)))"
    if "onTransition = Some h" for h s
  proof -
    have "clock (h s (snd (now w))) = clock (snd (now w)) \<and> ticks (snd (now w)) \<le> ticks (h s (snd (now w)))"
      using assms that by (simp add: keeps_time_def)
    then show ?thesis by (simp add: now_def)
  qed
  then show ?thesis
    by (auto simp: notify_transition_def case_prod_beta intro: Suc_leD split: option.splits)
qed

text \<open>The ways a round goes.\<close>

lemma ensure_round_cases:
  assumes "ensure_round os e req deadline probe setter target ts onTransition attempt b w = r"
  obtains
    (expired) "deadline \<le> clock w (ticks w) \<or> os_cancelled os (service_state w)"
      "r = Inl (failedWith ''converge timeout'' [(''target'', JStr target), (''attempt'', JInt attempt)],
                if target = ''passive'' then snd (forceStop os e req (snd (now w))) else snd (now w))"
  | (probed) status w1 where "clock w (ticks w) < deadline"
      "ensure_probe os e req deadline probe target (attempt + 1) (snd (now w)) = (Some status, w1)" "r = Inl (status, w1)"
  | (set) status w1 w2 where "clock w (ticks w) < deadline"
      "ensure_probe os e req deadline probe target (attempt + 1) (snd (now w)) = (None, w1)"
      "ensure_set os e req deadline setter (attempt + 1) (notify_transition onTransition ts target b w1) = (Some status, w2)"
      "r = Inl (status, w2)"
  | (again) w1 w2 where "clock w (ticks w) < deadline"
      "ensure_probe os e req deadline probe target (attempt + 1) (snd (now w)) = (None, w1)"
      "ensure_set os e req deadline setter (attempt + 1) (notify_transition onTransition ts target b w1) = (None, w2)"
      "r = Inr (True, w2)"
proof (cases "deadline \<le> clock w (ticks w) \<or> os_cancelled os (service_state w)")
  case True
  then show thesis using assms expired by (auto simp: ensure_round_def ctx_done_def now_def)
next
  case False
  obtain st w1 where p: "ensure_probe os e req deadline probe target (attempt + 1) (snd (now w)) = (st, w1)" by fastforce
  obtain st' w2 where s: "ensure_set os e req deadline setter (attempt + 1) (notify_transition onTransition ts target b w1) = (st', w2)"
    by fastforce
  have "r = (case st of Some status \<Rightarrow> Inl (status, w1) | None \<Rightarrow> (case st' of Some status \<Rightarrow> Inl (status, w2) | None \<Rightarrow> Inr (True, w2)))"
    using assms False p s by (auto simp: ensure_round_def ctx_done_def now_def Let_def split: option.splits)
  then show thesis using False p s probed set again by (auto split: option.splits)
qed

lemma ensure_probe_time:
  assumes "ensure_probe os e req deadline probe target attempt w = (r, w')"
  shows "clock w' = clock w \<and> ticks w \<le> ticks w'"
  using assms by (auto simp: ensure_probe_def dest!: Run_actor_time split: option.splits prod.splits if_splits)

lemma ensure_set_time:
  assumes "ensure_set os e req deadline setter attempt w = (r, w')"
  shows "clock w' = clock w \<and> ticks w \<le> ticks w'"
  using assms by (auto simp: ensure_set_def dest!: Run_actor_time split: option.splits prod.splits if_splits)

text \<open>A round that does not end the loop advances the clock and had not passed the deadline.\<close>

lemma ensure_round_time:
  assumes "ensure_round os e req deadline probe setter target ts onTransition attempt b w = Inr (b', w')"
    and "keeps_time onTransition"
  shows "clock w' = clock w \<and> ticks w < ticks w' \<and> clock w (ticks w) < deadline"
  using assms(1)
proof (cases rule: ensure_round_cases)
  case (again w1 w2)
  then show ?thesis
    using ensure_probe_time [OF again(2)] ensure_set_time [OF again(3)]
      notify_transition_time [OF assms(2), of ts target b w1] by (simp add: now_def)
qed simp_all

lemma ensure_loop_returns:
  assumes "\<forall>k \<ge> n. deadline \<le> clock w k" and "keeps_time onTransition"
  shows "\<exists>r. ensure_loop os e req deadline probe setter target ts onTransition attempt b w = Some r"
  using assms(1)
proof (induction "n - ticks w" arbitrary: attempt b w rule: less_induct)
  case less
  show ?case
  proof (cases "ensure_round os e req deadline probe setter target ts onTransition attempt b w")
    case (Inl r)
    then show ?thesis by (subst ensure_loop.simps) simp
  next
    case (Inr q)
    then obtain b' w' where q: "ensure_round os e req deadline probe setter target ts onTransition attempt b w = Inr (b', w')"
      by (cases q) auto
    note t = ensure_round_time [OF q assms(2)]
    have "\<not> n \<le> ticks w" using less.prems t by auto
    then have "n - ticks w' < n - ticks w" using t by auto
    moreover have "\<forall>k \<ge> n. deadline \<le> clock w' k" using less.prems t by auto
    ultimately show ?thesis
      using less.hyps [of w'] by (subst ensure_loop.simps) (simp add: q)
  qed
qed

section \<open>How a convergence ends\<close>

text \<open>The three ways a loop ends; \<open>w'\<close> is the world right after the last thing it did.\<close>

definition converged :: "'e os \<Rightarrow> RoleExecutor \<Rightarrow> RoleRequest \<Rightarrow> int \<Rightarrow> ActorName \<Rightarrow> string \<Rightarrow> RoleStatus \<Rightarrow> 'e world \<Rightarrow> bool" where
  "converged os e req deadline probe target status w' =
     (\<exists>cmd attempt w0 res. map_of (re_Actors e) probe = Some cmd
        \<and> Run_actor os (Runner e) (Some deadline) (build req probe cmd) attempt w0 = (res, w')
        \<and> OK res \<and> status = success target res)"

definition gave_up :: "'e os \<Rightarrow> RoleExecutor \<Rightarrow> RoleRequest \<Rightarrow> int \<Rightarrow> ActorName \<Rightarrow> RoleStatus \<Rightarrow> 'e world \<Rightarrow> bool" where
  "gave_up os e req deadline name status w' =
     (\<exists>cmd attempt w0 res. map_of (re_Actors e) name = Some cmd
        \<and> Run_actor os (Runner e) (Some deadline) (build req name cmd) attempt w0 = (res, w')
        \<and> ar_ErrorType res = ErrorExec \<and> status = failedActor res)"

definition timed_out :: "'e os \<Rightarrow> RoleExecutor \<Rightarrow> RoleRequest \<Rightarrow> int \<Rightarrow> string \<Rightarrow> RoleStatus \<Rightarrow> 'e world \<Rightarrow> bool" where
  "timed_out os e req deadline target status w' =
     (\<exists>w0 n. (deadline \<le> clock w0 (ticks w0) \<or> os_cancelled os (service_state w0))
        \<and> w' = (if target = ''passive'' then snd (forceStop os e req (snd (now w0))) else snd (now w0))
        \<and> status = failedWith ''converge timeout'' [(''target'', JStr target), (''attempt'', JInt n)])"

definition ends :: "'e os \<Rightarrow> RoleExecutor \<Rightarrow> RoleRequest \<Rightarrow> int \<Rightarrow> ActorName \<Rightarrow> ActorName \<Rightarrow> string \<Rightarrow>
    RoleStatus \<times> 'e world \<Rightarrow> bool" where
  "ends os e req deadline probe setter target r =
     (case r of (status, w') \<Rightarrow> converged os e req deadline probe target status w'
        \<or> gave_up os e req deadline probe status w' \<or> gave_up os e req deadline setter status w'
        \<or> timed_out os e req deadline target status w')"

lemma converged_status:
  "converged os e req d probe target status w' \<Longrightarrow> rs_Health status = ''ok'' \<and> rs_State status = target"
  by (auto simp: converged_def success_def)

lemma gave_up_status:
  "gave_up os e req d name status w' \<Longrightarrow> rs_Health status = ''failed'' \<and> rs_State status = ''failed''"
  by (auto simp: gave_up_def failedActor_def)

lemma timed_out_status:
  "timed_out os e req d target status w' \<Longrightarrow> rs_Health status = ''failed'' \<and> rs_State status = ''failed''"
  by (auto simp: timed_out_def failedWith_def)

lemma ensure_round_ends:
  assumes "ensure_round os e req deadline probe setter target ts onTransition attempt b w = Inl (status, w')"
  shows "ends os e req deadline probe setter target (status, w')"
  using assms
proof (cases rule: ensure_round_cases)
  case expired
  then have "timed_out os e req deadline target status w'" unfolding timed_out_def by blast
  then show ?thesis by (simp add: ends_def)
next
  case (probed status1 w1)
  then have "converged os e req deadline probe target status w' \<or> gave_up os e req deadline probe status w'"
    by (auto simp: ensure_probe_def converged_def gave_up_def split: option.splits prod.splits if_splits) blast
  then show ?thesis by (auto simp: ends_def)
next
  case (set status1 w1 w2)
  then have "gave_up os e req deadline setter status w'"
    by (auto simp: ensure_set_def gave_up_def split: option.splits prod.splits if_splits)
  then show ?thesis by (simp add: ends_def)
qed simp

lemma ensure_loop_ends:
  assumes "ensure_loop os e req deadline probe setter target ts onTransition attempt b w = Some r"
  shows "ends os e req deadline probe setter target r"
  by (rule ensure_loop.raw_induct [where P = "\<lambda>os e req deadline probe setter target ts onTransition attempt b w r.
        ends os e req deadline probe setter target r", OF _ assms])
    (auto split: sum.splits prod.splits dest: ensure_round_ends)

lemma Reconcile_role_status:
  assumes "Reconcile_role os e req onTransition w = Some (status, w')"
  shows "(rs_Health status = ''ok'' \<and> rs_State status = rq_Desired req
      \<and> (\<exists>probe. probe = (if rq_Desired req = ''active'' then ProbeActive else ProbePassive)
           \<and> converged os e req (clock w (ticks w) + re_Converge e) probe (rq_Desired req) status w'))
    \<or> (rs_Health status = ''failed'' \<and> rs_State status = ''failed''
      \<and> (rq_Desired req \<notin> {''active'', ''passive''}
         \<or> (\<exists>name. gave_up os e req (clock w (ticks w) + re_Converge e) name status w')
         \<or> timed_out os e req (clock w (ticks w) + re_Converge e) (rq_Desired req) status w'))"
proof (cases "rq_Desired req = ''active'' \<or> rq_Desired req = ''passive''")
  case True
  then have "ends os e req (clock w (ticks w) + re_Converge e) (if rq_Desired req = ''active'' then ProbeActive else ProbePassive)
      (if rq_Desired req = ''active'' then SetActive else SetPassive) (rq_Desired req) (status, w')"
    using assms ensure_loop_ends by (auto simp: Reconcile_role_def ensure_def now_def)
  then consider
      "converged os e req (clock w (ticks w) + re_Converge e) (if rq_Desired req = ''active'' then ProbeActive else ProbePassive)
         (rq_Desired req) status w'"
    | name where "gave_up os e req (clock w (ticks w) + re_Converge e) name status w'"
    | "timed_out os e req (clock w (ticks w) + re_Converge e) (rq_Desired req) status w'"
    unfolding ends_def prod.case by blast
  then show ?thesis
  proof cases
    case 1 then show ?thesis using converged_status [OF 1] by blast
  next
    case (2 name) then show ?thesis using gave_up_status [OF 2] by blast
  next
    case 3 then show ?thesis using timed_out_status [OF 3] by blast
  qed
next
  case False
  then show ?thesis using assms by (auto simp: Reconcile_role_def failed_def)
qed

section \<open>What an execution can do\<close>

text \<open>
  The contract of the steps of an execution: a relation on worlds that holds for readings of
  the clock and for running the actors \<open>names\<close> holds for everything the executor does with them.
\<close>

locale role_steps =
  fixes R :: "'e world \<Rightarrow> 'e world \<Rightarrow> bool" and os :: "'e os" and names :: "ActorName set" and req :: RoleRequest
  assumes refl: "R w w"
    and trans: "R u v \<Longrightarrow> R v w \<Longrightarrow> R u w"
    and now_step: "R w (snd (now w))"
    and actor_step: "name \<in> names \<Longrightarrow> Run_actor os r ctx (build req name cmd) attempt w = (res, w') \<Longrightarrow> R w w'"
begin

lemma forceStop_steps: "ForceStop \<in> names \<Longrightarrow> R w (snd (forceStop os e req w))"
  using refl actor_step by (auto simp: forceStop_def split: option.splits prod.splits)

lemma probe_steps:
  "ensure_probe os e req deadline probe target n w = (r, w') \<Longrightarrow> probe \<in> names \<Longrightarrow> R w w'"
  using refl actor_step by (auto simp: ensure_probe_def split: option.splits prod.splits if_splits)

lemma set_steps:
  "ensure_set os e req deadline setter n w = (r, w') \<Longrightarrow> setter \<in> names \<Longrightarrow> R w w'"
  using refl actor_step by (auto simp: ensure_set_def split: option.splits prod.splits if_splits)

lemma notify_steps:
  assumes "\<forall>h s w. onTransition = Some h \<longrightarrow> R w (h s w)"
  shows "R w (notify_transition onTransition ts target b w)"
  using assms refl by (auto simp: notify_transition_def case_prod_beta split: option.splits intro: trans [OF now_step])

lemma ensure_round_steps:
  assumes "\<forall>h s w. onTransition = Some h \<longrightarrow> R w (h s w)" and "probe \<in> names" and "setter \<in> names"
    and "target = ''passive'' \<longrightarrow> ForceStop \<in> names"
  shows "case ensure_round os e req deadline probe setter target ts onTransition attempt b w of
      Inl r \<Rightarrow> R w (snd r) | Inr r \<Rightarrow> R w (snd r)"
proof (rule ensure_round_cases [where r = "ensure_round os e req deadline probe setter target ts onTransition attempt b w", OF HOL.refl],
    goal_cases expired probed set again)
  case expired
  then show ?case using forceStop_steps assms(4) trans [OF now_step] now_step by simp
next
  case (probed status w1)
  then show ?case using probe_steps [OF probed(2) assms(2)] trans [OF now_step] by simp
next
  case (set status w1 w2)
  have "R (snd (now w)) w2"
    by (rule trans [OF probe_steps [OF set(2) assms(2)] trans [OF notify_steps [OF assms(1)] set_steps [OF set(3) assms(3)]]])
  then show ?case using set(4) trans [OF now_step] by simp
next
  case (again w1 w2)
  have "R (snd (now w)) w2"
    by (rule trans [OF probe_steps [OF again(2) assms(2)] trans [OF notify_steps [OF assms(1)] set_steps [OF again(3) assms(3)]]])
  then show ?case using again(4) trans [OF now_step] by simp
qed

lemma ensure_loop_steps:
  assumes "ensure_loop os e req deadline probe setter target ts onTransition attempt b w = Some r"
    and "\<forall>h s w. onTransition = Some h \<longrightarrow> R w (h s w)" and "probe \<in> names" and "setter \<in> names"
    and "target = ''passive'' \<longrightarrow> ForceStop \<in> names"
  shows "R w (snd r)"
proof -
  let ?I = "\<lambda>os' e req' deadline probe setter target ts onTransition attempt b w r.
    os' = os \<and> req' = req \<and> (\<forall>h s w. onTransition = Some h \<longrightarrow> R w (h s w)) \<and> probe \<in> names \<and> setter \<in> names
    \<and> (target = ''passive'' \<longrightarrow> ForceStop \<in> names) \<longrightarrow> R w (snd r)"
  have "?I os e req deadline probe setter target ts onTransition attempt b w r"
  proof (rule ensure_loop.raw_induct [where P = ?I, OF _ assms(1)], intro impI, elim conjE)
    fix loop os' e req' deadline probe setter target ts onTransition attempt b w r
    assume hyp: "\<And>os' e req' deadline probe setter target ts onTransition attempt b w r.
        loop os' e req' deadline probe setter target ts onTransition attempt b w = Some r \<Longrightarrow>
        ?I os' e req' deadline probe setter target ts onTransition attempt b w r"
      and r: "(case ensure_round os' e req' deadline probe setter target ts onTransition attempt b w of Inl r \<Rightarrow> Some r
        | Inr (b', w') \<Rightarrow> loop os' e req' deadline probe setter target ts onTransition (attempt + 1) b' w') = Some r"
      and eq: "os' = os" "req' = req" and cb: "\<forall>h s w. onTransition = Some h \<longrightarrow> R w (h s w)"
      and I: "probe \<in> names" "setter \<in> names" "target = ''passive'' \<longrightarrow> ForceStop \<in> names"
    note round = ensure_round_steps [OF cb I, of w e deadline ts attempt b]
    show "R w (snd r)"
    proof (cases "ensure_round os e req deadline probe setter target ts onTransition attempt b w")
      case (Inl q)
      then show ?thesis using round r eq by simp
    next
      case (Inr q)
      then have "loop os e req deadline probe setter target ts onTransition (attempt + 1) (fst q) (snd q) = Some r"
        using r eq by (simp add: case_prod_beta)
      from hyp [OF this] have "R (snd q) (snd r)" using cb I by blast
      then show ?thesis using round Inr trans by auto
    qed
  qed
  then show ?thesis using assms by blast
qed

lemma Reconcile_role_steps:
  assumes "Reconcile_role os e req onTransition w = Some (status, w')" and "\<forall>h s w. onTransition = Some h \<longrightarrow> R w (h s w)"
    and "rq_Desired req = ''active'' \<Longrightarrow> ProbeActive \<in> names \<and> SetActive \<in> names"
    and "rq_Desired req = ''passive'' \<Longrightarrow> ProbePassive \<in> names \<and> SetPassive \<in> names \<and> ForceStop \<in> names"
  shows "R w w'"
proof -
  have loop: "R w w'"
    if "ensure_loop os e req d probe setter target ts onTransition 0 False (snd (now w)) = Some (status, w')"
      "probe \<in> names" "setter \<in> names" "target = ''passive'' \<longrightarrow> ForceStop \<in> names" for d probe setter target ts
    using ensure_loop_steps [OF that(1) assms(2) that(2-4)] trans [OF now_step] by simp
  consider "rq_Desired req = ''active''" | "rq_Desired req = ''passive''" | "rq_Desired req \<notin> {''active'', ''passive''}" by blast
  then show ?thesis
    by cases (use assms refl loop in \<open>auto simp: Reconcile_role_def ensure_def case_prod_beta\<close>)
qed

lemma ReconcileDisabled_steps:
  assumes "ReconcileDisabled os e req w = (status, w')"
    and "rq_Desired req = ''active'' \<Longrightarrow> ProbeActive \<in> names"
    and "rq_Desired req = ''passive'' \<Longrightarrow> ProbePassive \<in> names"
  shows "R w w'"
  using assms refl actor_step by (auto simp: ReconcileDisabled_def Let_def split: if_splits option.splits prod.splits)

end

text \<open>An execution reads the clock, runs actors and sends only what its callback sends.\<close>

definition quiet :: "(request \<Rightarrow> bool) \<Rightarrow> 'e world \<Rightarrow> 'e world \<Rightarrow> bool" where
  "quiet Q w w' \<longleftrightarrow> adds Q w w' \<and> ticks w \<le> ticks w' \<and> sessionLeaseID w' = sessionLeaseID w"

interpretation quiet: role_steps "quiet Q" os UNIV req for Q :: "request \<Rightarrow> bool" and os :: "'e os" and req
proof
  fix name :: ActorName and r ctx cmd attempt and w :: "'e world" and res w'
  assume "Run_actor os r ctx (build req name cmd) attempt w = (res, w')"
  then show "quiet Q w w'" by (auto simp: quiet_def adds_def dest!: Run_actor_time intro: exI [of _ "[]"])
next
  fix w :: "'e world"
  show "quiet Q w (snd (now w))" by (auto simp: quiet_def) (simp add: now_def)
qed (auto simp: quiet_def intro: adds_trans)

text \<open>
  \<open>runs_keep os P names\<close>: no process that runs as one of the actors \<open>names\<close> (the environment tells
  it which one it is) ends \<open>P\<close> on the external state.
\<close>

definition runs_keep :: "'e os \<Rightarrow> ('e \<Rightarrow> bool) \<Rightarrow> ActorName set \<Rightarrow> bool" where
  "runs_keep os P names = (\<forall>s. P s \<longrightarrow> (\<forall>path. P (snd (os_stat os s path)))
     \<and> (\<forall>req d. aq_Name req \<in> names \<longrightarrow> P (snd (os_run os s (aq_Command req) (actor_env os req) d))))"

lemma runs_keep_steps:
  assumes "runs_keep os P names"
  shows "role_steps (\<lambda>w w'. P (service_state w) \<longrightarrow> P (service_state w')) os names req"
proof
  fix name r ctx cmd attempt res and w w' :: "'a world"
  assume name: "name \<in> names" and run: "Run_actor os r ctx (build req name cmd) attempt w = (res, w')"
  have "P (snd (os_stat os s path))" if "P s" for s path using assms that by (simp add: runs_keep_def)
  moreover have "P (snd (os_run os s cmd (actor_env os (build req name cmd)) d))" if "P s" for s d
    using assms that name unfolding runs_keep_def by (metis ActorRequest.select_convs(1,2) build_def)
  ultimately show "P (service_state w) \<longrightarrow> P (service_state w')"
    using run by (auto simp: Run_actor_def Stat_def Command_Run_def now_def Let_def build_def
        split: list.splits prod.splits option.splits proc_outcome.splits if_splits) (metis snd_conv)+
qed simp_all

section \<open>An example role\<close>

text \<open>
  The external state of the example lists the actors that have run; the probe of the active
  state fails until \<^verbatim>\<open>set_active\<close> has run.
\<close>

definition example_os :: "string list os" where
  "example_os = \<lparr>os_environ = [], os_stat = (\<lambda>s path. (None, s)),
     os_run = (\<lambda>s argv env d. (\<lparr>pe_Outcome = (if argv = [''/probe''] \<and> ''CT_ACTOR=set_active'' \<notin> set s then ProcExit 1 ''exit status 1'' else ProcOK),
        pe_Stdout = ''out'', pe_Stderr = [], pe_Deadline = False\<rparr>, s @ take 1 env)),
     os_cancelled = (\<lambda>s. False)\<rparr>"

definition example_executor :: RoleExecutor where
  "example_executor = \<lparr>Runner = \<lparr>er_Timeout = 5000000000, er_DetailsMaxSize = 100\<rparr>,
     re_Actors = [(ProbeActive, [''/probe'']), (SetActive, [''/set'']), (SetPassive, [''/stop''])],
     re_Converge = 60000000000, re_RetryInterval = 1000000000\<rparr>"

definition example_request :: "string \<Rightarrow> RoleRequest" where
  "example_request s = \<lparr>rq_ClusterGroup = ''g'', rq_ManagementGroup = ''x'', rq_NodeID = ''n1'', rq_Role = ''db'', rq_Desired = s\<rparr>"

definition example_host :: "string list world" where
  "example_host = \<lparr>service_state = [], clock = (\<lambda>n. 1000000000 * int n), ticks = 0, sessionLeaseID = 0, sent = []\<rparr>"

lemma example_host_time: "time_passes example_host d"
  unfolding time_passes_def example_host_def by (rule exI [of _ "nat d"]) auto

lemma Reconcile_role_returns:
  assumes "time_passes w (re_Converge e)" and "keeps_time onTransition"
  shows "\<exists>status w'. Reconcile_role os e req onTransition w = Some (status, w')"
proof -
  obtain n where "\<forall>k \<ge> n. fst (now w) + re_Converge e \<le> clock (snd (now w)) k"
    using assms(1) by (auto simp: time_passes_def now_def)
  from ensure_loop_returns [OF this assms(2)] show ?thesis
    by (auto simp: Reconcile_role_def ensure_def case_prod_beta)
qed

lemma example_returns:
  obtains status w' where "Reconcile_role example_os example_executor (example_request s) None example_host = Some (status, w')"
  using Reconcile_role_returns [where e = example_executor and os = example_os and onTransition = None and req = "example_request s",
      OF example_host_time]
  by (auto simp: keeps_time_def)

section \<open>Properties\<close>



text \<open>
  C29: the reported status. When \<^verbatim>\<open>Reconcile\<close> returns, either it reports the desired state with
  health ok and the last thing done was a successful probe of that state; or it reports failed
  with health failed, because an actor could not be executed, which is not retried, or because
  the converge timeout has passed (or the worker was cancelled), and then a role to be stopped
  was force-stopped first.
\<close>

theorem reconcile_status:
  assumes "Reconcile_role os e req onTransition w = Some (status, w')"
  shows "(rs_Health status = ''ok'' \<and> rs_State status = rq_Desired req
      \<and> (\<exists>probe. probe = (if rq_Desired req = ''active'' then ProbeActive else ProbePassive)
           \<and> converged os e req (clock w (ticks w) + re_Converge e) probe (rq_Desired req) status w'))
    \<or> (rs_Health status = ''failed'' \<and> rs_State status = ''failed''
      \<and> (rq_Desired req \<notin> {''active'', ''passive''}
         \<or> (\<exists>name. gave_up os e req (clock w (ticks w) + re_Converge e) name status w')
         \<or> timed_out os e req (clock w (ticks w) + re_Converge e) (rq_Desired req) status w'))"
  by (rule Reconcile_role_status [OF assms])

theorem reconcile_status_witness:
  "\<exists>status w'. Reconcile_role example_os example_executor (example_request ''active'') None example_host = Some (status, w')
     \<and> (rs_Health status = ''ok'' \<and> rs_State status = ''active'' \<or> rs_State status = ''failed'')"
proof -
  obtain status w' where r: "Reconcile_role example_os example_executor (example_request ''active'') None example_host = Some (status, w')"
    by (rule example_returns)
  moreover have "rq_Desired (example_request ''active'') = ''active''" by code_simp
  ultimately show ?thesis using reconcile_status [OF r] by metis
qed

text \<open>
  C30: only the actors of the wanted direction run. Whatever the processes of the role's
  direction and the callback keep of the external state is kept: activating a role never runs
  \<^verbatim>\<open>probe_passive\<close>, \<^verbatim>\<open>set_passive\<close> or \<^verbatim>\<open>force_stop\<close>, stopping it never runs \<^verbatim>\<open>probe_active\<close> or
  \<^verbatim>\<open>set_active\<close>, and an unmanaged role is probed and nothing else.
\<close>

theorem actors_of_the_direction:
  assumes "P (service_state w)" and "\<forall>h s w. onTransition = Some h \<longrightarrow> P (service_state w) \<longrightarrow> P (service_state (h s w))"
    and "runs_keep os P (if rq_Desired req = ''active'' then (if managed then {ProbeActive, SetActive} else {ProbeActive})
           else if rq_Desired req = ''passive'' then (if managed then {ProbePassive, SetPassive, ForceStop} else {ProbePassive})
           else {})"
    and "(if managed then Reconcile_role os e req onTransition w else Some (ReconcileDisabled os e req w)) = Some (status, w')"
  shows "P (service_state w')"
proof (cases managed)
  case True
  show ?thesis
    using role_steps.Reconcile_role_steps [OF runs_keep_steps [OF assms(3)], of e req onTransition w status w'] True assms(1,2,4)
    by auto
next
  case False
  show ?thesis
    using role_steps.ReconcileDisabled_steps [OF runs_keep_steps [OF assms(3)], of e req w status w'] False assms(1,4)
    by auto
qed

theorem actors_of_the_direction_witness:
  "\<exists>status w'. Reconcile_role example_os example_executor (example_request ''active'') None example_host = Some (status, w')
     \<and> ''CT_ACTOR=set_passive'' \<notin> set (service_state w')"
proof -
  obtain status w' where r: "Reconcile_role example_os example_executor (example_request ''active'') None example_host = Some (status, w')"
    by (rule example_returns)
  have desired: "rq_Desired (example_request ''active'') = ''active''" by (simp add: example_request_def)
  have keep: "runs_keep example_os (\<lambda>s. ''CT_ACTOR=set_passive'' \<notin> set s) {ProbeActive, SetActive}"
    by (auto simp: runs_keep_def example_os_def actor_env_def ProbeActive_def SetActive_def)
  have "''CT_ACTOR=set_passive'' \<notin> set (service_state w')"
    using actors_of_the_direction [of "\<lambda>s. ''CT_ACTOR=set_passive'' \<notin> set s" example_host None example_os
        "example_request ''active''" True example_executor status w'] r keep
    by (simp add: desired example_host_def)
  with r show ?thesis by blast
qed

end
