(* ===== verification/JsonText.thy ===== *)
theory JsonText
  imports Json
begin

text \<open>
  The text \<^verbatim>\<open>json.Marshal\<close> gives for a tree. The state documents only need the tree, but the
  details of a role status are stored as a string that holds this text. A Go string is any
  list of bytes; the encoder replaces what is not UTF-8 and escapes what HTML would read.
\<close>

section \<open>Decimal numbers\<close>

fun decimal_nat :: "nat \<Rightarrow> string" where
  "decimal_nat n = (if n < 10 then [dig (int n)] else decimal_nat (n div 10) @ [dig (int (n mod 10))])"

declare decimal_nat.simps [simp del]

definition decimal :: "int \<Rightarrow> string" where
  "decimal i = (if i < 0 then CHR ''-'' # decimal_nat (nat (- i)) else decimal_nat (nat i))"

section \<open>UTF-8\<close>

text \<open>
  The length of the first rune of a string of bytes, 0 if it is not UTF-8: \<^verbatim>\<open>utf8.DecodeRune\<close>.
\<close>

definition byte :: "char \<Rightarrow> nat" where "byte c = of_char c"

definition continues :: "nat \<Rightarrow> nat \<Rightarrow> string \<Rightarrow> bool" where
  "continues lo hi cs = (case cs of [] \<Rightarrow> False | c # _ \<Rightarrow> lo \<le> byte c \<and> byte c \<le> hi)"

definition rune_len :: "string \<Rightarrow> nat" where
  "rune_len s = (case s of [] \<Rightarrow> 0 | c # cs \<Rightarrow>
     (let b = byte c in
      if b < 0x80 then 1
      else if b < 0xC2 then 0
      else if b < 0xE0 then (if continues 0x80 0xBF cs then 2 else 0)
      else if b < 0xF0 then
        (if continues (if b = 0xE0 then 0xA0 else 0x80) (if b = 0xED then 0x9F else 0xBF) cs
            \<and> continues 0x80 0xBF (drop 1 cs) then 3 else 0)
      else if b < 0xF5 then
        (if continues (if b = 0xF0 then 0x90 else 0x80) (if b = 0xF4 then 0x8F else 0xBF) cs
            \<and> continues 0x80 0xBF (drop 1 cs) \<and> continues 0x80 0xBF (drop 2 cs) then 4 else 0)
      else 0))"

section \<open>Strings\<close>

definition hexdig :: "nat \<Rightarrow> char" where
  "hexdig n = ''0123456789abcdef'' ! (n mod 16)"

definition backslash :: char where "backslash = CHR 0x5C"

definition escape_ascii :: "char \<Rightarrow> string" where
  "escape_ascii c = (let b = byte c in
     if c = CHR 0x22 \<or> c = backslash then [backslash, c]
     else if b = 8 then [backslash, CHR ''b'']
     else if b = 12 then [backslash, CHR ''f'']
     else if b = 10 then [backslash, CHR ''n'']
     else if b = 13 then [backslash, CHR ''r'']
     else if b = 9 then [backslash, CHR ''t'']
     else if b < 0x20 \<or> c = CHR ''<'' \<or> c = CHR ''>'' \<or> c = CHR ''&''
     then [backslash, CHR ''u'', CHR ''0'', CHR ''0'', hexdig (b div 16), hexdig b]
     else [c])"

text \<open>The line separators U+2028 and U+2029 are the bytes E2 80 A8 and E2 80 A9.\<close>

function (sequential) json_escape :: "string \<Rightarrow> string" where
  "json_escape [] = []"
| "json_escape (c # cs) =
     (if byte c < 0x80 then escape_ascii c @ json_escape cs
      else let n = rune_len (c # cs) in
        if n = 0 then backslash # ''ufffd'' @ json_escape cs
        else if map byte (take n (c # cs)) = [0xE2, 0x80, 0xA8] then backslash # ''u2028'' @ json_escape (drop (n - 1) cs)
        else if map byte (take n (c # cs)) = [0xE2, 0x80, 0xA9] then backslash # ''u2029'' @ json_escape (drop (n - 1) cs)
        else take n (c # cs) @ json_escape (drop (n - 1) cs))"
  by pat_completeness auto
termination by (relation "measure length") auto

definition json_quote :: "string \<Rightarrow> string" where
  "json_quote s = CHR 0x22 # json_escape s @ [CHR 0x22]"

section \<open>Trees\<close>

fun json_text :: "json \<Rightarrow> string" where
  "json_text JNull = ''null''"
| "json_text (JBool b) = (if b then ''true'' else ''false'')"
| "json_text (JInt i) = decimal i"
| "json_text (JReal s) = s"
| "json_text (JStr s) = json_quote s"
| "json_text (JArr vs) = CHR ''['' # join '','' (map json_text vs) @ '']''"
| "json_text (JObj kvs) = CHR ''{'' # join '','' (map (\<lambda>(k, v). json_quote k @ CHR '':'' # json_text v) kvs) @ ''}''"

text \<open>A Go map is written with its keys sorted.\<close>

definition map_text :: "(string \<times> json) list \<Rightarrow> string" where
  "map_text m = json_text (JObj (sort_key fst m))"

end
