(* ===== verification/Workers.thy ===== *)
theory Workers
  imports Roles JsonText Example
begin

text \<open>
  \<^verbatim>\<open>internal/roles/manager.go\<close>: the worker of each role of the node. It follows the desired
  document of its management group, starts an execution for it and cancels the one before;
  an execution waits for the session lease, converges or probes the role and writes the
  status documents under the lease. Logging is left out.
\<close>

section \<open>Status documents\<close>

definition toActualState :: "string \<Rightarrow> ActualState" where
  "toActualState state =
     (if state \<in> {ActualActive, ActualPassive, ActualStarting, ActualStopping, ActualFailed} then state
      else ActualFailed)"

definition toHealthStatus :: "string \<Rightarrow> HealthStatus" where
  "toHealthStatus status = (if status \<in> {HealthOK, HealthWarning, HealthFailed} then status else HealthFailed)"

text \<open>Marshalling a map of strings and integers never fails.\<close>

definition detailsToString :: "(string \<times> json) list \<Rightarrow> string" where
  "detailsToString m = (if m = [] then [] else map_text m)"

definition hasActualChanged :: "StateStore \<Rightarrow> string \<Rightarrow> ActualState \<Rightarrow> bool" where
  "hasActualChanged st key state =
     (case Get st key of None \<Rightarrow> True
      | Some raw \<Rightarrow> (case unmarshal_actual raw of None \<Rightarrow> True | Some current \<Rightarrow> a_State current \<noteq> state))"

definition hasHealthChanged :: "StateStore \<Rightarrow> string \<Rightarrow> HealthStatus \<Rightarrow> bool" where
  "hasHealthChanged st key status =
     (case Get st key of None \<Rightarrow> True
      | Some raw \<Rightarrow> (case unmarshal_health raw of None \<Rightarrow> True | Some current \<Rightarrow> h_Status current \<noteq> status))"

section \<open>The worker\<close>

text \<open>
  A cancellable context is the number of the execution it was made for. The log holds what
  happened to the executions, oldest first; an execution that ends cancels its own context
  (\<^verbatim>\<open>defer cancel()\<close>).
\<close>

datatype exec_event = Started nat DesiredState bool | Cancelled nat | Ended nat

record Worker =
  wk_membership :: MembershipConfig
  wk_role :: string
  lastDesired :: DesiredState
  lastManaged :: bool
  lastActual :: ActualState
  lastCheckAt :: int
  desiredCancel :: "nat option"
  wk_next :: nat
  wk_log :: "exec_event list"

definition NewWorker :: "MembershipConfig \<Rightarrow> string \<Rightarrow> Worker" where
  "NewWorker membership role =
     \<lparr>wk_membership = membership, wk_role = role, lastDesired = [], lastManaged = False, lastActual = [],
      lastCheckAt = zero_time, desiredCancel = None, wk_next = 0, wk_log = []\<rparr>"

text \<open>\<^verbatim>\<open>New\<close>: a worker for every role of every membership of the node.\<close>

definition new_workers :: "Config \<Rightarrow> Worker list" where
  "new_workers cfg = concat (map (\<lambda>membership.
     map (NewWorker membership) (mg_Roles (mg_conf cfg (mc_ClusterGroup membership) (mc_ManagementGroup membership))))
       (Memberships (NodeCfg cfg)))"

definition worker_desired :: "Config \<Rightarrow> StateStore \<Rightarrow> Worker \<Rightarrow> (DesiredState \<times> bool) option" where
  "worker_desired cfg st w =
     (case Get st (Desired (cl_ID (Cluster cfg)) (mc_ClusterGroup (wk_membership w)) (mc_ManagementGroup (wk_membership w))) of
        None \<Rightarrow> None
      | Some raw \<Rightarrow> map_option (\<lambda>doc. (d_State doc, d_Managed doc)) (unmarshal_desired raw))"

definition cancelCurrentDesired :: "Worker \<Rightarrow> Worker" where
  "cancelCurrentDesired w =
     (case desiredCancel w of
        None \<Rightarrow> w
      | Some n \<Rightarrow> w\<lparr>desiredCancel := None, wk_log := wk_log w @ [Cancelled n]\<rparr>)"

definition startDesiredExecution :: "DesiredState \<Rightarrow> bool \<Rightarrow> Worker \<Rightarrow> Worker" where
  "startDesiredExecution desired managed w =
     (let w = cancelCurrentDesired w
      in w\<lparr>desiredCancel := Some (wk_next w), wk_next := Suc (wk_next w),
           wk_log := wk_log w @ [Started (wk_next w) desired managed]\<rparr>)"

definition worker_reconcile :: "Config \<Rightarrow> StateStore \<Rightarrow> int \<Rightarrow> Worker \<Rightarrow> Worker" where
  "worker_reconcile cfg st t w =
     (case worker_desired cfg st w of
        None \<Rightarrow> w
      | Some (desired, managed) \<Rightarrow>
          (case map_of (Roles cfg) (wk_role w) of
             None \<Rightarrow> w
           | Some roleCfg \<Rightarrow>
               (let checkInterval = CheckInterval (Timeouts roleCfg);
                    checkInterval = (if checkInterval \<le> 0 then 5 * Second else checkInterval)
                in if desired \<noteq> lastDesired w \<or> managed \<noteq> lastManaged w
                   then startDesiredExecution desired managed
                          (w\<lparr>lastDesired := desired, lastManaged := managed, lastCheckAt := t\<rparr>)
                   else if lastCheckAt w = zero_time \<or> checkInterval \<le> t - lastCheckAt w
                   then startDesiredExecution desired managed (w\<lparr>lastCheckAt := t\<rparr>)
                   else w)))"

section \<open>An execution\<close>

text \<open>
  The polls of \<open>waitForSessionLease\<close>: the lease id a tick reads, or the end of the context.
  \<open>None\<close> is a wait that has not ended with these polls.
\<close>

datatype lease_poll = PollTick int | PollDone error

fun waitForSessionLease :: "lease_poll list \<Rightarrow> 'e world \<Rightarrow> (error option \<times> 'e world) option" where
  "waitForSessionLease [] w = (if SessionLeaseID w \<noteq> 0 then Some (None, w) else None)"
| "waitForSessionLease (PollTick leaseID # polls) w =
     (if SessionLeaseID w \<noteq> 0 then Some (None, w) else waitForSessionLease polls (SetSessionLeaseID leaseID w))"
| "waitForSessionLease (PollDone err # polls) w =
     (if SessionLeaseID w \<noteq> 0 then Some (None, w) else Some (Some err, w))"

definition own_actual_key :: "Config \<Rightarrow> Worker \<Rightarrow> string" where
  "own_actual_key cfg wk = RoleActual (cl_ID (Cluster cfg)) (mc_ClusterGroup (wk_membership wk))
     (mc_ManagementGroup (wk_membership wk)) (NodeID (NodeCfg cfg)) (wk_role wk)"

definition own_health_key :: "Config \<Rightarrow> Worker \<Rightarrow> string" where
  "own_health_key cfg wk = RoleHealth (cl_ID (Cluster cfg)) (mc_ClusterGroup (wk_membership wk))
     (mc_ManagementGroup (wk_membership wk)) (NodeID (NodeCfg cfg)) (wk_role wk)"

definition write_leased :: "'e etcd_service \<Rightarrow> string \<Rightarrow> bytes option \<Rightarrow> int \<Rightarrow> 'e world \<Rightarrow> error option \<times> 'e world" where
  "write_leased svc key doc leaseID w =
     (case doc of None \<Rightarrow> (Some json_error, w) | Some b \<Rightarrow> PutWithLease svc key b leaseID w)"

text \<open>\<open>view\<close> is what the store of the node holds in a world: the watch loop updates it.\<close>

definition writeStatus :: "Config \<Rightarrow> 'e etcd_service \<Rightarrow> ('e world \<Rightarrow> StateStore) \<Rightarrow> Worker \<Rightarrow> RoleStatus \<Rightarrow>
    'e world \<Rightarrow> 'e world" where
  "writeStatus cfg svc view wk status w =
     (let leaseID = SessionLeaseID w
      in if leaseID = 0 then w
         else
           let (t, w) = now w;
               text = detailsToString (rs_Details status);
               actual = \<lparr>a_State = toActualState (rs_State status), a_UpdatedAt = t, a_Details = text\<rparr>;
               health = \<lparr>h_Status = toHealthStatus (rs_Health status), h_UpdatedAt = t, h_Details = text\<rparr>;
               actualKey = own_actual_key cfg wk;
               healthKey = own_health_key cfg wk;
               actualChanged = hasActualChanged (view w) actualKey (a_State actual);
               healthChanged = hasHealthChanged (view w) healthKey (h_Status health)
           in case (if actualChanged then write_leased svc actualKey (marshal_actual actual) leaseID w else (None, w)) of
                (Some err, w) \<Rightarrow> w
              | (None, w) \<Rightarrow> (if healthChanged then snd (write_leased svc healthKey (marshal_health health) leaseID w) else w))"

text \<open>
  \<open>toExecutorActors\<close> writes the resolved path into the slice of the configuration itself, so it
  answers the map for the executor and the actors the configuration has afterwards.
\<close>

definition toExecutorActors :: "RoleActors \<Rightarrow> Config \<Rightarrow> (ActorName \<times> string list) list \<times> RoleActors" where
  "toExecutorActors src cfg =
     (let out = map (\<lambda>(name, cmd). (name, case cmd of [] \<Rightarrow> [] | path # args \<Rightarrow> ResolveActorPath cfg path # args)) src
      in (out, out))"

definition executor_of :: "RoleConfig \<Rightarrow> Config \<Rightarrow> RoleExecutor \<times> RoleActors" where
  "executor_of roleCfg cfg =
     (let (actors, src) = toExecutorActors (Actors roleCfg) cfg;
          t = Timeouts roleCfg
      in (\<lparr>Runner = \<lparr>er_Timeout = Exec t, er_DetailsMaxSize = DetailsMaxSize t\<rparr>, re_Actors = actors,
           re_Converge = Converge t, re_RetryInterval = rt_RetryInterval t\<rparr>, src))"

definition request_of :: "Config \<Rightarrow> Worker \<Rightarrow> DesiredState \<Rightarrow> RoleRequest" where
  "request_of cfg wk desired =
     \<lparr>rq_ClusterGroup = mc_ClusterGroup (wk_membership wk), rq_ManagementGroup = mc_ManagementGroup (wk_membership wk),
      rq_NodeID = NodeID (NodeCfg cfg), rq_Role = wk_role wk, rq_Desired = desired\<rparr>"

definition set_actors :: "string \<Rightarrow> RoleActors \<Rightarrow> Config \<Rightarrow> Config" where
  "set_actors name src cfg =
     cfg\<lparr>Roles := map (\<lambda>(n, role). (n, if n = name then role\<lparr>Actors := src\<rparr> else role)) (Roles cfg)\<rparr>"

text \<open>
  \<open>applyDesired\<close> answers the new \<open>lastActual\<close> of the worker and the configuration, whose actors it
  has changed; \<open>None\<close> is an execution that has not ended.
\<close>

definition applyDesired :: "Config \<Rightarrow> 'e etcd_service \<Rightarrow> 'e os \<Rightarrow> ('e world \<Rightarrow> StateStore) \<Rightarrow> lease_poll list \<Rightarrow>
    Worker \<Rightarrow> DesiredState \<Rightarrow> bool \<Rightarrow> 'e world \<Rightarrow> ((ActualState \<times> Config) \<times> 'e world) option" where
  "applyDesired cfg svc os view polls wk desired managed w =
     (case waitForSessionLease polls w of
        None \<Rightarrow> None
      | Some (Some err, w) \<Rightarrow> Some ((lastActual wk, cfg), w)
      | Some (None, w) \<Rightarrow>
          (case map_of (Roles cfg) (wk_role wk) of
             None \<Rightarrow> Some ((lastActual wk, cfg), writeStatus cfg svc view wk
                 \<lparr>rs_State = ActualFailed, rs_Health = HealthFailed,
                  rs_Details = [(''error'', JStr (''role '' @ quoted (wk_role wk) @ '' is not defined in config''))]\<rparr> w)
           | Some roleCfg \<Rightarrow>
               (let (executor, src) = executor_of roleCfg cfg;
                    cfg = set_actors (wk_role wk) src cfg;
                    req = request_of cfg wk desired
                in case (if managed
                         then Reconcile_role os executor req (Some (writeStatus cfg svc view wk)) w
                         else Some (ReconcileDisabled os executor req w)) of
                     None \<Rightarrow> None
                   | Some (status, w) \<Rightarrow> Some ((rs_State status, cfg), writeStatus cfg svc view wk status w))))"

section \<open>One execution at a time\<close>

text \<open>The executions whose context is not cancelled.\<close>

fun started_ids :: "exec_event list \<Rightarrow> nat list" where
  "started_ids [] = []"
| "started_ids (Started n d m # l) = n # started_ids l"
| "started_ids (ev # l) = started_ids l"

definition live_log :: "exec_event list \<Rightarrow> nat set" where
  "live_log l = set (filter (\<lambda>n. Cancelled n \<notin> set l \<and> Ended n \<notin> set l) (started_ids l))"

definition live :: "Worker \<Rightarrow> nat set" where
  "live w = live_log (wk_log w)"

fun event_id :: "exec_event \<Rightarrow> nat" where
  "event_id (Started n d m) = n"
| "event_id (Cancelled n) = n"
| "event_id (Ended n) = n"

lemma started_ids_append [simp]: "started_ids (l @ l') = started_ids l @ started_ids l'"
  by (induction l rule: started_ids.induct) auto

lemma live_log_simps [simp]:
  "live_log [] = {}"
  "live_log (l @ [Cancelled n]) = live_log l - {n}"
  "live_log (l @ [Ended n]) = live_log l - {n}"
  by (auto simp: live_log_def)

lemma live_log_started [simp]:
  "\<forall>ev \<in> set l. event_id ev < n \<Longrightarrow> live_log (l @ [Started n d m]) = insert n (live_log l)"
  by (auto simp: live_log_def)

text \<open>
  \<^verbatim>\<open>Run\<close> of a worker: ticks that see some store and some time, executions that end, and the end
  of the context, after which it only waits. \<open>reaches w0 running w\<close>: the loop can come from \<open>w0\<close>
  to \<open>w\<close>, still running or not.
\<close>

inductive worker_reaches :: "Config \<Rightarrow> Worker \<Rightarrow> bool \<Rightarrow> Worker \<Rightarrow> bool" for cfg w0 where
  start: "worker_reaches cfg w0 True w0"
| tick: "worker_reaches cfg w0 True w \<Longrightarrow> worker_reaches cfg w0 True (worker_reconcile cfg st t w)"
| ends: "worker_reaches cfg w0 running w \<Longrightarrow> n \<in> live w \<Longrightarrow>
    worker_reaches cfg w0 running (w\<lparr>wk_log := wk_log w @ [Ended n]\<rparr>)"
| stop: "worker_reaches cfg w0 True w \<Longrightarrow> worker_reaches cfg w0 False (cancelCurrentDesired w)"

definition worker_inv :: "bool \<Rightarrow> Worker \<Rightarrow> bool" where
  "worker_inv running w \<longleftrightarrow> live w \<subseteq> set_option (desiredCancel w)
     \<and> (\<forall>ev \<in> set (wk_log w). event_id ev < wk_next w)
     \<and> (\<forall>n \<in> live w. Started n (lastDesired w) (lastManaged w) \<in> set (wk_log w))
     \<and> (\<forall>n \<in> set_option (desiredCancel w). n < wk_next w) \<and> (\<not> running \<longrightarrow> desiredCancel w = None)"

lemma worker_inv_start: "worker_inv True (NewWorker membership role)"
  by (simp add: worker_inv_def live_def NewWorker_def)

lemma worker_inv_cancel:
  "worker_inv True w \<Longrightarrow> worker_inv running (cancelCurrentDesired w) \<and> live (cancelCurrentDesired w) = {}"
  by (auto simp: worker_inv_def live_def cancelCurrentDesired_def split: option.splits)

lemma worker_inv_end:
  "worker_inv running w \<Longrightarrow> n \<in> live w \<Longrightarrow> worker_inv running (w\<lparr>wk_log := wk_log w @ [Ended n]\<rparr>)"
  by (auto simp: worker_inv_def live_def)

lemma cancelCurrentDesired_frame [simp]:
  "lastDesired (cancelCurrentDesired w) = lastDesired w" "lastManaged (cancelCurrentDesired w) = lastManaged w"
  "lastCheckAt (cancelCurrentDesired w) = lastCheckAt w" "wk_next (cancelCurrentDesired w) = wk_next w"
  by (simp_all add: cancelCurrentDesired_def split: option.splits)

lemma cancel_update [simp]:
  "cancelCurrentDesired (w\<lparr>lastDesired := d, lastManaged := m, lastCheckAt := t\<rparr>)
     = (cancelCurrentDesired w)\<lparr>lastDesired := d, lastManaged := m, lastCheckAt := t\<rparr>"
  by (simp add: cancelCurrentDesired_def split: option.splits)

text \<open>The worker a tick starts an execution from, and what the start does.\<close>

definition started :: "DesiredState \<Rightarrow> bool \<Rightarrow> int \<Rightarrow> Worker \<Rightarrow> Worker" where
  "started d m t w = startDesiredExecution d m (w\<lparr>lastDesired := d, lastManaged := m, lastCheckAt := t\<rparr>)"

lemma worker_inv_started:
  assumes "worker_inv True w"
  shows "worker_inv True (started d m t w) \<and> live (started d m t w) = {wk_next w}"
proof -
  let ?c = "cancelCurrentDesired w"
  have "worker_inv True ?c" "live_log (wk_log ?c) = {}"
    using worker_inv_cancel [OF assms, of True] by (simp_all add: live_def)
  then show ?thesis
    by (auto simp: started_def startDesiredExecution_def Let_def worker_inv_def live_def)
qed

lemma worker_reconcile_cases:
  obtains (idle) "worker_reconcile cfg st t w = w"
  | (start) d m where "worker_desired cfg st w = Some (d, m)" "worker_reconcile cfg st t w = started d m t w"
proof -
  have "w\<lparr>lastDesired := lastDesired w, lastManaged := lastManaged w, lastCheckAt := t\<rparr> = w\<lparr>lastCheckAt := t\<rparr>" by simp
  then have "worker_reconcile cfg st t w = w \<or> (\<exists>d m. worker_desired cfg st w = Some (d, m) \<and>
      worker_reconcile cfg st t w = started d m t w)"
    by (auto simp: worker_reconcile_def started_def Let_def split: option.splits)
  with idle start show thesis by blast
qed

lemma worker_reaches_inv:
  "worker_reaches cfg (NewWorker membership role) running w \<Longrightarrow> worker_inv running w"
proof (induction rule: worker_reaches.induct)
  case (tick w st t)
  then show ?case
    using worker_inv_started by (cases rule: worker_reconcile_cases [of cfg st t w]) auto
qed (auto simp: worker_inv_start worker_inv_end worker_inv_cancel)

section \<open>What a worker writes\<close>

definition own_keys :: "Config \<Rightarrow> Worker \<Rightarrow> string set" where
  "own_keys cfg wk = {own_actual_key cfg wk, own_health_key cfg wk}"

definition own_put :: "Config \<Rightarrow> Worker \<Rightarrow> request \<Rightarrow> bool" where
  "own_put cfg wk r \<longleftrightarrow> (\<exists>k b l. r = ReqPut k b l \<and> k \<in> own_keys cfg wk \<and> l \<noteq> 0)"

lemma write_leased_adds: "k \<in> own_keys cfg wk \<Longrightarrow> l \<noteq> 0 \<Longrightarrow> adds (own_put cfg wk) w (snd (write_leased svc k doc l w))"
  by (auto simp: write_leased_def PutWithLease_def own_put_def intro: adds_Put split: option.splits)

lemma write_leased_frame [simp]:
  "ticks (snd (write_leased svc k doc l w)) = ticks w" "clock (snd (write_leased svc k doc l w)) = clock w"
  "sessionLeaseID (snd (write_leased svc k doc l w)) = sessionLeaseID w"
  by (simp_all add: write_leased_def PutWithLease_def split: option.splits)

text \<open>The shape of \<open>writeStatus\<close>: nothing, one reading of the clock, one write or two.\<close>

lemma writeStatus_cases:
  fixes w :: "'e world"
  obtains (no_lease) "sessionLeaseID w = 0" "writeStatus cfg svc view wk status w = w"
  | (leased) w1 actual health e w2 where "sessionLeaseID w \<noteq> 0" "w1 = snd (now w)"
      "actual = \<lparr>a_State = toActualState (rs_State status), a_UpdatedAt = clock w (ticks w), a_Details = detailsToString (rs_Details status)\<rparr>"
      "health = \<lparr>h_Status = toHealthStatus (rs_Health status), h_UpdatedAt = clock w (ticks w), h_Details = detailsToString (rs_Details status)\<rparr>"
      "(if hasActualChanged (view w1) (own_actual_key cfg wk) (a_State actual)
        then write_leased svc (own_actual_key cfg wk) (marshal_actual actual) (sessionLeaseID w) w1 else (None, w1)) = (e, w2)"
      "writeStatus cfg svc view wk status w =
        (if e = None \<and> hasHealthChanged (view w1) (own_health_key cfg wk) (h_Status health)
         then snd (write_leased svc (own_health_key cfg wk) (marshal_health health) (sessionLeaseID w) w2) else w2)"
proof (cases "sessionLeaseID w = 0")
  case True
  then show thesis using no_lease by (simp add: writeStatus_def SessionLeaseID_def)
next
  case False
  let ?a = "\<lparr>a_State = toActualState (rs_State status), a_UpdatedAt = clock w (ticks w), a_Details = detailsToString (rs_Details status)\<rparr>"
  obtain e w2 where e: "(if hasActualChanged (view (snd (now w))) (own_actual_key cfg wk) (a_State ?a)
      then write_leased svc (own_actual_key cfg wk) (marshal_actual ?a) (sessionLeaseID w) (snd (now w)) else (None, snd (now w))) = (e, w2)"
    by fastforce
  show thesis
    by (rule leased [OF False refl refl refl e])
      (use e False in \<open>auto simp: writeStatus_def SessionLeaseID_def Let_def case_prod_beta split: option.splits\<close>)
qed

lemma writeStatus_adds: "adds (own_put cfg wk) w (writeStatus cfg svc view wk status w)"
proof (cases rule: writeStatus_cases [where w = w and cfg = cfg and svc = svc and view = view and wk = wk and status = status])
  case (leased w1 actual health e w2)
  have "adds (own_put cfg wk) w1 w2"
    using leased(1,5) write_leased_adds [of "own_actual_key cfg wk" cfg wk "sessionLeaseID w" w1 svc "marshal_actual actual"]
    by (auto simp: own_keys_def split: if_splits)
  then have "adds (own_put cfg wk) w w2" unfolding leased(2) by (rule adds_trans [OF adds_now])
  then show ?thesis
    unfolding leased(6) using leased(1) by (auto simp: own_keys_def intro: adds_trans [OF _ write_leased_adds])
qed simp

lemma writeStatus_time: "clock (writeStatus cfg svc view wk status w) = clock w \<and> ticks w \<le> ticks (writeStatus cfg svc view wk status w)"
proof (cases rule: writeStatus_cases [where w = w and cfg = cfg and svc = svc and view = view and wk = wk and status = status])
  case (leased w1 actual health e w2)
  have "clock w2 = clock w1 \<and> ticks w2 = ticks w1"
    using leased(5) by (metis snd_conv write_leased_frame(1,2))
  then show ?thesis unfolding leased(6) using leased(2) by (simp add: now_def)
qed simp

definition worker_ids_ok :: "Config \<Rightarrow> Worker \<Rightarrow> bool" where
  "worker_ids_ok cfg wk \<longleftrightarrow> id_ok (cl_ID (Cluster cfg)) \<and> id_ok (mc_ClusterGroup (wk_membership wk))
     \<and> id_ok (mc_ManagementGroup (wk_membership wk)) \<and> id_ok (NodeID (NodeCfg cfg)) \<and> id_ok (wk_role wk)"

lemma own_keys_differ: "worker_ids_ok cfg wk \<Longrightarrow> own_actual_key cfg wk \<noteq> own_health_key cfg wk"
  unfolding worker_ids_ok_def own_actual_key_def own_health_key_def
  by (elim conjE, simp only: role_keys, rule notI, drule abs_path_inject [rotated 4]) (auto simp: seg_ok_def id_ok_def)

text \<open>Under the own keys etcd has documents with this state and this health.\<close>

definition reported :: "(string \<rightharpoonup> bytes) \<Rightarrow> Config \<Rightarrow> Worker \<Rightarrow> ActualState \<Rightarrow> HealthStatus \<Rightarrow> bool" where
  "reported m cfg wk state health \<longleftrightarrow>
     map_option a_State (Option.bind (m (own_actual_key cfg wk)) unmarshal_actual) = Some state
     \<and> map_option h_Status (Option.bind (m (own_health_key cfg wk)) unmarshal_health) = Some health"

lemma unmarshal_normalized [simp]: "unmarshal f (normalizeJSON b) = unmarshal f b"
  by (cases b) (auto simp: unmarshal_def)

lemma not_hasActualChanged:
  "\<not> hasActualChanged st key state \<Longrightarrow> Get st key = map_option normalizeJSON v \<Longrightarrow>
     map_option a_State (Option.bind v unmarshal_actual) = Some state"
  by (cases v) (auto simp: hasActualChanged_def unmarshal_actual_def split: option.splits)

lemma not_hasHealthChanged:
  "\<not> hasHealthChanged st key state \<Longrightarrow> Get st key = map_option normalizeJSON v \<Longrightarrow>
     map_option h_Status (Option.bind v unmarshal_health) = Some state"
  by (cases v) (auto simp: hasHealthChanged_def unmarshal_health_def split: option.splits)

context etcd_kv
begin

lemma write_leased_effect:
  assumes "puts_succeed svc"
  shows "fst (write_leased svc k (Some b) l w) = None"
    and "kv (service_state (snd (write_leased svc k (Some b) l w))) = (kv (service_state w))(k \<mapsto> b)"
  using puts_succeed_Put [OF assms, of k b l w] Put_ok [of k b l w]
  by (simp_all add: write_leased_def PutWithLease_def) (metis prod.collapse)

lemma writeStatus_reports:
  assumes "puts_succeed svc" and "clock_ok w" and "sessionLeaseID w \<noteq> 0" and "worker_ids_ok cfg wk"
    and "\<forall>k \<in> own_keys cfg wk. Get (view (snd (now w))) k = map_option normalizeJSON (kv (service_state w) k)"
  shows "reported (kv (service_state (writeStatus cfg svc view wk status w))) cfg wk
    (toActualState (rs_State status)) (toHealthStatus (rs_Health status))"
proof (cases rule: writeStatus_cases [where w = w and cfg = cfg and svc = svc and view = view and wk = wk and status = status])
  case (leased w1 actual health e w2)
  let ?ak = "own_actual_key cfg wk" and ?hk = "own_health_key cfg wk"
  have kv1: "kv (service_state w1) = kv (service_state w)" using leased(2) by (simp add: now_def)
  have get: "Get (view w1) k = map_option normalizeJSON (kv (service_state w) k)" if "k \<in> {?ak, ?hk}" for k
    using assms(5) that leased(2) by (auto simp: own_keys_def)
  obtain ba bh where b: "marshal_actual actual = Some ba" "unmarshal_actual ba = Some actual"
      "marshal_health health = Some bh" "unmarshal_health bh = Some health"
    using assms(2) leased(3,4) actual.total actual.roundtrip health.total health.roundtrip
    by (metis (no_types, lifting) ActualDocument.select_convs(2) HealthDocument.select_convs(2) clock_ok_def)
  have e: "e = None" and a: "map_option a_State (Option.bind (kv (service_state w2) ?ak) unmarshal_actual) = Some (a_State actual)"
      and other: "kv (service_state w2) ?hk = kv (service_state w) ?hk"
    using leased(5) b(1,2) write_leased_effect [OF assms(1), of ?ak ba "sessionLeaseID w" w1] kv1
      not_hasActualChanged [of "view w1" ?ak "a_State actual", OF _ get] own_keys_differ [OF assms(4)]
    by (auto split: if_splits)
  show ?thesis
  proof (cases "hasHealthChanged (view w1) ?hk (h_Status health)")
    case True
    then show ?thesis
      using leased(3,4,6) e a b(3,4) write_leased_effect [OF assms(1), of ?hk bh "sessionLeaseID w" w2] own_keys_differ [OF assms(4)]
      by (simp add: reported_def)
  next
    case False
    then show ?thesis
      using leased(3,4,6) e a other not_hasHealthChanged [of "view w1" ?hk "h_Status health", OF _ get]
      by (simp add: reported_def)
  qed
qed (use assms(3) in simp)

end

section \<open>An execution as a whole\<close>

lemma writeStatus_quiet: "quiet (own_put cfg wk) w (writeStatus cfg svc view wk status w)"
proof -
  have "sessionLeaseID (writeStatus cfg svc view wk status w) = sessionLeaseID w"
  proof (cases rule: writeStatus_cases [where w = w and cfg = cfg and svc = svc and view = view and wk = wk and status = status])
    case (leased w1 actual health e w2)
    have "sessionLeaseID w2 = sessionLeaseID w1" using leased(5) by (metis snd_conv write_leased_frame(3))
    then show ?thesis unfolding leased(6) using leased(2) by simp
  qed simp
  then show ?thesis by (simp add: quiet_def writeStatus_adds writeStatus_time)
qed

lemma keeps_time_writeStatus: "keeps_time (Some (writeStatus cfg svc view wk))"
  by (simp add: keeps_time_def writeStatus_time)

lemma own_frame [simp]:
  "own_keys (set_actors n src cfg) wk = own_keys cfg wk" "worker_ids_ok (set_actors n src cfg) wk = worker_ids_ok cfg wk"
  "own_put (set_actors n src cfg) wk = own_put cfg wk" "reported m (set_actors n src cfg) wk = reported m cfg wk"
  by (simp_all add: own_keys_def own_actual_key_def own_health_key_def set_actors_def worker_ids_ok_def own_put_def
      reported_def fun_eq_iff)

text \<open>The status an execution comes to, before it is written.\<close>

lemma execution_returns:
  fixes w :: "'e world"
  assumes "managed \<Longrightarrow> time_passes w (re_Converge e)"
  obtains status w' where
    "(if managed then Reconcile_role os e (request_of cfg wk desired) (Some (writeStatus cfg svc view wk)) w
      else Some (ReconcileDisabled os e (request_of cfg wk desired) w)) = Some (status, w')"
    "quiet (own_put cfg wk) w w'"
proof (cases managed)
  case True
  obtain status w' where r: "Reconcile_role os e (request_of cfg wk desired) (Some (writeStatus cfg svc view wk)) w = Some (status, w')"
    using Reconcile_role_returns [OF assms [OF True] keeps_time_writeStatus] by blast
  have "quiet (own_put cfg wk) w w'"
    using quiet.Reconcile_role_steps [OF r] writeStatus_quiet by blast
  then show thesis using r that True by simp
next
  case False
  obtain status w' where r: "ReconcileDisabled os e (request_of cfg wk desired) w = (status, w')" by fastforce
  have "quiet (own_put cfg wk) w w'" using quiet.ReconcileDisabled_steps [OF r] by blast
  then show thesis using r that False by simp
qed

lemma execution_status:
  assumes "(if managed then Reconcile_role os e req onTransition w else Some (ReconcileDisabled os e req w)) = Some (status, w')"
  shows "rs_State status = rq_Desired req \<and> rs_Health status = ''ok'' \<or> rs_State status = ''failed'' \<and> rs_Health status = ''failed''"
proof (cases managed)
  case True
  then show ?thesis
    using assms Reconcile_role_status [of os e req onTransition w status w'] by auto
next
  case False
  then show ?thesis
    using assms by (auto simp: ReconcileDisabled_def failed_def failedActor_def Let_def split: if_splits option.splits prod.splits)
qed

lemma waitForSessionLease_held: "sessionLeaseID w \<noteq> 0 \<Longrightarrow> waitForSessionLease polls w = Some (None, w)"
  by (cases "(polls, w)" rule: waitForSessionLease.cases) (simp_all add: SessionLeaseID_def)

lemma map_of_set_actors:
  "map_of m n = Some rc \<Longrightarrow> map_of (map (\<lambda>(k, role). (k, if k = n then role\<lparr>Actors := src\<rparr> else role)) m) n = Some (rc\<lparr>Actors := src\<rparr>)"
  by (induction m) auto

lemma not_rooted: "hd p \<noteq> slash \<Longrightarrow> p \<noteq> [] \<Longrightarrow> \<not> has_prefix [slash] (p @ s)"
  by (cases p) auto

context etcd_kv
begin

lemma execution_reported:
  fixes view :: "'e world \<Rightarrow> StateStore"
  assumes "puts_succeed svc" and "clock_ok w" and "sessionLeaseID w \<noteq> 0" and "worker_ids_ok cfg wk"
    and "\<forall>v. \<forall>k \<in> own_keys cfg wk. Get (view v) k = map_option normalizeJSON (kv (service_state v) k)"
    and "map_of (Roles cfg) (wk_role wk) = Some rc" and "managed \<Longrightarrow> time_passes w (Converge (Timeouts rc))"
  shows "\<exists>state health cfg' w'. applyDesired cfg svc os view polls wk desired managed w = Some ((state, cfg'), w')
    \<and> reported (kv (service_state w')) cfg wk (toActualState state) (toHealthStatus health)
    \<and> (state = desired \<and> health = ''ok'' \<or> state = ''failed'' \<and> health = ''failed'')
    \<and> adds (own_put cfg wk) w w'"
proof -
  obtain e src where e: "executor_of rc cfg = (e, src)" by fastforce
  let ?cfg = "set_actors (wk_role wk) src cfg"
  have wait: "waitForSessionLease polls w = Some (None, w)" by (rule waitForSessionLease_held [OF assms(3)])
  have "re_Converge e = Converge (Timeouts rc)" using e by (auto simp: executor_of_def Let_def case_prod_beta)
  then obtain status w' where r: "(if managed then Reconcile_role os e (request_of ?cfg wk desired) (Some (writeStatus ?cfg svc view wk)) w
      else Some (ReconcileDisabled os e (request_of ?cfg wk desired) w)) = Some (status, w')"
      and q: "quiet (own_put ?cfg wk) w w'"
    using execution_returns [of managed w e os ?cfg wk desired svc view] assms(7) by metis
  have "clock_ok w'" "sessionLeaseID w' \<noteq> 0" using q assms(2,3) by (auto simp: quiet_def adds_def clock_ok_def)
  then have "reported (kv (service_state (writeStatus ?cfg svc view wk status w'))) cfg wk
      (toActualState (rs_State status)) (toHealthStatus (rs_Health status))"
    using writeStatus_reports [OF assms(1), of w' ?cfg wk view status] assms(4,5) by simp
  moreover have "adds (own_put cfg wk) w (writeStatus ?cfg svc view wk status w')"
    using q writeStatus_quiet [of ?cfg wk w' svc view status] by (auto simp: quiet_def intro: adds_trans)
  moreover have "applyDesired cfg svc os view polls wk desired managed w =
      Some ((rs_State status, ?cfg), writeStatus ?cfg svc view wk status w')"
    using r by (simp add: applyDesired_def wait assms(6) e Let_def)
  moreover have "rs_State status = desired \<and> rs_Health status = ''ok'' \<or> rs_State status = ''failed'' \<and> rs_Health status = ''failed''"
    using execution_status [OF r] by (simp add: request_of_def)
  ultimately show ?thesis by blast
qed

end

section \<open>An example worker\<close>

definition worker_cfg :: Config where
  "worker_cfg = (example_cfg ''manual'')
     \<lparr>Roles := [(''app'', example_role\<lparr>Actors := [(ProbeActive, [''probe''])], Timeouts := default_timeouts zero_timeouts\<rparr>)],
      NodeCfg := (NodeCfg (example_cfg ''manual''))\<lparr>ActorsBaseDir := ''bin''\<rparr>\<rparr>"

definition example_worker :: Worker where
  "example_worker = NewWorker \<lparr>mc_ClusterGroup = ''g'', mc_ManagementGroup = ''x''\<rparr> ''app''"

definition desired_store :: StateStore where
  "desired_store = example_store [(EDesired ''g'' ''x'', desired_json ''active'' True)]"

text \<open>The worker after its first tick.\<close>

definition busy_worker :: Worker where
  "busy_worker = worker_reconcile worker_cfg desired_store (zero_time + 1) example_worker"

definition node_os :: "mem_etcd os" where
  "node_os = \<lparr>os_environ = [], os_stat = (\<lambda>s path. (None, s)),
     os_run = (\<lambda>s argv env d. (\<lparr>pe_Outcome = ProcOK, pe_Stdout = ''ok'', pe_Stderr = [], pe_Deadline = False\<rparr>, s)),
     os_cancelled = (\<lambda>s. False)\<rparr>"

definition node_world :: "mem_etcd world" where
  "node_world = (example_world [])\<lparr>sessionLeaseID := 7\<rparr>"

definition node_view :: "mem_etcd world \<Rightarrow> StateStore" where
  "node_view v = foldr (\<lambda>k s. case map_of (fst (service_state v)) k of None \<Rightarrow> s | Some b \<Rightarrow> insertLocked s k b)
     [own_actual_key worker_cfg example_worker, own_health_key worker_cfg example_worker] new_store"

lemma node_view_tracks:
  "\<forall>v. \<forall>k \<in> own_keys worker_cfg example_worker. Get (node_view v) k = map_option normalizeJSON (map_of (fst (service_state v)) k)"
proof -
  have "split (own_actual_key worker_cfg example_worker) \<noteq> split (own_health_key worker_cfg example_worker)" by code_simp
  moreover have "Get new_store k = None" for k
    by (cases "split k") (simp_all add: Get_def findLocked_def new_store_def empty_root_def)
  ultimately show ?thesis
    by (auto simp: node_view_def own_keys_def cache.get_put split: option.splits)
qed

lemma node_ids_ok: "worker_ids_ok worker_cfg example_worker"
  by code_simp

lemma node_role: "map_of (Roles worker_cfg) (wk_role example_worker) =
    Some (example_role\<lparr>Actors := [(ProbeActive, [''probe''])], Timeouts := default_timeouts zero_timeouts\<rparr>)"
  by (simp add: worker_cfg_def example_worker_def NewWorker_def)

lemma busy_worker_reached: "worker_reaches worker_cfg example_worker True busy_worker"
  unfolding busy_worker_def by (rule worker_reaches.tick [OF worker_reaches.start])

section \<open>Properties\<close>

text \<open>
  C31: one execution at a time. In every state the loop of a worker reaches, at most one
  execution has a context that is not cancelled: the one the worker would cancel next, and it
  was started for the desired state and the managed flag the worker has seen last. After the
  loop has ended every execution is cancelled or has ended.
\<close>

theorem worker_single_execution:
  assumes "worker_reaches cfg (NewWorker membership role) running w"
  shows "(\<forall>n \<in> live w. desiredCancel w = Some n \<and> Started n (lastDesired w) (lastManaged w) \<in> set (wk_log w))
    \<and> (\<not> running \<longrightarrow> live w = {})"
  using worker_reaches_inv [OF assms] by (auto simp: worker_inv_def)

theorem worker_single_execution_witness:
  "live busy_worker = {0} \<and> desiredCancel busy_worker = Some 0 \<and> Started 0 ''active'' True \<in> set (wk_log busy_worker)"
proof -
  have "live busy_worker = {0}" "lastDesired busy_worker = ''active''" "lastManaged busy_worker"
    by code_simp+
  then show ?thesis
    using worker_single_execution [OF busy_worker_reached [unfolded example_worker_def]] by simp
qed

text \<open>
  C32: the check interval cuts a convergence off. With the default timeouts a worker that sees
  the same desired document cancels its running execution at the first tick that comes five
  seconds after its start, though the converge timeout of the execution is ten seconds: such a
  tick comes before the deadline.
\<close>

theorem check_interval_cuts_convergence:
  assumes "worker_reaches cfg (NewWorker membership role) True w" and "n \<in> live w"
    and "map_of (Roles cfg) (wk_role w) = Some rc" and "Timeouts rc = default_timeouts zero_timeouts"
    and "worker_desired cfg st w = Some (lastDesired w, lastManaged w)"
    and "lastCheckAt w + 5 * Second \<le> t" and "t < lastCheckAt w + Converge (Timeouts rc)"
  shows "Cancelled n \<in> set (wk_log (worker_reconcile cfg st t w))
    \<and> live (worker_reconcile cfg st t w) = {wk_next w}"
proof -
  have inv: "worker_inv True w" by (rule worker_reaches_inv [OF assms(1)])
  have "w\<lparr>lastDesired := lastDesired w, lastManaged := lastManaged w, lastCheckAt := t\<rparr> = w\<lparr>lastCheckAt := t\<rparr>" by simp
  then have s: "worker_reconcile cfg st t w = started (lastDesired w) (lastManaged w) t w"
    using assms(3-6) by (simp add: worker_reconcile_def started_def default_timeouts_def default_dur_def zero_timeouts_def Second_def)
  have "desiredCancel w = Some n" using inv assms(2) by (auto simp: worker_inv_def)
  then have "Cancelled n \<in> set (wk_log (started (lastDesired w) (lastManaged w) t w))"
    by (simp add: started_def startDesiredExecution_def cancelCurrentDesired_def Let_def)
  then show ?thesis using worker_inv_started [OF inv] by (simp add: s)
qed

theorem check_interval_cuts_convergence_witness:
  "Cancelled 0 \<in> set (wk_log (worker_reconcile worker_cfg desired_store (zero_time + 1 + 6 * Second) busy_worker))"
proof -
  have "0 \<in> live busy_worker" "wk_role busy_worker = wk_role example_worker"
      "worker_desired worker_cfg desired_store busy_worker = Some (lastDesired busy_worker, lastManaged busy_worker)"
      "lastCheckAt busy_worker = zero_time + 1"
    by code_simp+
  then show ?thesis
    using check_interval_cuts_convergence [OF busy_worker_reached [unfolded example_worker_def], of 0 _ desired_store "zero_time + 1 + 6 * Second"]
      node_role by (simp add: default_timeouts_def default_dur_def zero_timeouts_def Second_def)
qed



text \<open>
  A relative base directory is applied again by every execution. \<^verbatim>\<open>toExecutorActors\<close> writes
  the resolved path into the configuration, so the execution after one that got as far as
  building its executor runs \<^verbatim>\<open>base/base/program\<close>, which is not the program of the first.
\<close>

theorem base_dir_applied_again:
  assumes "applyDesired cfg svc os view polls wk desired managed w = Some ((state, cfg'), w')" and "sessionLeaseID w \<noteq> 0"
    and "map_of (Roles cfg) (wk_role wk) = Some rc" and "Actors rc = [(name, program # args)]"
    and "ActorsBaseDir (NodeCfg cfg) = base" and "id_ok base" and "id_ok program"
  shows "re_Actors (fst (executor_of rc cfg)) = [(name, join ''/'' [base, program] # args)]
    \<and> (\<exists>rc'. map_of (Roles cfg') (wk_role wk) = Some rc'
         \<and> re_Actors (fst (executor_of rc' cfg')) = [(name, join ''/'' [base, base, program] # args)])"
proof -
  have wait: "waitForSessionLease polls w = Some (None, w)" by (rule waitForSessionLease_held [OF assms(2)])
  have base: "hd base \<noteq> slash" "base \<noteq> []" "program \<noteq> []" "hd program \<noteq> slash"
    using assms(6,7) by (auto simp: id_ok_def dest: hd_in_set)
  have first: "ResolveActorPath cfg program = join ''/'' [base, program]"
    using path_join_rel [of "[base, program]"] assms(5-7) base not_rooted [of program "[]"] by (simp add: ResolveActorPath_def)
  obtain src where src: "src = [(name, join ''/'' [base, program] # args)]" "cfg' = set_actors (wk_role wk) src cfg"
    using assms(1,3,4) wait first
    by (auto simp: applyDesired_def executor_of_def toExecutorActors_def Let_def split: option.splits prod.splits)
  have cfg': "NodeCfg cfg' = NodeCfg cfg" "map_of (Roles cfg') (wk_role wk) = Some (rc\<lparr>Actors := src\<rparr>)"
    using src assms(3) by (simp_all add: set_actors_def map_of_set_actors)
  have "ResolveActorPath cfg' (join ''/'' [base, program]) = join ''/'' [base, base, program]"
    using path_join_rel [of "[base, base, program]"] assms(5-7) base cfg'(1)
    by (simp add: ResolveActorPath_def path_join_def not_rooted)
  then show ?thesis
    using assms(4) first cfg' src(1) by (simp add: executor_of_def toExecutorActors_def Let_def)
qed

theorem base_dir_applied_again_witness:
  "\<exists>state cfg' w' rc'. applyDesired worker_cfg mem_service node_os node_view [] example_worker ''active'' False node_world
       = Some ((state, cfg'), w')
     \<and> map_of (Roles cfg') ''app'' = Some rc' \<and> re_Actors (fst (executor_of rc' cfg')) = [(ProbeActive, [''bin/bin/probe''])]"
proof -
  let ?rc = "example_role\<lparr>Actors := [(ProbeActive, [''probe''])], Timeouts := default_timeouts zero_timeouts\<rparr>"
  have held: "sessionLeaseID node_world \<noteq> 0" by (simp add: node_world_def)
  obtain e src where e: "executor_of ?rc worker_cfg = (e, src)" by fastforce
  obtain state cfg' w' where run: "applyDesired worker_cfg mem_service node_os node_view [] example_worker ''active'' False node_world
      = Some ((state, cfg'), w')"
    by (simp add: applyDesired_def waitForSessionLease_held [OF held] node_role e Let_def case_prod_beta)
  have "ActorsBaseDir (NodeCfg worker_cfg) = ''bin''" "id_ok ''bin''" "id_ok ''probe''" "wk_role example_worker = ''app''"
    by code_simp+
  then show ?thesis
    using base_dir_applied_again [OF run held node_role, of ProbeActive "''probe''" "[]" "''bin''"] run by simp
qed

end
