(* ===== verification/ClosedLoop.thy ===== *)
theory ClosedLoop
  imports Aggregation Workers
begin

text \<open>
  The agent and the controller together: the executions of the roles of a node change what etcd
  holds, a store follows etcd, and the controller reads the state of the group from the store.
\<close>

section \<open>Frames of an execution\<close>

text \<open>The actors do not write to etcd.\<close>

definition actors_leave :: "('e \<Rightarrow> string \<rightharpoonup> bytes) \<Rightarrow> 'e os \<Rightarrow> bool" where
  "actors_leave kv os \<longleftrightarrow> (\<forall>s path. kv (snd (os_stat os s path)) = kv s)
     \<and> (\<forall>s argv env d. kv (snd (os_run os s argv env d)) = kv s)"

lemma actors_leave_keep: "actors_leave kv os \<Longrightarrow> runs_keep os (\<lambda>s. kv s k = v) UNIV"
  by (simp add: actors_leave_def runs_keep_def)

lemma applyDesired_config:
  assumes "applyDesired cfg svc os view polls wk desired managed w = Some ((state, cfg'), w')"
  shows "cfg' = cfg \<or> (\<exists>src. cfg' = set_actors (wk_role wk) src cfg)"
  using assms by (auto simp: applyDesired_def Let_def case_prod_beta split: option.splits if_splits)

context etcd_kv
begin

lemma writeStatus_leaves:
  assumes "k \<notin> own_keys cfg wk"
  shows "kv (service_state (writeStatus cfg svc view wk status w)) k = kv (service_state w) k"
proof -
  have frame: "kv (service_state (snd (write_leased svc k' doc l w))) k = kv (service_state w) k" if "k' \<noteq> k" for k' doc l w
  proof (cases doc)
    case (Some b)
    obtain r w' where "Put svc k' b l w = (r, w')" by fastforce
    then show ?thesis using Put_other [of k' b l w r w' k] that Some by (simp add: write_leased_def PutWithLease_def)
  qed (simp add: write_leased_def)
  have own: "own_actual_key cfg wk \<noteq> k" "own_health_key cfg wk \<noteq> k" using assms by (auto simp: own_keys_def)
  show ?thesis
  proof (cases rule: writeStatus_cases [where w = w and cfg = cfg and svc = svc and view = view and wk = wk and status = status])
    case (leased w1 actual health e w2)
    have "kv (service_state w2) k = kv (service_state w1) k"
      using leased(5) frame [OF own(1)] by (metis snd_conv)
    then show ?thesis using leased(2) frame [OF own(2)] unfolding leased(6) by (simp add: now_def)
  qed simp
qed

lemma applyDesired_leaves:
  assumes "actors_leave kv os" and "sessionLeaseID w \<noteq> 0" and "k \<notin> own_keys cfg wk"
    and "applyDesired cfg svc os view polls wk desired managed w = Some (r, w')"
  shows "kv (service_state w') k = kv (service_state w) k"
proof -
  let ?v = "kv (service_state w) k"
  let ?R = "\<lambda>w w'. kv (service_state w) k = ?v \<longrightarrow> kv (service_state w') k = ?v"
  have wait: "waitForSessionLease polls w = Some (None, w)" by (rule waitForSessionLease_held [OF assms(2)])
  show ?thesis
  proof (cases "map_of (Roles cfg) (wk_role wk)")
    case None
    then show ?thesis using assms(4) writeStatus_leaves [OF assms(3)] by (auto simp: applyDesired_def wait)
  next
    case (Some rc)
    obtain e src where e: "executor_of rc cfg = (e, src)" by fastforce
    let ?cfg = "set_actors (wk_role wk) src cfg" and ?req = "request_of (set_actors (wk_role wk) src cfg) wk desired"
    have wrote: "kv (service_state (writeStatus ?cfg svc view wk status w)) k = kv (service_state w) k" for status w
      by (rule writeStatus_leaves) (simp add: assms(3))
    note steps = runs_keep_steps [OF actors_leave_keep [OF assms(1)], of k ?v ?req]
    obtain status w1 where run: "(if managed then Reconcile_role os e ?req (Some (writeStatus ?cfg svc view wk)) w
          else Some (ReconcileDisabled os e ?req w)) = Some (status, w1)" "w' = writeStatus ?cfg svc view wk status w1"
      using assms(4) by (auto simp: applyDesired_def wait Some e Let_def split: option.splits)
    have "?R w w1"
    proof (cases managed)
      case True
      then show ?thesis
        using role_steps.Reconcile_role_steps [OF steps, of e "Some (writeStatus ?cfg svc view wk)" w status w1] run(1) wrote by simp
    next
      case False
      then show ?thesis using role_steps.ReconcileDisabled_steps [OF steps, of e w status w1] run(1) by simp
    qed
    then show ?thesis using wrote run(2) by simp
  qed
qed

text \<open>An execution that has ended reports its state, whenever that was.\<close>

lemma execution_result:
  fixes view :: "'e world \<Rightarrow> StateStore"
  assumes "puts_succeed svc" and "clock_ok w" and "sessionLeaseID w \<noteq> 0" and "worker_ids_ok cfg wk"
    and "\<forall>v. \<forall>k \<in> own_keys cfg wk. Get (view v) k = map_option normalizeJSON (kv (service_state v) k)"
    and "map_of (Roles cfg) (wk_role wk) = Some rc"
    and "applyDesired cfg svc os view polls wk desired managed w = Some ((state, cfg'), w')"
  shows "\<exists>health. reported (kv (service_state w')) cfg wk (toActualState state) health"
    and "state = desired \<or> state = ''failed''" and "quiet (own_put cfg wk) w w'"
proof -
  obtain e src where e: "executor_of rc cfg = (e, src)" by fastforce
  let ?cfg = "set_actors (wk_role wk) src cfg"
  have wait: "waitForSessionLease polls w = Some (None, w)" by (rule waitForSessionLease_held [OF assms(3)])
  obtain status w1 where run: "(if managed then Reconcile_role os e (request_of ?cfg wk desired) (Some (writeStatus ?cfg svc view wk)) w
        else Some (ReconcileDisabled os e (request_of ?cfg wk desired) w)) = Some (status, w1)"
      "w' = writeStatus ?cfg svc view wk status w1" "state = rs_State status"
    using assms(7) by (auto simp: applyDesired_def wait assms(6) e Let_def split: option.splits)
  have q: "quiet (own_put cfg wk) w w1"
  proof (cases managed)
    case True
    then show ?thesis
      using run(1) quiet.Reconcile_role_steps [of os e _ _ w status w1 "own_put cfg wk"] writeStatus_quiet [of ?cfg wk _ svc view] by simp
  next
    case False
    then show ?thesis using run(1) quiet.ReconcileDisabled_steps [of os e _ w status w1] by simp
  qed
  then have "clock_ok w1" "sessionLeaseID w1 \<noteq> 0" using assms(2,3) by (auto simp: quiet_def adds_def clock_ok_def)
  then show "\<exists>health. reported (kv (service_state w')) cfg wk (toActualState state) health"
    using writeStatus_reports [OF assms(1), of w1 ?cfg wk view status] assms(4,5) run(2,3) by auto
  show "state = desired \<or> state = ''failed''" using execution_status [OF run(1)] run(3) by (auto simp: request_of_def)
  show "quiet (own_put cfg wk) w w'"
    using q writeStatus_quiet [of ?cfg wk w1 svc view status] run(2) by (auto simp: quiet_def intro: adds_trans)
qed

end

section \<open>The roles of a group on a node\<close>

text \<open>
  The node executes a desired state for the roles of one of its groups; the workers run one
  after the other here, each on what the one before has left.
\<close>

fun execute_roles :: "Config \<Rightarrow> 'e etcd_service \<Rightarrow> 'e os \<Rightarrow> ('e world \<Rightarrow> StateStore) \<Rightarrow> MembershipConfig \<Rightarrow>
    DesiredState \<Rightarrow> bool \<Rightarrow> string list \<Rightarrow> 'e world \<Rightarrow> (ActualState list \<times> 'e world) option" where
  "execute_roles cfg svc os view m desired managed [] w = Some ([], w)"
| "execute_roles cfg svc os view m desired managed (r # rs) w =
     (case applyDesired cfg svc os view [] (NewWorker m r) desired managed w of
        None \<Rightarrow> None
      | Some ((state, cfg), w) \<Rightarrow>
          map_option (\<lambda>(states, w). (state # states, w)) (execute_roles cfg svc os view m desired managed rs w))"

text \<open>The node hosts these roles: its configuration has them, and its store follows etcd on their keys.\<close>

definition hosts :: "('e \<Rightarrow> string \<rightharpoonup> bytes) \<Rightarrow> ('e world \<Rightarrow> StateStore) \<Rightarrow> Config \<Rightarrow> MembershipConfig \<Rightarrow> string list \<Rightarrow> bool" where
  "hosts kv view cfg m rs \<longleftrightarrow> id_ok (cl_ID (Cluster cfg)) \<and> id_ok (NodeID (NodeCfg cfg)) \<and> group_ok (mc_ClusterGroup m)
     \<and> member_ok (mc_ManagementGroup m) \<and> distinct rs
     \<and> (\<forall>r \<in> set rs. id_ok r \<and> r \<in> fst ` set (Roles cfg) \<and>
         (\<forall>v. \<forall>k \<in> own_keys cfg (NewWorker m r). Get (view v) k = map_option normalizeJSON (kv (service_state v) k)))"

lemma worker_fields [simp]: "wk_role (NewWorker m r) = r" "wk_membership (NewWorker m r) = m"
  by (simp_all add: NewWorker_def)

lemma hosts_set_actors [simp]: "hosts kv view (set_actors n src cfg) m rs = hosts kv view cfg m rs"
proof -
  have "fst ` set (Roles (set_actors n src cfg)) = fst ` set (Roles cfg)" by (force simp: set_actors_def)
  moreover have "cl_ID (Cluster (set_actors n src cfg)) = cl_ID (Cluster cfg)" "NodeID (NodeCfg (set_actors n src cfg)) = NodeID (NodeCfg cfg)"
    by (simp_all add: set_actors_def)
  ultimately show ?thesis by (simp add: hosts_def)
qed

lemma own_role_keys:
  "own_actual_key cfg (NewWorker m r) = entity_key (cl_ID (Cluster cfg)) (ERoleActual (mc_ClusterGroup m) (mc_ManagementGroup m) (NodeID (NodeCfg cfg)) r)"
  "own_health_key cfg (NewWorker m r) = entity_key (cl_ID (Cluster cfg)) (ERoleHealth (mc_ClusterGroup m) (mc_ManagementGroup m) (NodeID (NodeCfg cfg)) r)"
  by (simp_all add: own_actual_key_def own_health_key_def)

lemma hosts_keys_disjoint:
  assumes "hosts kv view cfg m (r # rs)" and "r' \<in> set rs" and "k \<in> own_keys cfg (NewWorker m r')"
  shows "k \<notin> own_keys cfg (NewWorker m r)"
proof -
  have ok: "group_ok (mc_ClusterGroup m)" "member_ok (mc_ManagementGroup m)" "id_ok (NodeID (NodeCfg cfg))" "id_ok r" "id_ok r'"
    using assms(1,2) by (auto simp: hosts_def)
  have "id_ok (cl_ID (Cluster cfg))" "r \<noteq> r'" using assms(1,2) by (auto simp: hosts_def)
  then show ?thesis
    using assms(3) ok by (auto simp: own_keys_def own_role_keys entity_key_inject simp del: entity_key.simps)
qed

lemma hosts_tail: "hosts kv view cfg m (r # rs) \<Longrightarrow> hosts kv view cfg m rs"
  by (simp add: hosts_def)

lemma hosts_worker:
  assumes "hosts kv view cfg m rs" and "r \<in> set rs"
  shows "worker_ids_ok cfg (NewWorker m r)" and "\<exists>rc. map_of (Roles cfg) r = Some rc"
    and "\<forall>v. \<forall>k \<in> own_keys cfg (NewWorker m r). Get (view v) k = map_option normalizeJSON (kv (service_state v) k)"
proof -
  have "r \<in> fst ` set (Roles cfg)" using assms by (simp add: hosts_def)
  then show "\<exists>rc. map_of (Roles cfg) r = Some rc" by (metis map_of_eq_None_iff not_Some_eq)
qed (use assms in \<open>auto simp: hosts_def worker_ids_ok_def group_ok_def member_ok_def\<close>)

context etcd_kv
begin

lemma execute_roles_result:
  assumes "puts_succeed svc" and "actors_leave kv os" and "clock_ok w" and "sessionLeaseID w \<noteq> 0"
    and "hosts kv view cfg m rs" and "execute_roles cfg svc os view m desired managed rs w = Some (states, w')"
  shows "list_all2 (\<lambda>r state. \<exists>health. reported (kv (service_state w')) cfg (NewWorker m r) (toActualState state) health) rs states"
    and "set states \<subseteq> {desired, ''failed''}"
    and "(\<And>r. r \<in> set rs \<Longrightarrow> k \<notin> own_keys cfg (NewWorker m r)) \<Longrightarrow> kv (service_state w') k = kv (service_state w) k"
proof -
  have "list_all2 (\<lambda>r state. \<exists>health. reported (kv (service_state w')) cfg (NewWorker m r) (toActualState state) health) rs states
    \<and> set states \<subseteq> {desired, ''failed''}
    \<and> (\<forall>k. (\<forall>r \<in> set rs. k \<notin> own_keys cfg (NewWorker m r)) \<longrightarrow> kv (service_state w') k = kv (service_state w) k)"
    using assms(3-6)
  proof (induction rs arbitrary: cfg w states)
    case (Cons r rs)
    obtain state cfg1 w1 states1 where step: "applyDesired cfg svc os view [] (NewWorker m r) desired managed w = Some ((state, cfg1), w1)"
      and rest: "execute_roles cfg1 svc os view m desired managed rs w1 = Some (states1, w')" and states: "states = state # states1"
      using Cons.prems(4) by (auto split: option.splits prod.splits)
    obtain rc where rc: "map_of (Roles cfg) r = Some rc" using hosts_worker(2) [OF Cons.prems(3), of r] by auto
    note worker = hosts_worker(1,3) [OF Cons.prems(3), of r, simplified]
    note result = execution_result [OF assms(1) Cons.prems(1,2) worker _ step, unfolded worker_fields, OF rc]
    have frame: "own_keys cfg1 wk = own_keys cfg wk" "reported mp cfg1 wk = reported mp cfg wk"
      "hosts kv view cfg1 m xs = hosts kv view cfg m xs" for wk mp xs
      using applyDesired_config [OF step] by auto
    have "clock_ok w1" "sessionLeaseID w1 \<noteq> 0" using result(3) Cons.prems(1,2) by (auto simp: quiet_def adds_def clock_ok_def)
    note IH = Cons.IH [OF this _ rest, unfolded frame, OF hosts_tail [OF Cons.prems(3)]]
    have keep: "kv (service_state w') k = kv (service_state w1) k" if "k \<in> own_keys cfg (NewWorker m r)" for k
      using IH hosts_keys_disjoint [OF Cons.prems(3)] that by blast
    have "\<exists>health. reported (kv (service_state w')) cfg (NewWorker m r) (toActualState state) health"
      using result(1) keep by (simp add: reported_def own_keys_def)
    moreover have "kv (service_state w1) k = kv (service_state w) k" if "k \<notin> own_keys cfg (NewWorker m r)" for k
      by (rule applyDesired_leaves [OF assms(2) Cons.prems(2) that step])
    ultimately show ?case using IH result(2) by (auto simp: states)
  qed simp
  then show "list_all2 (\<lambda>r state. \<exists>health. reported (kv (service_state w')) cfg (NewWorker m r) (toActualState state) health) rs states"
    and "set states \<subseteq> {desired, ''failed''}"
    and "(\<And>r. r \<in> set rs \<Longrightarrow> k \<notin> own_keys cfg (NewWorker m r)) \<Longrightarrow> kv (service_state w') k = kv (service_state w) k" by blast+
qed

end

section \<open>What the controller sees\<close>

text \<open>
  The group lives on the node alone: in the store of the controller there is no document of
  another role below the group, and no other role is registered for it.
\<close>

definition sole_host :: "Config \<Rightarrow> StateStore \<Rightarrow> string \<Rightarrow> string \<Rightarrow> string \<Rightarrow> string list \<Rightarrow> bool" where
  "sole_host cfg st cg mg n rs \<longleftrightarrow>
     (\<forall>(k, raw) \<in> set (Prefix st (ManagementGroup (cluster_id cfg) cg mg)). has_suffix ''/actual'' k \<longrightarrow>
        k = Actual (cluster_id cfg) cg mg \<or> k \<in> RoleActual (cluster_id cfg) cg mg n ` set rs)
     \<and> (\<forall>x \<in> set (expectedRoleStates cfg st cg mg). ex_NodeID x = n \<and> ex_Role x \<in> set rs)"

text \<open>The store has for a role a document with this state, and a health document.\<close>

definition role_reads :: "StateStore \<Rightarrow> string \<Rightarrow> string \<Rightarrow> string \<Rightarrow> string \<Rightarrow> string \<Rightarrow> ActualState \<Rightarrow> bool" where
  "role_reads st c cg mg n r state \<longleftrightarrow>
     map_option a_State (Option.bind (Get st (RoleActual c cg mg n r)) unmarshal_actual) = Some state
     \<and> Get st (RoleHealth c cg mg n r) \<noteq> None"

lemma reported_role_reads:
  assumes "reported mp cfg (NewWorker m r) state health"
    and "\<forall>k \<in> own_keys cfg (NewWorker m r). Get st k = map_option normalizeJSON (mp k)"
  shows "role_reads st (cl_ID (Cluster cfg)) (mc_ClusterGroup m) (mc_ManagementGroup m) (NodeID (NodeCfg cfg)) r state"
proof -
  have "Get st k = map_option normalizeJSON (mp k)"
    if "k \<in> {own_actual_key cfg (NewWorker m r), own_health_key cfg (NewWorker m r)}" for k
    using assms(2) that by (auto simp: own_keys_def)
  then show ?thesis
    using assms(1)
    by (auto simp: role_reads_def reported_def own_actual_key_def own_health_key_def bind_eq_Some_conv unmarshal_actual_def)
qed

lemma group_docs_states:
  assumes "store_ok st" and "id_ok (cluster_id cfg)" and "group_ok cg" and "member_ok mg" and "mg \<noteq> ''actual''"
    and "id_ok n" and "\<forall>r \<in> set rs. id_ok r" and "sole_host cfg st cg mg n rs"
    and "list_all2 (role_reads st (cluster_id cfg) cg mg n) rs states"
  shows "has_state (group_docs st (cluster_id cfg) cg mg) s \<longleftrightarrow> s \<in> set states"
proof -
  let ?c = "cluster_id cfg"
  have ids: "id_ok cg" "id_ok mg" using assms(3,4) by (simp_all add: group_ok_def member_ok_def)
  note docs = role_docs_group [OF assms(1,2) ids assms(5), symmetric]
  have path: "ManagementGroup ?c cg mg = abs_path [?c, ''cluster'', cg, mg]" using assms(2) ids by (simp add: key_simps)
  have items: "(k, b) \<in> set (Prefix st (ManagementGroup ?c cg mg)) \<longleftrightarrow>
      (\<exists>q. (\<forall>x \<in> set q. seg_ok x) \<and> k = abs_path ([?c, ''cluster'', cg, mg] @ q) \<and> Get st k = Some b)" for k b
    unfolding path using assms(2) ids by (intro set_Prefix [OF assms(1)]) (auto intro: id_seg_ok)
  show ?thesis
  proof
    assume "has_state (group_docs st ?c cg mg) s"
    then obtain doc k raw where d: "a_State doc = s" "(k, raw) \<in> set (Prefix st (ManagementGroup ?c cg mg))"
        "has_suffix ''/actual'' k" "k \<noteq> Actual ?c cg mg" "unmarshal_actual raw = Some doc"
      unfolding docs has_state_def role_docs_def by auto
    then obtain r where r: "r \<in> set rs" "k = RoleActual ?c cg mg n r" using assms(8) unfolding sole_host_def by blast
    then obtain i where i: "i < length rs" "rs ! i = r" by (auto simp: in_set_conv_nth)
    have "Get st k = Some raw" using d(2) items by blast
    then have "states ! i = s"
      using list_all2_nthD [OF assms(9) i(1)] i r(2) d(1,5) by (simp add: role_reads_def)
    then show "s \<in> set states" using i(1) list_all2_lengthD [OF assms(9)] by (metis nth_mem)
  next
    assume "s \<in> set states"
    then obtain i where i: "i < length states" "states ! i = s" by (auto simp: in_set_conv_nth)
    then have len: "i < length rs" using list_all2_lengthD [OF assms(9)] by simp
    define r where "r = rs ! i"
    have "role_reads st ?c cg mg n r s" using list_all2_nthD [OF assms(9) len] i by (simp add: r_def)
    then obtain raw doc where raw: "Get st (RoleActual ?c cg mg n r) = Some raw" "unmarshal_actual raw = Some doc" "a_State doc = s"
      by (auto simp: role_reads_def bind_eq_Some_conv)
    have r: "id_ok r" using assms(7) len by (simp add: r_def)
    then have key: "RoleActual ?c cg mg n r = abs_path ([?c, ''cluster'', cg, mg] @ ((if mg = n then [] else [n]) @ [r]) @ [''actual''])"
      using role_keys(2) [OF assms(2) ids assms(6) r] by simp
    have "doc \<in> group_docs st ?c cg mg"
      unfolding group_docs_def mem_Collect_eq using raw(1,2) r assms(6)
      by (intro exI [of _ "(if mg = n then [] else [n]) @ [r]"] exI [of _ raw]) (simp add: key [simplified])
    then show "has_state (group_docs st ?c cg mg) s" using raw(3) by (auto simp: has_state_def)
  qed
qed

lemma hosted_agents_present:
  assumes "store_ok st" and "id_ok (cluster_id cfg)" and "sole_host cfg st cg mg n rs"
    and "list_all2 (role_reads st (cluster_id cfg) cg mg n) rs states"
  shows "\<not> agent_lost st (cluster_id cfg) cg mg"
proof
  assume "agent_lost st (cluster_id cfg) cg mg"
  then obtain node role where reg: "registers st (cluster_id cfg) cg mg node role"
      and none: "Get st (RoleActual (cluster_id cfg) cg mg node role) = None \<or> Get st (RoleHealth (cluster_id cfg) cg mg node role) = None"
    by (auto simp: agent_lost_def)
  have "\<lparr>ex_NodeID = node, ex_Role = role\<rparr> \<in> set (expectedRoleStates cfg st cg mg)"
    using expected_role_registered [OF assms(1,2)] reg by simp
  then have "node = n" "role \<in> set rs" using assms(3) by (auto simp: sole_host_def)
  then obtain i where "i < length rs" "rs ! i = role" by (auto simp: in_set_conv_nth)
  with list_all2_nthD [OF assms(4), of i] none \<open>node = n\<close> show False by (auto simp: role_reads_def)
qed

lemma hosted_group_status:
  assumes "store_ok st" and "id_ok (cluster_id cfg)" and "group_ok cg" and "member_ok mg" and "mg \<noteq> ''actual''"
    and "id_ok n" and "\<forall>r \<in> set rs. id_ok r" and "sole_host cfg st cg mg n rs"
    and "list_all2 (role_reads st (cluster_id cfg) cg mg n) rs states" and "rs \<noteq> []"
    and "set states \<subseteq> {desired, ActualFailed}" and "desired \<in> {ActualActive, ActualPassive}"
  shows "\<exists>det. group_status cfg st cg mg = (if ActualFailed \<in> set states then (ActualFailed, HealthFailed, det) else (desired, HealthOK, det))"
proof -
  let ?D = "group_docs st (cluster_id cfg) cg mg"
  note has = group_docs_states [OF assms(1-9)]
  have "group_status cfg st cg mg = group_verdict ?D"
    using hosted_agents_present [OF assms(1,2,8,9)] by (simp add: group_status_def)
  moreover have "states \<noteq> []" using assms(9,10) by auto
  then have "desired \<in> set states" if "ActualFailed \<notin> set states"
    using assms(11) that by (cases states) auto
  ultimately show ?thesis
    using assms(11,12) by (auto simp: group_verdict_def has)
qed

section \<open>Properties\<close>


lemma node_view_ok: "store_ok (node_view v)"
proof -
  have "key_ok (own_actual_key worker_cfg example_worker)" "key_ok (own_health_key worker_cfg example_worker)" by code_simp+
  then show ?thesis by (simp add: node_view_def store_ok_new store_ok_insertLocked split: option.splits)
qed

lemma node_run:
  "case execute_roles worker_cfg mem_service node_os node_view \<lparr>mc_ClusterGroup = ''g'', mc_ManagementGroup = ''x''\<rparr> ''active'' False [''app''] node_world of
     None \<Rightarrow> False
   | Some (states, w') \<Rightarrow> states = [''active''] \<and> sole_host worker_cfg (node_view w') ''g'' ''x'' ''n'' [''app'']
       \<and> (case fst (reconcileManagementGroup worker_cfg mem_service (node_view w') ''g'' ''x'' (new_controller, node_world)) of Inl e \<Rightarrow> False | Inr g \<Rightarrow> True)"
  by code_simp

lemma node_id: "NodeID (NodeCfg worker_cfg) = ''n''"
  by code_simp

lemma node_hosts: "hosts (\<lambda>m. map_of (fst m)) node_view worker_cfg \<lparr>mc_ClusterGroup = ''g'', mc_ManagementGroup = ''x''\<rparr> [''app'']"
proof -
  have "id_ok (cl_ID (Cluster worker_cfg)) \<and> id_ok (NodeID (NodeCfg worker_cfg)) \<and> group_ok ''g'' \<and> member_ok ''x'' \<and> id_ok ''app''
      \<and> ''app'' \<in> fst ` set (Roles worker_cfg)" by code_simp
  then show ?thesis using node_view_tracks by (simp add: hosts_def example_worker_def)
qed


end
