(* ===== verification/Handover.thy ===== *)
theory Handover
  imports Cycle ClosedLoop
begin

text \<open>
  A switchover from end to end: the leader drains the owner, the node of the owner stops it, the
  leader activates the target, the node of the target starts it, and the leader sees it run.
  The parts meet in etcd only.
\<close>

section \<open>The steps\<close>

text \<open>A cycle of the leader on a cluster group, from one state of etcd to the next.\<close>

definition cycle_runs :: "('e \<Rightarrow> string \<rightharpoonup> bytes) \<Rightarrow> Config \<Rightarrow> 'e etcd_service \<Rightarrow> StateStore \<Rightarrow> string \<Rightarrow>
    Controller \<Rightarrow> 'e \<Rightarrow> Controller \<Rightarrow> 'e \<Rightarrow> bool" where
  "cycle_runs kv cfg svc st cg c e c' e' \<longleftrightarrow> store_ok st \<and> legible cfg st cg \<and> current cfg st (kv e) cg
     \<and> (\<exists>w w'. service_state w = e \<and> clock_ok w \<and> service_state w' = e' \<and> reconcileClusterGroup cfg svc st cg (c, w) = (c', w'))"

text \<open>A node, with the roles of a group that live on it alone, executes a desired state, and every execution converges.\<close>

record 'e agent =
  ag_cfg :: Config
  ag_os :: "'e os"
  ag_view :: "'e world \<Rightarrow> StateStore"
  ag_roles :: "string list"

definition group_of :: "string \<Rightarrow> string \<Rightarrow> MembershipConfig" where
  "group_of cg mg = \<lparr>mc_ClusterGroup = cg, mc_ManagementGroup = mg\<rparr>"

definition node_runs :: "('e \<Rightarrow> string \<rightharpoonup> bytes) \<Rightarrow> 'e etcd_service \<Rightarrow> 'e agent \<Rightarrow> string \<Rightarrow> string \<Rightarrow> DesiredState \<Rightarrow> 'e \<Rightarrow> 'e \<Rightarrow> bool" where
  "node_runs kv svc a cg mg s e e' \<longleftrightarrow> actors_leave kv (ag_os a) \<and> hosts kv (ag_view a) (ag_cfg a) (group_of cg mg) (ag_roles a)
     \<and> ag_roles a \<noteq> []
     \<and> (\<exists>w w' managed states. service_state w = e \<and> clock_ok w \<and> sessionLeaseID w \<noteq> 0 \<and> service_state w' = e'
        \<and> execute_roles (ag_cfg a) svc (ag_os a) (ag_view a) (group_of cg mg) s managed (ag_roles a) w = Some (states, w')
        \<and> ActualFailed \<notin> set states)"

text \<open>The store of the leader has what the node reported, and no other role of the group.\<close>

definition sees_node :: "('e \<Rightarrow> string \<rightharpoonup> bytes) \<Rightarrow> Config \<Rightarrow> StateStore \<Rightarrow> 'e agent \<Rightarrow> string \<Rightarrow> string \<Rightarrow> 'e \<Rightarrow> bool" where
  "sees_node kv cfg st a cg mg e \<longleftrightarrow> cluster_id cfg = cl_ID (Cluster (ag_cfg a)) \<and> store_ok st
     \<and> sole_host cfg st cg mg (NodeID (NodeCfg (ag_cfg a))) (ag_roles a)
     \<and> (\<forall>r \<in> set (ag_roles a). \<forall>k \<in> own_keys (ag_cfg a) (NewWorker (group_of cg mg) r). Get st k = map_option normalizeJSON (kv e k))"

context etcd_kv
begin

lemma node_run_keeps_desired:
  assumes "puts_succeed svc" and "node_runs kv svc a cg mg s e e'" and "id_ok (cl_ID (Cluster (ag_cfg a)))" and "group_ok cg'" and "member_ok mg'"
  shows "kv e' (Desired (cl_ID (Cluster (ag_cfg a))) cg' mg') = kv e (Desired (cl_ID (Cluster (ag_cfg a))) cg' mg')"
proof -
  let ?c = "cl_ID (Cluster (ag_cfg a))"
  obtain w w' managed states where run: "service_state w = e" "clock_ok w" "sessionLeaseID w \<noteq> 0" "service_state w' = e'"
      "execute_roles (ag_cfg a) svc (ag_os a) (ag_view a) (group_of cg mg) s managed (ag_roles a) w = Some (states, w')"
    and h: "actors_leave kv (ag_os a)" "hosts kv (ag_view a) (ag_cfg a) (group_of cg mg) (ag_roles a)"
    using assms(2) by (auto simp: node_runs_def)
  have "Desired ?c cg' mg' \<notin> own_keys (ag_cfg a) (NewWorker (group_of cg mg) r)" if "r \<in> set (ag_roles a)" for r
  proof -
    have ok: "entity_ok (ERoleActual cg mg (NodeID (NodeCfg (ag_cfg a))) r)" "entity_ok (ERoleHealth cg mg (NodeID (NodeCfg (ag_cfg a))) r)"
      using h(2) that by (auto simp: hosts_def group_of_def)
    then show ?thesis
      using entity_key_inject [OF assms(3) _ ok(1), of "EDesired cg' mg'"] entity_key_inject [OF assms(3) _ ok(2), of "EDesired cg' mg'"] assms(4,5)
      by (simp add: own_keys_def own_role_keys group_of_def)
  qed
  from execute_roles_result(3) [OF assms(1) h(1) run(2,3) h(2) run(5) this] show ?thesis by (simp add: run(1,4))
qed

lemma node_run_seen:
  assumes "puts_succeed svc" and "node_runs kv svc a cg mg s e e'" and "sees_node kv cfg st a cg mg e'" and "mg \<noteq> ''actual''"
    and "s \<in> {DesiredActive, DesiredPassive}"
  shows "gr_Actual (seen_group cfg st cg mg) = s \<and> gr_Available (seen_group cfg st cg mg)"
proof -
  let ?n = "NodeID (NodeCfg (ag_cfg a))" and ?rs = "ag_roles a"
  obtain w w' managed states where run: "clock_ok w" "sessionLeaseID w \<noteq> 0" "service_state w' = e'"
      "execute_roles (ag_cfg a) svc (ag_os a) (ag_view a) (group_of cg mg) s managed ?rs w = Some (states, w')" "ActualFailed \<notin> set states"
    and h: "actors_leave kv (ag_os a)" "hosts kv (ag_view a) (ag_cfg a) (group_of cg mg) ?rs" "?rs \<noteq> []"
    using assms(2) by (auto simp: node_runs_def)
  note result = execute_roles_result(1,2) [OF assms(1) h(1) run(1,2) h(2) run(4)]
  have c: "cluster_id cfg = cl_ID (Cluster (ag_cfg a))" "store_ok st" "sole_host cfg st cg mg ?n ?rs"
    using assms(3) by (simp_all add: sees_node_def)
  have ok: "id_ok (cluster_id cfg)" "id_ok ?n" "group_ok cg" "member_ok mg" "\<forall>r \<in> set ?rs. id_ok r"
    using h(2) by (auto simp: hosts_def group_of_def c(1))
  have states: "set states \<subseteq> {s, ActualFailed}" using result(2) by simp
  have reads: "list_all2 (role_reads st (cluster_id cfg) cg mg ?n) ?rs states"
  proof (rule list_all2_all_nthI)
    show "length ?rs = length states" using result(1) by (rule list_all2_lengthD)
    fix i assume i: "i < length ?rs"
    then have "states ! i \<in> {s, ActualFailed}" using states list_all2_lengthD [OF result(1)] nth_mem by fastforce
    then have "toActualState (states ! i) = states ! i" using assms(5) by (auto simp: toActualState_def)
    then obtain health where "reported (kv (service_state w')) (ag_cfg a) (NewWorker (group_of cg mg) (?rs ! i)) (states ! i) health"
      using list_all2_nthD [OF result(1) i] by auto
    from reported_role_reads [OF this, of st] assms(3) nth_mem [OF i]
    show "role_reads st (cluster_id cfg) cg mg ?n (?rs ! i) (states ! i)" by (auto simp: sees_node_def group_of_def run(3))
  qed
  have "s \<in> {ActualActive, ActualPassive}" using assms(5) by simp
  then obtain det where "group_status cfg st cg mg = (s, HealthOK, det)"
    using hosted_group_status [OF c(2) ok(1,3,4) assms(4) ok(2,5) c(3) reads h(3) states] run(5) by auto
  then show ?thesis using assms(5) by (auto simp: seen_group_def split: prod.splits)
qed

text \<open>What a cycle of two phases does, in a cluster group that does not fail over by itself.\<close>

lemma cycle_policy:
  assumes "puts_succeed svc" and "id_ok (cluster_id cfg)" and "group_ok cg" and "FailoverMode (Cluster cfg) \<noteq> ''automatic''"
    and "cycle_runs kv cfg svc st cg c e c' e'" and "findTarget (seen_groups cfg st cg) = Some t"
  obtains c1 w1 w2 w' where "switchover cfg svc st cg (seen_groups cfg st cg) t (c1, w1) = (None, c', w')"
    "switchoverTarget c1 = switchoverTarget c" "switchoverStarted c1 = switchoverStarted c"
    "groups_read cfg st cg (seen_groups cfg st cg) (kv (service_state w1))"
    "write_plan cfg svc st (plan c1 cg (seen_groups cfg st cg)) w1 = (None, w2)" "service_state w2 = e'"
proof -
  obtain w w' where run: "service_state w = e" "clock_ok w" "service_state w' = e'" "reconcileClusterGroup cfg svc st cg (c, w) = (c', w')"
    and st: "store_ok st" "legible cfg st cg" "current cfg st (kv (service_state w)) cg"
    using assms(5) by (auto simp: cycle_runs_def)
  obtain c1 w1 where pol: "applyPriorityPolicy cfg svc st cg (seen_groups cfg st cg) (c1, w1) = (None, c', w')"
      and c1: "switchoverTarget c1 = switchoverTarget c" "switchoverStarted c1 = switchoverStarted c"
      and t: "touches kv (status_keys (cluster_id cfg) cg) w w1"
    using reconcileClusterGroup_done [OF assms(1) run(2) st(1) assms(2,3) _ run(4)] st(2) by (auto simp: legible_def)
  have ns: "\<not> swaps cfg svc st cg (seen_groups cfg st cg) w1" using assms(4) by (simp add: swaps_def)
  have same: "\<not> allSamePriority (seen_groups cfg st cg)" using st(2) by (simp add: legible_def)
  obtain w2 where w2: "write_plan cfg svc st (plan c1 cg (seen_groups cfg st cg)) w1 = (None, w2)" "service_state w' = service_state w2"
    using policy_plan [OF pol ns] by blast
  show thesis
    by (rule that [OF _ c1 cycle_groups_read(2) [OF st(1) assms(2,3) st(2,3) t] w2(1)])
      (use pol w2(2) run(3) in \<open>simp_all add: applyPriorityPolicy_switchover [OF same ns assms(6)]\<close>)
qed

lemma cycle_drains:
  assumes "puts_succeed svc" and "id_ok (cluster_id cfg)" and "group_ok cg" and "FailoverMode (Cluster cfg) \<noteq> ''automatic''"
    and "cycle_runs kv cfg svc st cg c e c' e'" and "findTarget (seen_groups cfg st cg) = Some t"
    and "draining (seen_groups cfg st cg)" and "findCurrentActive (seen_groups cfg st cg) \<noteq> gr_ManagementGroup t"
    and "switchoverStarted c (cg @ ''/'' @ findCurrentActive (seen_groups cfg st cg)) = None"
  shows "desires (kv e') (Desired (cluster_id cfg) cg (findCurrentActive (seen_groups cfg st cg))) DesiredPassive
    \<and> switchoverTarget c' cg = Some (gr_ManagementGroup t) \<and> managed_name (findCurrentActive (seen_groups cfg st cg))"
proof -
  let ?gs = "seen_groups cfg st cg"
  let ?y = "findCurrentActive ?gs"
  have same: "\<not> allSamePriority ?gs" and legible: "legible cfg st cg" using assms(5) by (simp_all add: cycle_runs_def legible_def)
  from cycle_policy [OF assms(1-6)] obtain c1 w1 w2 w' where
    h: "switchover cfg svc st cg ?gs t (c1, w1) = (None, c', w')" "switchoverStarted c1 = switchoverStarted c"
      "groups_read cfg st cg ?gs (kv (service_state w1))" "write_plan cfg svc st (plan c1 cg ?gs) w1 = (None, w2)" "service_state w2 = e'" by metis
  have y: "?y \<in> set (listed cfg st cg)"
  proof -
    have "?y \<noteq> []" using assms(7) by (simp add: draining_def)
    then obtain g where g: "g \<in> set ?gs" "gr_ManagementGroup g = ?y" by (rule findCurrentActive_in)
    then obtain mg where "mg \<in> set (listed cfg st cg)" "g = seen_group cfg st cg mg" unfolding seen_groups_def by auto
    then show ?thesis using g(2) by (metis seen_group_fields(2))
  qed
  then have "seen_group cfg st cg ?y \<in> set ?gs" by (simp add: seen_groups_def)
  moreover have "(cg, ?y, DesiredPassive) \<in> set (plan c1 cg ?gs)" using same assms(6-8) by (simp add: plan_def Let_def)
  ultimately have "desires (kv (service_state w2)) (Desired (cluster_id cfg) cg ?y) DesiredPassive"
    using policy_plan_kv(1) [OF h(3) same h(4), of "seen_group cfg st cg ?y" DesiredPassive] by simp
  moreover have "switchoverTarget c' cg = Some (gr_ManagementGroup t)"
    using h(1) assms(9) unfolding switchover_drain [OF assms(8,7)] note_switchover_def Let_def
    by (auto simp: h(2) now_def split: prod.splits option.splits)
  ultimately show ?thesis using h(5) listed_names(1) [OF legible y] by simp
qed

lemma cycle_activates:
  assumes "puts_succeed svc" and "id_ok (cluster_id cfg)" and "group_ok cg" and "FailoverMode (Cluster cfg) \<noteq> ''automatic''"
    and "cycle_runs kv cfg svc st cg c e c' e'" and "findTarget (seen_groups cfg st cg) = Some t"
    and "findCurrentActive (seen_groups cfg st cg) = []" and "switchoverTarget c cg = Some (gr_ManagementGroup t)"
  shows "desires (kv e') (Desired (cluster_id cfg) cg (gr_ManagementGroup t)) DesiredActive \<and> switchoverTarget c' cg = None
    \<and> managed_name (gr_ManagementGroup t)"
proof -
  let ?gs = "seen_groups cfg st cg"
  let ?x = "gr_ManagementGroup t"
  have same: "\<not> allSamePriority ?gs" and legible: "legible cfg st cg" using assms(5) by (simp_all add: cycle_runs_def legible_def)
  from cycle_policy [OF assms(1-6)] obtain c1 w1 w2 w' where
    h: "switchover cfg svc st cg ?gs t (c1, w1) = (None, c', w')" "switchoverTarget c1 = switchoverTarget c"
      "groups_read cfg st cg ?gs (kv (service_state w1))" "write_plan cfg svc st (plan c1 cg ?gs) w1 = (None, w2)" "service_state w2 = e'" by metis
  have t: "t \<in> set ?gs" using findTarget_spec [OF assms(6)] by blast
  then have x: "?x \<in> set (listed cfg st cg)" and tc: "gr_ClusterGroup t = cg" by (auto simp: seen_groups_def)
  then have ne: "?x \<noteq> []" using listed_names(2) [OF legible] by (auto simp: member_ok_def id_ok_def)
  have nd: "\<not> draining ?gs" using assms(7) by (simp add: draining_def)
  have target: "go_index (switchoverTarget c1) [] cg = ?x" by (simp add: h(2) assms(8) go_index_def)
  have "(cg, ?x, DesiredActive) \<in> set (plan c1 cg ?gs)" using same assms(6,7) nd target ne tc by (simp add: plan_def Let_def)
  then have "desires (kv (service_state w2)) (Desired (cluster_id cfg) cg ?x) DesiredActive"
    using policy_plan_kv(1) [OF h(3) same h(4) t, of DesiredActive] by simp
  moreover have "switchoverTarget c' cg = None"
  proof -
    have cur: "findCurrentActive ?gs \<noteq> ?x" "findCurrentActive ?gs \<noteq> [] \<or> go_index (switchoverTarget c1) [] cg = ?x"
      using ne target assms(7) by simp_all
    obtain r v where rv: "writeDesiredIfChanged cfg svc st (gr_ClusterGroup t) ?x DesiredActive w1 = (r, v)" by fastforce
    obtain r' v' where rv': "write_others_passive cfg svc st ?x ?gs v = (r', v')" by fastforce
    obtain c2 where "switchoverTarget c2 cg = None"
        "switchover cfg svc st cg ?gs t (c1, w1) = (case r of Some err \<Rightarrow> (Some err, c2, v) | None \<Rightarrow> (r', c2, v'))"
      using switchover_activate [OF cur(1) nd cur(2), of cfg svc st w1]
      by (cases r) (auto simp: rv rv' simp del: DesiredActive_def)
    then show ?thesis using h(1) by (auto split: option.splits)
  qed
  ultimately show ?thesis using h(5) listed_names(1) [OF legible x] by simp
qed

end

section \<open>Properties\<close>

lemma desired_read:
  assumes "current cfg st m cg" and "managed_name mg" and "desires m (Desired (cluster_id cfg) cg mg) s"
  shows "readDesired cfg st cg mg = (s, True)"
proof -
  obtain b d where b: "m (Desired (cluster_id cfg) cg mg) = Some b" "unmarshal_desired b = Some d" "d_State d = s" "d_Managed d"
    using assms(3) by (auto simp: desires_def bind_eq_Some_conv)
  have "Get st (Desired (cluster_id cfg) cg mg) = Some (normalizeJSON b)" using assms(1,2) b(1) by (simp add: current_def)
  moreover have "unmarshal_desired (normalizeJSON b) = Some d" using b(2) by (simp add: unmarshal_desired_def unmarshal_normalizeJSON)
  ultimately show ?thesis using b(3,4) by (simp add: readDesired_def)
qed

text \<open>A group that no one owns: not told to be active, and not running when told to be passive.\<close>

definition idle :: "groupRuntime \<Rightarrow> bool" where
  "idle g \<longleftrightarrow> \<not> (gr_Desired g = DesiredActive \<and> gr_Managed g)
     \<and> \<not> (gr_Desired g = DesiredPassive \<and> gr_Actual g \<in> {ActualActive, ActualStopping, ActualStarting})"


text \<open>Two groups of one node: \<open>y\<close> runs, \<open>x\<close> is better.\<close>

definition hand_cfg :: Config where
  "hand_cfg = worker_cfg\<lparr>Roles := [(''app'', example_role\<lparr>Actors := [(ProbeActive, [''probe'']), (ProbePassive, [''probe''])],
     Timeouts := default_timeouts zero_timeouts\<rparr>)]\<rparr>"

definition hand_worker :: "string \<Rightarrow> Worker" where
  "hand_worker mg = NewWorker (group_of ''g'' mg) ''app''"

definition hand_view :: "string \<Rightarrow> mem_etcd world \<Rightarrow> StateStore" where
  "hand_view mg v = foldr (\<lambda>k s. case map_of (fst (service_state v)) k of None \<Rightarrow> s | Some b \<Rightarrow> insertLocked s k b)
     [own_actual_key hand_cfg (hand_worker mg), own_health_key hand_cfg (hand_worker mg)] new_store"

definition hand_agent :: "string \<Rightarrow> mem_etcd agent" where
  "hand_agent mg = \<lparr>ag_cfg = hand_cfg, ag_os = node_os, ag_view = hand_view mg, ag_roles = [''app'']\<rparr>"

definition hand_entities :: "entity list" where
  "hand_entities = concat (map (\<lambda>mg. [EDesired ''g'' mg, EGroupConfig ''g'' mg, EActual ''g'' mg, EHealth ''g'' mg,
     ERoleActual ''g'' mg ''n'' ''app'', ERoleHealth ''g'' mg ''n'' ''app'']) [''x'', ''y''])"

definition store_at :: "mem_etcd \<Rightarrow> StateStore" where
  "store_at e = LoadSnapshot new_store (fst e) 1"

definition world_at :: "mem_etcd \<Rightarrow> mem_etcd world" where
  "world_at e = (example_world [])\<lparr>service_state := e, sessionLeaseID := 7\<rparr>"

text \<open>A cycle with the groups it reads, and an execution with its states.\<close>

definition hand_cycle :: "Controller \<Rightarrow> mem_etcd \<Rightarrow> groupRuntime list \<times> Controller \<times> mem_etcd" where
  "hand_cycle c e =
     (let st = store_at e; cfg = example_cfg ''manual''; mgs = ListChildren st (ClusterGroup ''c'' ''g'');
          c = (if go_index (lastManagementGroups c) [] ''g'' \<noteq> mgs
               then c\<lparr>lastManagementGroups := (lastManagementGroups c)(''g'' \<mapsto> mgs)\<rparr> else c);
          (gs, cw) = reconcile_groups cfg mem_service st ''g'' mgs (c, world_at e);
          (err, c, w) = applyPriorityPolicy cfg mem_service st ''g'' gs cw
      in (gs, c, service_state w))"

definition hand_node :: "string \<Rightarrow> DesiredState \<Rightarrow> mem_etcd \<Rightarrow> (ActualState list \<times> mem_etcd) option" where
  "hand_node mg s e = map_option (\<lambda>(states, w'). (states, service_state w'))
     (execute_roles hand_cfg mem_service node_os (hand_view mg) (group_of ''g'' mg) s False [''app''] (world_at e))"

text \<open>etcd holds documents of these entities only, each once, and lists the two groups.\<close>

definition hand_keys :: "mem_etcd \<Rightarrow> bool" where
  "hand_keys e \<longleftrightarrow> (let keys = map (entity_key ''c'') hand_entities in list_all (\<lambda>k. k \<in> set keys) (map fst (fst e))) \<and> distinct (map fst (fst e))
     \<and> ListChildren (store_at e) (ClusterGroup ''c'' ''g'') = [''x'', ''y'']"

definition hand0 :: mem_etcd where
  "hand0 = service_state (example_world (pair_items DesiredPassive True DesiredActive True
     @ [(ERoleActual ''g'' ''y'' ''n'' ''app'', actual_json ''active''), (ERoleHealth ''g'' ''y'' ''n'' ''app'', health_json ''ok'')]))"

definition hand_check :: bool where
  "hand_check =
     (case hand_cycle new_controller hand0 of (gs1, c1, e1) \<Rightarrow>
        hand_keys hand0 \<and> map gr_ManagementGroup gs1 = [''x'', ''y''] \<and> map gr_Priority gs1 = [1, 2] \<and> findTarget gs1 = Some (hd gs1)
        \<and> findCurrentActive gs1 = ''y'' \<and> draining gs1
        \<and> (case hand_node ''y'' DesiredPassive e1 of None \<Rightarrow> False | Some (states1, e2) \<Rightarrow>
             ActualFailed \<notin> set states1 \<and> hand_keys e2 \<and> sole_host (example_cfg ''manual'') (store_at e2) ''g'' ''y'' ''n'' [''app'']
             \<and> (case hand_cycle c1 e2 of (gs2, c2, e3) \<Rightarrow>
                  map gr_ManagementGroup gs2 = [''x'', ''y''] \<and> map gr_Priority gs2 = [1, 2] \<and> findTarget gs2 = Some (hd gs2) \<and> idle (hd gs2)
                  \<and> (case hand_node ''x'' DesiredActive e3 of None \<Rightarrow> False | Some (states2, e4) \<Rightarrow>
                       ActualFailed \<notin> set states2 \<and> hand_keys e4
                       \<and> sole_host (example_cfg ''manual'') (store_at e4) ''g'' ''x'' ''n'' [''app'']))))"

lemma hand_names [simp]: "managed_name ''x''" "managed_name ''y''" "group_ok ''g''"
  by (simp_all add: managed_name_def entity_ok_defs isSystemKey_def)

text \<open>A store loaded from such an etcd has its documents.\<close>

lemma hand_store:
  assumes "hand_keys e"
  shows "store_ok (store_at e)"
    and "entity_strict x \<Longrightarrow> Get (store_at e) (entity_key ''c'' x) = map_option normalizeJSON (map_of (fst e) (entity_key ''c'' x))"
proof -
  have strict: "\<forall>x \<in> set hand_entities. entity_strict x" by (simp add: hand_entities_def entity_ok_defs)
  have keys: "\<forall>k \<in> set (map fst (fst e)). \<exists>x \<in> set hand_entities. k = entity_key ''c'' x"
    using assms by (auto simp: hand_keys_def Let_def list_all_iff simp del: entity_key.simps)
  then have "\<forall>k \<in> set (map fst (fst e)). key_ok k" using strict entity_strict_ok key_ok_entity [OF id_ok_c] by metis
  then show "store_ok (store_at e)" unfolding store_at_def by (intro store_ok_LoadSnapshot) force+
  have "\<forall>k \<in> set (map fst (fst e)). k \<in> entity_keys ''c''" using keys strict entity_keysI by metis
  then have "cache.tracks (entity_keys ''c'') (map_of (fst e)) (store_at e)"
    unfolding store_at_def using assms by (intro tracks_LoadSnapshot entity_keys_separated) (simp_all add: hand_keys_def)
  then show "Get (store_at e) (entity_key ''c'' x) = map_option normalizeJSON (map_of (fst e) (entity_key ''c'' x))" if "entity_strict x"
    using that by (simp add: cache.tracks_def entity_keysI)
qed

lemma hand_current: "hand_keys e \<Longrightarrow> current (example_cfg ''manual'') (store_at e) (map_of (fst e)) ''g''"
  using hand_store(2) [of e "EDesired ''g'' mg" for mg] by (auto simp: current_def managed_name_def)

lemma world_at_simps [simp]: "service_state (world_at e) = e" "clock_ok (world_at e)" "sessionLeaseID (world_at e) \<noteq> 0"
  by (simp_all add: world_at_def clock_ok_def example_clock_ok)

lemma hand_cycle_runs:
  assumes "hand_keys e" and "hand_cycle c e = (gs, c', e')" and "map gr_Priority gs = [1, 2]"
  shows "gs = seen_groups (example_cfg ''manual'') (store_at e) ''g''"
    and "cycle_runs (\<lambda>m. map_of (fst m)) (example_cfg ''manual'') mem_service (store_at e) ''g'' c e c' e'"
proof -
  let ?cfg = "example_cfg ''manual''" and ?st = "store_at e"
  define mgs where "mgs = ListChildren ?st (ClusterGroup ''c'' ''g'')"
  have kids: "mgs = [''x'', ''y'']" using assms(1) by (simp add: hand_keys_def mgs_def)
  define c0 where "c0 = (if go_index (lastManagementGroups c) [] ''g'' \<noteq> mgs
      then c\<lparr>lastManagementGroups := (lastManagementGroups c)(''g'' \<mapsto> mgs)\<rparr> else c)"
  obtain gs0 c1 w1 where read: "reconcile_groups ?cfg mem_service ?st ''g'' mgs (c0, world_at e) = (gs0, c1, w1)" by (metis surjective_pairing)
  obtain err c2 w2 where pol: "applyPriorityPolicy ?cfg mem_service ?st ''g'' gs0 (c1, w1) = (err, c2, w2)" by (metis surjective_pairing)
  have "hand_cycle c e = (gs0, c2, service_state w2)"
    using read pol unfolding c0_def
    by (cases "go_index (lastManagementGroups c) [] ''g'' = mgs")
       (simp_all add: hand_cycle_def Let_def mgs_def [symmetric] del: reconcile_groups.simps)
  then have eq: "gs = gs0" "c' = c2" "e' = service_state w2" using assms(2) by simp_all
  have puts: "puts_succeed mem_service" by (simp add: puts_succeed_def mem_service_def split_beta)
  have "gs0 = map (seen_group ?cfg ?st ''g'') [''x'', ''y'']"
    using mem.reconcile_groups_done [OF puts world_at_simps(2) hand_store(1) [OF assms(1)] _ hand_names(3) _ read]
    by (simp add: kids isSystemKey_def)
  then show seen: "gs = seen_groups ?cfg ?st ''g''" by (simp add: eq seen_groups_def listed_def mgs_def [symmetric] kids isSystemKey_def)
  have "reconcileClusterGroup ?cfg mem_service ?st ''g'' (c, world_at e) = (c2, w2)"
    using read pol unfolding c0_def
    by (cases "go_index (lastManagementGroups c) [] ''g'' = mgs")
       (simp_all add: reconcileClusterGroup_def Let_def mgs_def [symmetric] del: reconcile_groups.simps)
  moreover have "legible ?cfg ?st ''g''"
    using assms(3) by (cases gs) (auto simp: legible_def mgs_def [symmetric] kids seen [symmetric] allSamePriority_def Cons_eq_map_conv)
  ultimately show "cycle_runs (\<lambda>m. map_of (fst m)) ?cfg mem_service ?st ''g'' c e c' e'"
    unfolding cycle_runs_def using hand_store(1) [OF assms(1)] hand_current [OF assms(1)] eq world_at_simps by blast
qed

lemma hand_view_tracks:
  assumes "mg \<in> {''x'', ''y''}" and "k \<in> own_keys hand_cfg (hand_worker mg)"
  shows "Get (hand_view mg v) k = map_option normalizeJSON (map_of (fst (service_state v)) k)"
proof -
  have "split (own_actual_key hand_cfg (hand_worker ''x'')) \<noteq> split (own_health_key hand_cfg (hand_worker ''x''))"
    "split (own_actual_key hand_cfg (hand_worker ''y'')) \<noteq> split (own_health_key hand_cfg (hand_worker ''y''))" by code_simp+
  moreover have "Get new_store k = None" for k
    by (cases "split k") (simp_all add: Get_def findLocked_def new_store_def empty_root_def)
  ultimately show ?thesis
    using assms by (auto simp: hand_view_def own_keys_def cache.get_put split: option.splits)
qed

lemma hand_cfg_facts: "cl_ID (Cluster hand_cfg) = ''c''" "NodeID (NodeCfg hand_cfg) = ''n''" "fst ` set (Roles hand_cfg) = {''app''}"
  by (simp_all add: hand_cfg_def worker_cfg_def example_cfg_def)

lemma hand_node_runs:
  assumes "mg \<in> {''x'', ''y''}" and "hand_node mg s e = Some (states, e')" and "ActualFailed \<notin> set states"
  shows "node_runs (\<lambda>m. map_of (fst m)) mem_service (hand_agent mg) ''g'' mg s e e'"
proof -
  obtain w' where run: "execute_roles hand_cfg mem_service node_os (hand_view mg) (group_of ''g'' mg) s False [''app''] (world_at e) = Some (states, w')"
      "service_state w' = e'"
    using assms(2) by (auto simp: hand_node_def simp del: execute_roles.simps)
  have "member_ok mg" using assms(1) by (auto simp: entity_ok_defs)
  then have "hosts (\<lambda>m. map_of (fst m)) (hand_view mg) hand_cfg (group_of ''g'' mg) [''app'']"
    using hand_view_tracks [OF assms(1)] by (simp add: hosts_def group_of_def hand_cfg_facts hand_worker_def)
  moreover have "actors_leave (\<lambda>m. map_of (fst m)) node_os" by (simp add: actors_leave_def node_os_def)
  ultimately show ?thesis
    unfolding node_runs_def hand_agent_def agent.simps using run assms(3) world_at_simps
    by (intro conjI exI [of _ "world_at e"] exI [of _ w'] exI [of _ False] exI [of _ states]) simp_all
qed

lemma hand_sees:
  assumes "mg \<in> {''x'', ''y''}" and "hand_keys e" and "sole_host (example_cfg ''manual'') (store_at e) ''g'' mg ''n'' [''app'']"
  shows "sees_node (\<lambda>m. map_of (fst m)) (example_cfg ''manual'') (store_at e) (hand_agent mg) ''g'' mg e"
proof -
  have strict: "entity_strict (ERoleActual ''g'' mg ''n'' ''app'')" "entity_strict (ERoleHealth ''g'' mg ''n'' ''app'')"
    using assms(1) by (auto simp: entity_ok_defs)
  note docs = hand_store(2) [OF assms(2) strict(1)] hand_store(2) [OF assms(2) strict(2)]
  show ?thesis
    using hand_store(1) [OF assms(2)] assms(3) docs
    by (simp add: sees_node_def hand_agent_def hand_cfg_facts own_keys_def own_role_keys group_of_def)
qed

text \<open>The two cycles and the two executions of the example, evaluated.\<close>

lemma hand_run: hand_check
  by code_simp


end
