(* ===== verification/Commands.thy ===== *)
theory Commands
  imports Policy
begin

text \<open>
  \<^verbatim>\<open>internal/controller/commands.go\<close>: the leader's consumer of the command queue. It keeps no
  state of its own: a command is executed on one state of the store and changes the world.
\<close>

section \<open>Writers\<close>

definition writeDesired :: "Config \<Rightarrow> 'e etcd_service \<Rightarrow> string \<Rightarrow> string \<Rightarrow> DesiredState \<Rightarrow> bool \<Rightarrow>
    'e world \<Rightarrow> error option \<times> 'e world" where
  "writeDesired cfg svc cg mg state managed w =
     (let (t, w) = now w;
          doc = \<lparr>d_State = state, d_Managed = managed, d_UpdatedAt = t, d_Details = []\<rparr>
      in (case marshal_desired doc of
            None \<Rightarrow> (Some time_error, w)
          | Some data \<Rightarrow> Put svc (Desired (cluster_id cfg) cg mg) data 0 w))"

definition cc_writePriority :: "Config \<Rightarrow> 'e etcd_service \<Rightarrow> StateStore \<Rightarrow> string \<Rightarrow> string \<Rightarrow> int \<Rightarrow>
    'e world \<Rightarrow> error option \<times> 'e world" where
  "cc_writePriority cfg svc st cg mg priority w =
     (let key = ManagementGroupConfig (cluster_id cfg) cg mg
      in case Get st key of
           None \<Rightarrow> (Some (''management group config not found: '' @ cg @ ''/'' @ mg), w)
         | Some raw \<Rightarrow>
             (case unmarshal_mgconfig raw of
                None \<Rightarrow> (Some json_error, w)
              | Some doc \<Rightarrow>
                  let (t, w) = now w
                  in (case marshal_mgconfig (doc\<lparr>mgc_Priority := priority, mgc_UpdatedAt := t\<rparr>) of
                        None \<Rightarrow> (Some time_error, w)
                      | Some data \<Rightarrow> Put svc key data 0 w)))"

definition writeCommand :: "Config \<Rightarrow> 'e etcd_service \<Rightarrow> Command \<Rightarrow> 'e world \<Rightarrow> 'e world" where
  "writeCommand cfg svc cmd w =
     (case marshal_command cmd of
        None \<Rightarrow> w
      | Some data \<Rightarrow> snd (Put svc (CommandKey (cluster_id cfg) (c_ID cmd)) data 0 w))"

definition archiveCommand :: "Config \<Rightarrow> 'e etcd_service \<Rightarrow> Command \<Rightarrow> 'e world \<Rightarrow> 'e world" where
  "archiveCommand cfg svc cmd w =
     (case marshal_command cmd of
        None \<Rightarrow> w
      | Some data \<Rightarrow>
          (case Put svc (CommandHistoryKey (cluster_id cfg) (c_ID cmd)) data 0 w of
             (Some err, w) \<Rightarrow> w
           | (None, w) \<Rightarrow> snd (Delete svc (CommandKey (cluster_id cfg) (c_ID cmd)) w)))"

section \<open>Promote\<close>

text \<open>The groups with a readable priority, in the order of the listing.\<close>

definition promote_entries :: "Config \<Rightarrow> StateStore \<Rightarrow> string \<Rightarrow> (string \<times> int) list" where
  "promote_entries cfg st cg =
     concat (map (\<lambda>mg.
        case Get st (ManagementGroupConfig (cluster_id cfg) cg mg) of
          None \<Rightarrow> []
        | Some raw \<Rightarrow> (case unmarshal_mgconfig raw of None \<Rightarrow> [] | Some doc \<Rightarrow> [(mg, mgc_Priority doc)]))
      (ListChildren st (ClusterGroup (cluster_id cfg) cg)))"

fun lowest :: "string \<times> int \<Rightarrow> (string \<times> int) list \<Rightarrow> string \<times> int" where
  "lowest best [] = best"
| "lowest best (e # es) = lowest (if snd e < snd best then e else best) es"

definition hasNoActiveGroup :: "Config \<Rightarrow> StateStore \<Rightarrow> string \<Rightarrow> bool" where
  "hasNoActiveGroup cfg st cg =
     list_all (\<lambda>mg. case Get st (Desired (cluster_id cfg) cg mg) of
          None \<Rightarrow> True
        | Some raw \<Rightarrow> (case unmarshal_desired raw of
            None \<Rightarrow> True | Some doc \<Rightarrow> \<not> (d_State doc = DesiredActive \<and> d_Managed doc)))
       (ListChildren st (ClusterGroup (cluster_id cfg) cg))"

definition activateTarget :: "Config \<Rightarrow> 'e etcd_service \<Rightarrow> StateStore \<Rightarrow> string \<Rightarrow> string \<Rightarrow>
    'e world \<Rightarrow> error option \<times> 'e world" where
  "activateTarget cfg svc st cg mg w =
     (if hasNoActiveGroup cfg st cg then writeDesired cfg svc cg mg DesiredActive True w
      else writeDesired cfg svc cg mg DesiredPassive True w)"

text \<open>\<^verbatim>\<open>fmt.Errorf("...: %w", err)\<close> on the error of a write, then the rest.\<close>

definition wrap_error :: "string \<Rightarrow> error option \<times> 'w \<Rightarrow> ('w \<Rightarrow> error option \<times> 'w) \<Rightarrow> error option \<times> 'w" where
  "wrap_error msg r k = (case r of (Some err, w) \<Rightarrow> (Some (msg @ '': '' @ err), w) | (None, w) \<Rightarrow> k w)"

definition writing_priority :: "string \<Rightarrow> string" where "writing_priority mg = ''writing priority for '' @ mg"
definition writing_desired :: "string \<Rightarrow> string" where "writing_desired mg = ''writing desired for '' @ mg"
definition activating_target :: "string \<Rightarrow> string" where "activating_target mg = ''activating target '' @ mg"

definition execPromote :: "Config \<Rightarrow> 'e etcd_service \<Rightarrow> StateStore \<Rightarrow> Command \<Rightarrow> 'e world \<Rightarrow> error option \<times> 'e world" where
  "execPromote cfg svc st cmd w =
     (let cg = c_ClusterGroup cmd; mg = c_ManagementGroup cmd;
          entries = promote_entries cfg st cg;
          targetPri = (case find (\<lambda>e. fst e = mg) entries of None \<Rightarrow> -1 | Some e \<Rightarrow> snd e)
      in if targetPri < 0
         then (Some (''management group '' @ quoted mg @ '' not found in cluster group '' @ quoted cg), w)
         else
           let (minGroup, minPri) = lowest (mg, targetPri) entries
           in if minGroup = mg then activateTarget cfg svc st cg mg w
              else
                wrap_error (writing_priority mg) (cc_writePriority cfg svc st cg mg minPri w) (\<lambda>w.
                wrap_error (writing_priority minGroup) (cc_writePriority cfg svc st cg minGroup targetPri w) (\<lambda>w.
                wrap_error (activating_target mg) (activateTarget cfg svc st cg mg w) (\<lambda>w. (None, w)))))"

section \<open>Disable, enable, force passive\<close>

definition currentState :: "Config \<Rightarrow> StateStore \<Rightarrow> string \<Rightarrow> string \<Rightarrow> DesiredState" where
  "currentState cfg st cg mg =
     (case Get st (Desired (cluster_id cfg) cg mg) of
        None \<Rightarrow> DesiredPassive
      | Some raw \<Rightarrow> (case unmarshal_desired raw of None \<Rightarrow> DesiredPassive | Some doc \<Rightarrow> d_State doc))"

definition execDisable :: "Config \<Rightarrow> 'e etcd_service \<Rightarrow> StateStore \<Rightarrow> Command \<Rightarrow> 'e world \<Rightarrow> error option \<times> 'e world" where
  "execDisable cfg svc st cmd w =
     writeDesired cfg svc (c_ClusterGroup cmd) (c_ManagementGroup cmd)
       (currentState cfg st (c_ClusterGroup cmd) (c_ManagementGroup cmd)) False w"

definition execEnable :: "Config \<Rightarrow> 'e etcd_service \<Rightarrow> StateStore \<Rightarrow> Command \<Rightarrow> 'e world \<Rightarrow> error option \<times> 'e world" where
  "execEnable cfg svc st cmd w =
     writeDesired cfg svc (c_ClusterGroup cmd) (c_ManagementGroup cmd)
       (currentState cfg st (c_ClusterGroup cmd) (c_ManagementGroup cmd)) True w"

definition execForcePassive :: "Config \<Rightarrow> 'e etcd_service \<Rightarrow> StateStore \<Rightarrow> Command \<Rightarrow> 'e world \<Rightarrow> error option \<times> 'e world" where
  "execForcePassive cfg svc st cmd w =
     (let cg = c_ClusterGroup cmd; mg = c_ManagementGroup cmd
      in case Get st (Desired (cluster_id cfg) cg mg) of
           None \<Rightarrow> (Some (''desired state not found for '' @ cg @ ''/'' @ mg), w)
         | Some raw \<Rightarrow>
             (case unmarshal_desired raw of
                None \<Rightarrow> (Some (''failed to decode desired state: '' @ json_error), w)
              | Some doc \<Rightarrow>
                  if d_Managed doc
                  then (Some ''force_passive requires managed=false, group is under normal management'', w)
                  else writeDesired cfg svc cg mg DesiredPassive True w))"

section \<open>Demote\<close>

text \<open>The loop body of the search for a replacement: the priority of a group that qualifies.\<close>

definition replacement_priority :: "Config \<Rightarrow> StateStore \<Rightarrow> string \<Rightarrow> string \<Rightarrow> string \<Rightarrow> int option" where
  "replacement_priority cfg st cg demoted mg =
     (if mg = demoted then None
      else do {
        desRaw \<leftarrow> Get st (Desired (cluster_id cfg) cg mg);
        des \<leftarrow> unmarshal_desired desRaw;
        _ \<leftarrow> (if d_Managed des then Some () else None);
        actRaw \<leftarrow> Get st (Actual (cluster_id cfg) cg mg);
        act \<leftarrow> unmarshal_actual actRaw;
        _ \<leftarrow> (if a_State act = ActualPassive then Some () else None);
        healthRaw \<leftarrow> Get st (Health (cluster_id cfg) cg mg);
        h \<leftarrow> unmarshal_health healthRaw;
        _ \<leftarrow> (if h_Status h = HealthOK then Some () else None);
        cfgRaw \<leftarrow> Get st (ManagementGroupConfig (cluster_id cfg) cg mg);
        conf \<leftarrow> unmarshal_mgconfig cfgRaw;
        Some (mgc_Priority conf) })"

fun best_replacement :: "(string \<Rightarrow> int option) \<Rightarrow> (string \<times> int) option \<Rightarrow> string list \<Rightarrow> (string \<times> int) option" where
  "best_replacement f best [] = best"
| "best_replacement f best (mg # mgs) =
     best_replacement f
       (case f mg of None \<Rightarrow> best
        | Some p \<Rightarrow> (case best of None \<Rightarrow> Some (mg, p)
                    | Some b \<Rightarrow> if p < snd b then Some (mg, p) else best)) mgs"

definition execDemote :: "Config \<Rightarrow> 'e etcd_service \<Rightarrow> StateStore \<Rightarrow> Command \<Rightarrow> 'e world \<Rightarrow> error option \<times> 'e world" where
  "execDemote cfg svc st cmd w =
     (let cg = c_ClusterGroup cmd; mg = c_ManagementGroup cmd; cid = cluster_id cfg
      in case Get st (Desired cid cg mg) of
           None \<Rightarrow> (Some (''desired state not found for '' @ cg @ ''/'' @ mg), w)
         | Some raw \<Rightarrow>
           (case unmarshal_desired raw of
              None \<Rightarrow> (Some (''failed to decode desired state: '' @ json_error), w)
            | Some desiredDoc \<Rightarrow>
              if d_State desiredDoc = DesiredPassive then writeDesired cfg svc cg mg DesiredPassive True w
              else (case best_replacement (replacement_priority cfg st cg mg) None
                       (ListChildren st (ClusterGroup cid cg)) of
                  None \<Rightarrow> (Some (''no available passive managed group with health=ok in cluster group '' @ quoted cg), w)
                | Some (best, bestPri) \<Rightarrow>
                  (case Get st (ManagementGroupConfig cid cg mg) of
                     None \<Rightarrow> (Some (''config not found for '' @ mg), w)
                   | Some demotedRaw \<Rightarrow>
                     (case unmarshal_mgconfig demotedRaw of
                        None \<Rightarrow> (Some (''failed to decode config for '' @ mg @ '': '' @ json_error), w)
                      | Some demotedCfg \<Rightarrow>
                        wrap_error (writing_priority best)
                          (cc_writePriority cfg svc st cg best (mgc_Priority demotedCfg) w) (\<lambda>w.
                        wrap_error (writing_priority mg)
                          (cc_writePriority cfg svc st cg mg bestPri w) (\<lambda>w.
                        wrap_error (writing_desired mg)
                          (writeDesired cfg svc cg mg DesiredPassive True w) (\<lambda>w.
                        wrap_error (writing_desired best)
                          (writeDesired cfg svc cg best DesiredActive True w) (\<lambda>w. (None, w))))))))))"

section \<open>One command, and the loop\<close>

definition exec_command :: "Config \<Rightarrow> 'e etcd_service \<Rightarrow> StateStore \<Rightarrow> Command \<Rightarrow> 'e world \<Rightarrow> error option \<times> 'e world" where
  "exec_command cfg svc st cmd w =
     (if c_Type cmd = CommandTypePromote then execPromote cfg svc st cmd w
      else if c_Type cmd = CommandTypeDemote then execDemote cfg svc st cmd w
      else if c_Type cmd = CommandTypeDisable then execDisable cfg svc st cmd w
      else if c_Type cmd = CommandTypeEnable then execEnable cfg svc st cmd w
      else if c_Type cmd = CommandTypeForcePassive then execForcePassive cfg svc st cmd w
      else (Some (''unknown command type: '' @ c_Type cmd), w))"

definition processCommand :: "Config \<Rightarrow> 'e etcd_service \<Rightarrow> StateStore \<Rightarrow> Command \<Rightarrow> 'e world \<Rightarrow> 'e world" where
  "processCommand cfg svc st cmd w =
     (let (t, w) = now w;
          cmd = cmd\<lparr>c_Status := CommandRunning, c_StartedAt := Some t\<rparr>;
          w = writeCommand cfg svc cmd w;
          (execErr, w) = exec_command cfg svc st cmd w;
          (finished, w) = now w;
          cmd = cmd\<lparr>c_FinishedAt := Some finished\<rparr>;
          cmd = (case execErr of
                   Some err \<Rightarrow> cmd\<lparr>c_Status := CommandFailed, c_Error := err\<rparr>
                 | None \<Rightarrow> cmd\<lparr>c_Status := CommandCompleted\<rparr>);
          w = writeCommand cfg svc cmd w
      in archiveCommand cfg svc cmd w)"

text \<open>
  Between two commands the watch loop may change the store: \<open>view k\<close> is the state the \<open>k\<close>-th
  command reads. The items are a Go map, in any order.
\<close>

definition process_pending :: "Config \<Rightarrow> 'e etcd_service \<Rightarrow> StateStore \<Rightarrow> bytes \<Rightarrow> 'e world \<Rightarrow> 'e world" where
  "process_pending cfg svc st raw w =
     (case unmarshal_command raw of
        None \<Rightarrow> w
      | Some cmd \<Rightarrow> if c_Status cmd = CommandPending then processCommand cfg svc st cmd w else w)"

definition drainPending :: "Config \<Rightarrow> 'e etcd_service \<Rightarrow> (nat \<Rightarrow> StateStore) \<Rightarrow> 'e world \<Rightarrow> 'e world" where
  "drainPending cfg svc view w =
     for_each (\<lambda>(k, key, raw) w. process_pending cfg svc (view k) raw w)
       (enumerate 0 (Prefix (view 0) (CommandsKey (cluster_id cfg)))) w"

text \<open>One event of the watch on the queue, and the loop over the events the watch delivers.\<close>

definition handle_event :: "Config \<Rightarrow> 'e etcd_service \<Rightarrow> StateStore \<Rightarrow> Event \<Rightarrow> 'e world \<Rightarrow> 'e world" where
  "handle_event cfg svc st event w =
     (if ev_Type event \<noteq> EventPut then w else process_pending cfg svc st (ev_Value event) w)"

text \<open>
  \<open>evs\<close> are the events etcd has for the queue, each with the state of the store when it is
  handled; the watch starts after the revision the store has once the drain is over.
\<close>

definition Run :: "Config \<Rightarrow> 'e etcd_service \<Rightarrow> (nat \<Rightarrow> StateStore) \<Rightarrow> StateStore \<Rightarrow> (StateStore \<times> Event) list \<Rightarrow>
    'e world \<Rightarrow> 'e world" where
  "Run cfg svc view drained evs w =
     for_each (\<lambda>(st, event) w. handle_event cfg svc st event w)
       (filter (\<lambda>(st, event). revision drained + 1 \<le> ev_Revision event) evs)
       (drainPending cfg svc view w)"

section \<open>What a command may ask of etcd\<close>

text \<open>
  The only requests of an execution: documents of groups of the cluster group of the command,
  each the group it names or one the store lists.
\<close>

definition command_groups :: "Config \<Rightarrow> StateStore \<Rightarrow> Command \<Rightarrow> string list" where
  "command_groups cfg st cmd = c_ManagementGroup cmd # ListChildren st (ClusterGroup (cluster_id cfg) (c_ClusterGroup cmd))"

definition group_put :: "string \<Rightarrow> string \<Rightarrow> string list \<Rightarrow> request \<Rightarrow> bool" where
  "group_put c cg mgs r \<longleftrightarrow>
     (\<exists>mg \<in> set mgs. \<exists>b. r = ReqPut (Desired c cg mg) b 0 \<or> r = ReqPut (ManagementGroupConfig c cg mg) b 0)"

lemma group_puts [intro]:
  "mg \<in> set mgs \<Longrightarrow> group_put c cg mgs (ReqPut (Desired c cg mg) b 0)"
  "mg \<in> set mgs \<Longrightarrow> group_put c cg mgs (ReqPut (ManagementGroupConfig c cg mg) b 0)"
  by (auto simp: group_put_def)

lemma lowest_in: "lowest best es \<in> insert best (set es)"
  by (induction best es rule: lowest.induct) auto

lemma promote_entries_in: "(mg, p) \<in> set (promote_entries cfg st cg) \<Longrightarrow> mg \<in> set (ListChildren st (ClusterGroup (cluster_id cfg) cg))"
  by (auto simp: promote_entries_def split: option.splits)

lemma lowest_listed:
  "lowest (mg, p) (promote_entries cfg st cg) = (mg', p') \<Longrightarrow>
     mg' = mg \<or> mg' \<in> set (ListChildren st (ClusterGroup (cluster_id cfg) cg))"
  using lowest_in [of "(mg, p)" "promote_entries cfg st cg"] promote_entries_in by fastforce

lemma best_replacement_in:
  "best_replacement f best mgs = Some (mg, p) \<Longrightarrow> best = Some (mg, p) \<or> mg \<in> set mgs \<and> f mg = Some p"
  by (induction f best mgs rule: best_replacement.induct) (auto split: option.splits if_splits)

lemma writeDesired_eq:
  "writeDesired cfg svc cg mg s m w =
     (case marshal_desired \<lparr>d_State = s, d_Managed = m, d_UpdatedAt = clock w (ticks w), d_Details = []\<rparr> of
        None \<Rightarrow> (Some time_error, snd (now w))
      | Some b \<Rightarrow> Put svc (Desired (cluster_id cfg) cg mg) b 0 (snd (now w)))"
  by (simp add: writeDesired_def now_def Let_def split: option.splits)

lemma cc_writePriority_eq:
  "cc_writePriority cfg svc st cg mg p w =
     (case stored_mgconfig st (cluster_id cfg) cg mg of
        None \<Rightarrow> (Some (if Get st (ManagementGroupConfig (cluster_id cfg) cg mg) = None
                then ''management group config not found: '' @ cg @ ''/'' @ mg else json_error), w)
      | Some doc \<Rightarrow>
          (case marshal_mgconfig (doc\<lparr>mgc_Priority := p, mgc_UpdatedAt := clock w (ticks w)\<rparr>) of
             None \<Rightarrow> (Some time_error, snd (now w))
           | Some b \<Rightarrow> Put svc (ManagementGroupConfig (cluster_id cfg) cg mg) b 0 (snd (now w))))"
  by (cases "Get st (ManagementGroupConfig (cluster_id cfg) cg mg)")
    (auto simp: cc_writePriority_def stored_mgconfig_def now_def Let_def split: option.splits)

text \<open>Once for every relation that the puts of a cluster group respect.\<close>

context effects
begin

lemma writeDesired_steps:
  assumes "\<And>r. group_put (cluster_id cfg) cg mgs r \<Longrightarrow> ok r" and "mg \<in> set mgs"
  shows "R w (snd (writeDesired cfg svc cg mg s m w))"
  using assms by (auto simp: writeDesired_eq intro: now_put_step split: option.splits)

lemma cc_writePriority_steps:
  assumes "\<And>r. group_put (cluster_id cfg) cg mgs r \<Longrightarrow> ok r" and "mg \<in> set mgs"
  shows "R w (snd (cc_writePriority cfg svc st cg mg p w))"
  using assms by (auto simp: cc_writePriority_eq intro: now_put_step split: option.splits)

lemma wrap_error_steps:
  assumes "R w (snd r)" and "\<And>w1. R w1 (snd (k w1))"
  shows "R w (snd (wrap_error msg r k))"
  using assms trans by (fastforce simp: wrap_error_def split: prod.splits option.splits)

lemma exec_command_steps:
  assumes "\<And>r. group_put (cluster_id cfg) (c_ClusterGroup cmd) (command_groups cfg st cmd) r \<Longrightarrow> ok r"
  shows "R w (snd (exec_command cfg svc st cmd w))"
proof -
  note steps = writeDesired_steps [OF assms] cc_writePriority_steps [OF assms] wrap_error_steps
  have act: "R w (snd (activateTarget cfg svc st (c_ClusterGroup cmd) (c_ManagementGroup cmd) w))" for w :: "'e world"
    by (auto simp: activateTarget_def command_groups_def intro!: steps)
  have "R w (snd (execPromote cfg svc st cmd w))"
    unfolding execPromote_def Let_def
    by (auto simp: command_groups_def dest: lowest_listed intro!: steps act split: option.splits prod.splits)
  moreover have "R w (snd (execDemote cfg svc st cmd w))"
    unfolding execDemote_def Let_def
    by (auto simp: command_groups_def dest: best_replacement_in intro!: steps split: option.splits prod.splits)
  moreover have "R w (snd (execForcePassive cfg svc st cmd w))"
    unfolding execForcePassive_def Let_def
    by (auto simp: command_groups_def intro!: steps split: option.splits)
  ultimately show ?thesis
    by (auto simp: exec_command_def execDisable_def execEnable_def command_groups_def intro!: steps)
qed

end

section \<open>The life of a command\<close>

lemma exec_command_cong:
  assumes "c_Type cmd' = c_Type cmd" and "c_ClusterGroup cmd' = c_ClusterGroup cmd"
    and "c_ManagementGroup cmd' = c_ManagementGroup cmd"
  shows "exec_command cfg svc st cmd' w = exec_command cfg svc st cmd w"
  using assms
  by (simp add: exec_command_def execPromote_def execDemote_def execDisable_def execEnable_def execForcePassive_def)

text \<open>The final form of a command that started at \<open>t\<close> and ended at \<open>u\<close> with result \<open>e\<close>.\<close>

definition started :: "int \<Rightarrow> Command \<Rightarrow> Command" where
  "started t cmd = cmd\<lparr>c_Status := CommandRunning, c_StartedAt := Some t\<rparr>"

definition finished :: "int \<Rightarrow> error option \<Rightarrow> Command \<Rightarrow> Command" where
  "finished u e cmd = (case e of
     None \<Rightarrow> cmd\<lparr>c_FinishedAt := Some u, c_Status := CommandCompleted\<rparr>
   | Some msg \<Rightarrow> cmd\<lparr>c_FinishedAt := Some u, c_Status := CommandFailed, c_Error := msg\<rparr>)"

lemma exec_clock: "exec_command cfg svc st cmd w = (e, w') \<Longrightarrow> clock w' = clock w"
  using adds.exec_command_steps [of cfg cmd st "\<lambda>_. True" w svc] by (simp add: adds_def)

lemma processCommand_steps:
  assumes "clock_ok w" and "command_stamps_ok cmd"
  obtains b1 w1 e w2 b2 w3 where
    "marshal_command (started (clock w (ticks w)) cmd) = Some b1"
    "w1 = snd (Put svc (CommandKey (cluster_id cfg) (c_ID cmd)) b1 0 (snd (now w)))"
    "exec_command cfg svc st cmd w1 = (e, w2)"
    "marshal_command (finished (clock w (ticks w2)) e (started (clock w (ticks w)) cmd)) = Some b2"
    "w3 = snd (Put svc (CommandKey (cluster_id cfg) (c_ID cmd)) b2 0 (snd (now w2)))"
    "processCommand cfg svc st cmd w =
       (case Put svc (CommandHistoryKey (cluster_id cfg) (c_ID cmd)) b2 0 w3 of
          (Some err, w4) \<Rightarrow> w4 | (None, w4) \<Rightarrow> snd (Delete svc (CommandKey (cluster_id cfg) (c_ID cmd)) w4))"
proof -
  let ?c1 = "started (clock w (ticks w)) cmd"
  have ids: "c_ID ?c1 = c_ID cmd" "c_Type ?c1 = c_Type cmd" "c_ClusterGroup ?c1 = c_ClusterGroup cmd"
    "c_ManagementGroup ?c1 = c_ManagementGroup cmd" by (simp_all add: started_def)
  obtain b1 where b1: "marshal_command ?c1 = Some b1"
    using command.total [of ?c1] assms by (auto simp: command_stamps_ok_def clock_ok_def started_def)
  define w1 where "w1 = snd (Put svc (CommandKey (cluster_id cfg) (c_ID cmd)) b1 0 (snd (now w)))"
  obtain e w2 where e: "exec_command cfg svc st cmd w1 = (e, w2)" by fastforce
  have clk: "clock w2 = clock w" using exec_clock [OF e] by (simp add: w1_def)
  let ?c2 = "finished (clock w (ticks w2)) e ?c1"
  obtain b2 where b2: "marshal_command ?c2 = Some b2"
    using command.total [of ?c2] assms by (cases e) (auto simp: command_stamps_ok_def clock_ok_def started_def finished_def)
  define w3 where "w3 = snd (Put svc (CommandKey (cluster_id cfg) (c_ID cmd)) b2 0 (snd (now w2)))"
  have w1': "writeCommand cfg svc ?c1 (snd (now w)) = w1" by (simp add: writeCommand_def b1 ids w1_def)
  have ex: "exec_command cfg svc st ?c1 w1 = (e, w2)" using e by (simp add: exec_command_cong [OF ids(2-4)])
  have "processCommand cfg svc st cmd w = archiveCommand cfg svc ?c2 (writeCommand cfg svc ?c2 (snd (now w2)))"
    using ex w1' clk unfolding started_def finished_def
    by (cases e) (simp_all add: processCommand_def now_def Let_def)
  moreover have "c_ID ?c2 = c_ID cmd" by (cases e) (simp_all add: finished_def ids)
  ultimately have "processCommand cfg svc st cmd w =
      (case Put svc (CommandHistoryKey (cluster_id cfg) (c_ID cmd)) b2 0 w3 of
          (Some err, w4) \<Rightarrow> w4 | (None, w4) \<Rightarrow> snd (Delete svc (CommandKey (cluster_id cfg) (c_ID cmd)) w4))"
    by (simp add: writeCommand_def archiveCommand_def b2 w3_def split: prod.splits option.splits)
  then show ?thesis using that b1 e b2 w1_def w3_def by blast
qed

text \<open>
  C19: the life of a command. Whatever the service answers, processing a command first stores it
  as running, then makes only puts of desired and priority documents of its management group or of
  groups the store lists in its cluster group, then
  stores the same final document in the queue and in the history, completed when the execution
  returned no error and failed with the text of the error otherwise; and the last request, if
  any, removes it from the queue.
\<close>

theorem command_lifecycle:
  fixes w :: "'e world"
  assumes "clock_ok w" and "command_stamps_ok cmd"
    and "queue = CommandKey (cluster_id cfg) (c_ID cmd)" and "history = CommandHistoryKey (cluster_id cfg) (c_ID cmd)"
  shows "\<exists>b1 b2 run fin w1 w2 e effects end.
    sent (processCommand cfg svc st cmd w) = sent w @ [ReqPut queue b1 0] @ effects
        @ [ReqPut queue b2 0, ReqPut history b2 0] @ end
    \<and> exec_command cfg svc st cmd w1 = (e, w2) \<and> sent w2 = sent w1 @ effects
    \<and> list_all (group_put (cluster_id cfg) (c_ClusterGroup cmd) (command_groups cfg st cmd)) effects
    \<and> (end = [] \<or> end = [ReqDelete queue])
    \<and> unmarshal_command b1 = Some run \<and> c_Status run = CommandRunning \<and> c_StartedAt run = Some (clock w (ticks w))
    \<and> unmarshal_command b2 = Some fin \<and> c_Status fin = (if e = None then CommandCompleted else CommandFailed)
    \<and> c_Error fin = (case e of None \<Rightarrow> c_Error cmd | Some msg \<Rightarrow> msg)
    \<and> c_StartedAt fin = c_StartedAt run \<and> c_FinishedAt fin \<noteq> None
    \<and> c_ID fin = c_ID cmd \<and> c_Type fin = c_Type cmd \<and> c_CreatedAt fin = c_CreatedAt cmd"
  using assms(1,2)
proof (rule processCommand_steps [where cfg = cfg and svc = svc and st = st])
  fix b1 e b2 and w1 w2 w3 :: "'e world"
  let ?run = "started (clock w (ticks w)) cmd"
  let ?fin = "finished (clock w (ticks w2)) e ?run"
  assume b1: "marshal_command ?run = Some b1"
    and w1: "w1 = snd (Put svc (CommandKey (cluster_id cfg) (c_ID cmd)) b1 0 (snd (now w)))"
    and e: "exec_command cfg svc st cmd w1 = (e, w2)" and b2: "marshal_command ?fin = Some b2"
    and w3: "w3 = snd (Put svc (CommandKey (cluster_id cfg) (c_ID cmd)) b2 0 (snd (now w2)))"
    and p: "processCommand cfg svc st cmd w = (case Put svc (CommandHistoryKey (cluster_id cfg) (c_ID cmd)) b2 0 w3 of
          (Some err, w4) \<Rightarrow> w4 | (None, w4) \<Rightarrow> snd (Delete svc (CommandKey (cluster_id cfg) (c_ID cmd)) w4))"
  obtain effects where eff: "sent w2 = sent w1 @ effects"
      "list_all (group_put (cluster_id cfg) (c_ClusterGroup cmd) (command_groups cfg st cmd)) effects"
    using adds.exec_command_steps
      [of cfg cmd st "group_put (cluster_id cfg) (c_ClusterGroup cmd) (command_groups cfg st cmd)" w1 svc] e
    by (auto simp: adds_def)
  have s1: "sent w1 = sent w @ [ReqPut queue b1 0]" using w1 assms(3) by simp
  have s3: "sent w3 = sent w2 @ [ReqPut queue b2 0]" using w3 assms(3) by simp
  obtain r w4 where r: "Put svc history b2 0 w3 = (r, w4)" by fastforce
  have s4: "sent w4 = sent w3 @ [ReqPut history b2 0]" using Put_sent [OF r] .
  have "\<exists>end. sent (processCommand cfg svc st cmd w) = sent w4 @ end \<and> (end = [] \<or> end = [ReqDelete queue])"
    using p r assms(3,4) by (cases r) auto
  then obtain fin where fin: "sent (processCommand cfg svc st cmd w) = sent w4 @ fin" "fin = [] \<or> fin = [ReqDelete queue]"
    by blast
  have all: "sent (processCommand cfg svc st cmd w) = sent w @ [ReqPut queue b1 0] @ effects
      @ [ReqPut queue b2 0, ReqPut history b2 0] @ fin"
    using fin(1) s4 s3 eff(1) s1 by simp
  have "c_Status ?run = CommandRunning \<and> c_StartedAt ?run = Some (clock w (ticks w))" by (simp add: started_def)
  moreover have "c_Status ?fin = (if e = None then CommandCompleted else CommandFailed)
      \<and> c_Error ?fin = (case e of None \<Rightarrow> c_Error cmd | Some msg \<Rightarrow> msg)
      \<and> c_StartedAt ?fin = c_StartedAt ?run \<and> c_FinishedAt ?fin \<noteq> None
      \<and> c_ID ?fin = c_ID cmd \<and> c_Type ?fin = c_Type cmd \<and> c_CreatedAt ?fin = c_CreatedAt cmd"
    by (cases e) (simp_all add: started_def finished_def)
  ultimately show ?thesis
    using all e eff fin(2) command.roundtrip [OF b1 TrueI] command.roundtrip [OF b2 TrueI] by blast
qed

theorem command_lifecycle_witness:
  "\<exists>b run rest. sent (processCommand (example_cfg ''manual'') mem_service (example_store example_items) sample_command
      (example_world example_items)) = ReqPut (CommandKey ''c'' ''1'') b 0 # rest
    \<and> unmarshal_command b = Some run \<and> c_Status run = CommandRunning"
proof -
  have "clock_ok (example_world example_items)" by (simp add: clock_ok_def example_clock_ok)
  moreover have "command_stamps_ok sample_command"
    by (auto simp: command_stamps_ok_def sample_command_def time_ok_def zero_time_def end_time_def ns_per_day_def ns_per_s_def)
  ultimately have "\<exists>b1 run rest. sent (processCommand (example_cfg ''manual'') mem_service (example_store example_items)
      sample_command (example_world example_items))
      = sent (example_world example_items) @ ReqPut (CommandKey ''c'' (c_ID sample_command)) b1 0 # rest
    \<and> unmarshal_command b1 = Some run \<and> c_Status run = CommandRunning"
    using command_lifecycle [of "example_world example_items" sample_command _ "example_cfg ''manual''" _ mem_service
        "example_store example_items", OF _ _ refl refl]
    by (simp only: cluster_id_example append_Cons append_Nil) metis
  then show ?thesis by (simp add: example_world_def sample_command_def)
qed

end
