(* ===== verification/CommandQueue.thy ===== *)
theory CommandQueue
  imports Commands
begin

text \<open>
  What happens to the entries of the command queue: a command is never lost, a reliable etcd
  sees every drained command archived, and the gap between the drain and the watch.
\<close>

section \<open>Keys of the queue and keys of groups\<close>

lemma queue_history_distinct:
  "id_ok c \<Longrightarrow> id_ok i \<Longrightarrow> id_ok j \<Longrightarrow> CommandKey c i \<noteq> CommandHistoryKey c j"
  "id_ok c \<Longrightarrow> id_ok i \<Longrightarrow> id_ok j \<Longrightarrow> CommandKey c i = CommandKey c j \<longleftrightarrow> i = j"
  "id_ok c \<Longrightarrow> id_ok i \<Longrightarrow> id_ok j \<Longrightarrow> CommandHistoryKey c i = CommandHistoryKey c j \<longleftrightarrow> i = j"
  using entity_key_inject [of c "ECommand i" "EHistory j"] entity_key_inject [of c "ECommand i" "ECommand j"]
    entity_key_inject [of c "EHistory i" "EHistory j"] by simp_all

definition is_queue_key :: "string \<Rightarrow> string \<Rightarrow> bool" where
  "is_queue_key c k \<longleftrightarrow> (\<exists>i. id_ok i \<and> (k = CommandKey c i \<or> k = CommandHistoryKey c i))"

lemma group_put_queue:
  assumes "id_ok c" and "group_ok cg" and "\<forall>mg \<in> set mgs. member_ok mg" and "is_queue_key c k"
    and "group_put c cg mgs r"
  shows "puts_other k r"
proof -
  obtain mg b where mg: "mg \<in> set mgs"
    "r = ReqPut (Desired c cg mg) b 0 \<or> r = ReqPut (ManagementGroupConfig c cg mg) b 0"
    using assms(5) by (auto simp: group_put_def)
  obtain i where i: "id_ok i" "k = CommandKey c i \<or> k = CommandHistoryKey c i"
    using assms(4) by (auto simp: is_queue_key_def)
  have "k \<noteq> Desired c cg mg \<and> k \<noteq> ManagementGroupConfig c cg mg"
    using entity_key_inject [of c "ECommand i" "EDesired cg mg"] entity_key_inject [of c "EHistory i" "EDesired cg mg"]
      entity_key_inject [of c "ECommand i" "EGroupConfig cg mg"]
      entity_key_inject [of c "EHistory i" "EGroupConfig cg mg"] assms(1-3) mg(1) i by auto
  then show ?thesis using mg(2) by (auto simp: puts_other_def)
qed

section \<open>One command\<close>

text \<open>A command has reached the history: the entry there is the command with its outcome.\<close>

definition final_form :: "Command \<Rightarrow> Command \<Rightarrow> bool" where
  "final_form cmd fin \<longleftrightarrow> c_ID fin = c_ID cmd \<and> c_Type fin = c_Type cmd
     \<and> c_ClusterGroup fin = c_ClusterGroup cmd \<and> c_ManagementGroup fin = c_ManagementGroup cmd
     \<and> c_Status fin \<in> {CommandCompleted, CommandFailed} \<and> c_FinishedAt fin \<noteq> None"

definition archived :: "(string \<rightharpoonup> bytes) \<Rightarrow> string \<Rightarrow> Command \<Rightarrow> bool" where
  "archived m c cmd \<longleftrightarrow> m (CommandKey c (c_ID cmd)) = None
     \<and> (\<exists>b fin. m (CommandHistoryKey c (c_ID cmd)) = Some b \<and> unmarshal_command b = Some fin \<and> final_form cmd fin)"

text \<open>Every delete answers without an error.\<close>

definition deletes_succeed :: "'e etcd_service \<Rightarrow> bool" where
  "deletes_succeed svc \<longleftrightarrow> (\<forall>e k. fst (svc_delete svc e k) = None)"

lemma deletes_succeed_Delete: "deletes_succeed svc \<Longrightarrow> fst (Delete svc k w) = None"
  by (auto simp: Delete_def deletes_succeed_def split: prod.splits) (metis fst_conv option.distinct(1))

context etcd_kv
begin

lemma Delete_ok:
  "Delete svc k w = (None, w') \<Longrightarrow> kv (service_state w') = (kv (service_state w))(k := None)"
  by (auto simp: Delete_def dest: delete_ok split: prod.splits)

lemma Delete_other:
  "k' \<noteq> k \<Longrightarrow> kv (service_state (snd (Delete svc k w))) k' = kv (service_state w) k'"
  using delete_ok [of "service_state w" k] delete_err [of "service_state w" k]
  by (cases "svc_delete svc (service_state w) k"; cases "fst (svc_delete svc (service_state w) k)")
    (fastforce simp: Delete_def)+

lemma keep_clear: "keeps kv k w w' \<Longrightarrow> kv (service_state w) k \<noteq> None \<Longrightarrow> kv (service_state w') k \<noteq> None"
  by (simp add: keeps_def)

lemma processCommand_not_lost:
  assumes "id_ok (cluster_id cfg)" and "id_ok (c_ID cmd)" and "clock_ok w" and "command_stamps_ok cmd"
    and "kv (service_state w) (CommandKey (cluster_id cfg) (c_ID cmd)) \<noteq> None"
  shows "kv (service_state (processCommand cfg svc st cmd w)) (CommandKey (cluster_id cfg) (c_ID cmd)) \<noteq> None
    \<or> kv (service_state (processCommand cfg svc st cmd w)) (CommandHistoryKey (cluster_id cfg) (c_ID cmd)) \<noteq> None"
  using assms(3,4)
proof (rule processCommand_steps [where cfg = cfg and svc = svc and st = st])
  let ?q = "CommandKey (cluster_id cfg) (c_ID cmd)" and ?h = "CommandHistoryKey (cluster_id cfg) (c_ID cmd)"
  fix b1 e b2 and w1 w2 w3 :: "'e world"
  assume w1: "w1 = snd (Put svc ?q b1 0 (snd (now w)))" and e: "exec_command cfg svc st cmd w1 = (e, w2)"
    and w3: "w3 = snd (Put svc ?q b2 0 (snd (now w2)))"
    and p: "processCommand cfg svc st cmd w =
      (case Put svc ?h b2 0 w3 of (Some err, w4) \<Rightarrow> w4 | (None, w4) \<Rightarrow> snd (Delete svc ?q w4))"
  have "keeps kv ?q w w1" unfolding w1 by (rule keep.now_put_step) simp
  moreover have "keeps kv ?q w1 w2" using keep.exec_command_steps [of cfg cmd st ?q w1] e by simp
  moreover have "keeps kv ?q w2 w3" unfolding w3 by (rule keep.now_put_step) simp
  ultimately have q3: "kv (service_state w3) ?q \<noteq> None" using assms(5) keep_clear by blast
  obtain r w4 where r: "Put svc ?h b2 0 w3 = (r, w4)" by fastforce
  show ?thesis
  proof (cases r)
    case None
    have "kv (service_state w4) ?h = Some b2" using Put_ok r None by simp
    then show ?thesis using p r None Delete_other [of ?h ?q w4] queue_history_distinct(1) [OF assms(1,2,2)] by simp
  next
    case (Some x)
    have "keeps kv ?q w3 (snd (Put svc ?h b2 0 w3))" by (rule keep.put_step) simp
    then have "keeps kv ?q w3 w4" using r by simp
    then show ?thesis using p r Some keep_clear q3 by simp
  qed
qed

text \<open>The entries of other commands are left alone.\<close>

lemma processCommand_leaves:
  assumes "id_ok (cluster_id cfg)" and "group_ok (c_ClusterGroup cmd)"
    and "\<forall>mg \<in> set (command_groups cfg st cmd). member_ok mg"
    and "clock_ok w" and "command_stamps_ok cmd" and "is_queue_key (cluster_id cfg) k"
    and "k \<noteq> CommandKey (cluster_id cfg) (c_ID cmd)" and "k \<noteq> CommandHistoryKey (cluster_id cfg) (c_ID cmd)"
  shows "kv (service_state (processCommand cfg svc st cmd w)) k = kv (service_state w) k"
  using assms(4,5)
proof (rule processCommand_steps [where cfg = cfg and svc = svc and st = st])
  let ?q = "CommandKey (cluster_id cfg) (c_ID cmd)" and ?h = "CommandHistoryKey (cluster_id cfg) (c_ID cmd)"
  fix b1 e b2 and w1 w2 w3 :: "'e world"
  assume w1: "w1 = snd (Put svc ?q b1 0 (snd (now w)))" and e: "exec_command cfg svc st cmd w1 = (e, w2)"
    and w3: "w3 = snd (Put svc ?q b2 0 (snd (now w2)))"
    and p: "processCommand cfg svc st cmd w =
      (case Put svc ?h b2 0 w3 of (Some err, w4) \<Rightarrow> w4 | (None, w4) \<Rightarrow> snd (Delete svc ?q w4))"
  have "leaves kv k w w1" unfolding w1 using assms(7) by (intro leave.now_put_step) (simp add: puts_other_def)
  moreover have "leaves kv k w1 w2"
    using leave.exec_command_steps [of cfg cmd st k w1] group_put_queue [OF assms(1-3,6)] e by simp
  moreover have "leaves kv k w2 w3" unfolding w3 using assms(7) by (intro leave.now_put_step) (simp add: puts_other_def)
  moreover have "leaves kv k w3 (snd (Put svc ?h b2 0 w3))"
    using assms(8) by (intro leave.put_step) (simp add: puts_other_def)
  moreover have "kv (service_state (snd (Delete svc ?q v))) k = kv (service_state v) k" for v
    by (rule Delete_other [OF assms(7)])
  ultimately show ?thesis using p by (cases "Put svc ?h b2 0 w3"; cases "fst (Put svc ?h b2 0 w3)") (auto simp: leaves_def)
qed


text \<open>Against a reliable service the command ends in the history.\<close>

lemma processCommand_archives:
  assumes "puts_succeed svc" and "deletes_succeed svc" and "id_ok (cluster_id cfg)" and "id_ok (c_ID cmd)"
    and "clock_ok w" and "command_stamps_ok cmd"
  shows "archived (kv (service_state (processCommand cfg svc st cmd w))) (cluster_id cfg) cmd"
  using assms(5,6)
proof (rule processCommand_steps [where cfg = cfg and svc = svc and st = st])
  let ?q = "CommandKey (cluster_id cfg) (c_ID cmd)" and ?h = "CommandHistoryKey (cluster_id cfg) (c_ID cmd)"
  fix b1 e b2 and w1 w2 w3 :: "'e world"
  let ?fin = "finished (clock w (ticks w2)) e (started (clock w (ticks w)) cmd)"
  assume b2: "marshal_command ?fin = Some b2"
    and p: "processCommand cfg svc st cmd w =
      (case Put svc ?h b2 0 w3 of (Some err, w4) \<Rightarrow> w4 | (None, w4) \<Rightarrow> snd (Delete svc ?q w4))"
  obtain w4 where w4: "Put svc ?h b2 0 w3 = (None, w4)"
    using puts_succeed_Put [OF assms(1), of ?h b2 0 w3] by (metis prod.collapse)
  obtain w5 where w5: "Delete svc ?q w4 = (None, w5)"
    using deletes_succeed_Delete [OF assms(2), of ?q w4] by (metis prod.collapse)
  have "kv (service_state w5) = (kv (service_state w3))(?h \<mapsto> b2, ?q := None)"
    using Put_ok [OF w4] Delete_ok [OF w5] by simp
  moreover have "processCommand cfg svc st cmd w = w5" using p w4 w5 by simp
  moreover have "final_form cmd ?fin" by (cases e) (simp_all add: final_form_def finished_def started_def)
  ultimately show ?thesis
    using command.roundtrip [OF b2 TrueI] queue_history_distinct(1) [OF assms(3,4,4)] by (auto simp: archived_def)
qed

end

section \<open>The drain\<close>

lemma processCommand_clock [simp]: "clock (processCommand cfg svc st cmd w) = clock w"
proof -
  have put: "clock (writeCommand cfg svc c v) = clock v" for c and v :: "'a world"
    by (simp add: writeCommand_def split: option.splits)
  have arch: "clock (archiveCommand cfg svc c v) = clock v" for c and v :: "'a world"
    by (auto simp: archiveCommand_def dest: Put_clock split: option.splits prod.splits)
  show ?thesis
    by (auto simp: processCommand_def Let_def now_def put arch dest: exec_clock split: prod.splits)
qed

lemma process_pending_clock [simp]: "clock (process_pending cfg svc st raw w) = clock w"
  by (simp add: process_pending_def split: option.splits)

text \<open>An entry of the queue as the API and the consumer write it, read by a store with well-named groups.\<close>

definition entry_ok :: "Config \<Rightarrow> StateStore \<Rightarrow> string \<Rightarrow> bytes \<Rightarrow> bool" where
  "entry_ok cfg st key raw \<longleftrightarrow>
     (\<forall>cmd. unmarshal_command raw = Some cmd \<and> c_Status cmd = CommandPending \<longrightarrow>
        key = CommandKey (cluster_id cfg) (c_ID cmd) \<and> id_ok (c_ID cmd) \<and> group_ok (c_ClusterGroup cmd)
        \<and> command_stamps_ok cmd \<and> (\<forall>mg \<in> set (command_groups cfg st cmd). member_ok mg))"

context etcd_kv
begin

lemma process_pending_leaves:
  assumes "id_ok (cluster_id cfg)" and "clock_ok w" and "entry_ok cfg st key raw"
    and "id_ok i" and "key \<noteq> CommandKey (cluster_id cfg) i"
    and "k = CommandKey (cluster_id cfg) i \<or> k = CommandHistoryKey (cluster_id cfg) i"
  shows "kv (service_state (process_pending cfg svc st raw w)) k = kv (service_state w) k"
proof (cases "unmarshal_command raw")
  case None
  then show ?thesis by (simp add: process_pending_def)
next
  case (Some cmd)
  show ?thesis
  proof (cases "c_Status cmd = CommandPending")
    case True
    note ok = assms(3) [unfolded entry_ok_def, rule_format, OF conjI [OF Some True]]
    have "c_ID cmd \<noteq> i" using ok assms(5) by blast
    moreover have "is_queue_key (cluster_id cfg) k" using assms(4,6) by (auto simp: is_queue_key_def)
    ultimately show ?thesis
      using processCommand_leaves [of cfg cmd st w k] queue_history_distinct [OF assms(1), of "c_ID cmd" i]
        queue_history_distinct [OF assms(1,4), of "c_ID cmd"] assms(1,2,4,6) ok
      by (auto simp: process_pending_def Some)
  qed (simp add: process_pending_def Some)
qed

lemma process_pending_archives:
  assumes "puts_succeed svc" and "deletes_succeed svc" and "id_ok (cluster_id cfg)" and "clock_ok w"
    and "entry_ok cfg st key raw" and "unmarshal_command raw = Some cmd" and "c_Status cmd = CommandPending"
  shows "archived (kv (service_state (process_pending cfg svc st raw w))) (cluster_id cfg) cmd"
  using processCommand_archives [of cfg cmd w st] assms by (auto simp: process_pending_def entry_ok_def)

lemma drain_step_leaves:
  fixes w :: "'e world"
  assumes "id_ok (cluster_id cfg)" and "clock_ok w"
    and "\<forall>(n, key, raw) \<in> set xs. entry_ok cfg (view n) key raw \<and> key \<noteq> CommandKey (cluster_id cfg) i"
    and "id_ok i" and "k = CommandKey (cluster_id cfg) i \<or> k = CommandHistoryKey (cluster_id cfg) i"
  shows "kv (service_state (for_each (\<lambda>(n, key, raw) w. process_pending cfg svc (view n) raw w) xs w)) k
    = kv (service_state w) k"
proof -
  let ?P = "\<lambda>v :: 'e world. clock_ok v \<and> kv (service_state v) k = kv (service_state w) k"
  have "?P (for_each (\<lambda>(n, key, raw) w. process_pending cfg svc (view n) raw w) xs w)"
  proof (rule for_each_invariant)
    fix x and v :: "'e world" assume x: "x \<in> set xs" and v: "?P v"
    obtain n key raw where x': "x = (n, key, raw)" by (cases x)
    then show "?P ((\<lambda>(n, key, raw) w. process_pending cfg svc (view n) raw w) x v)"
      using x v assms process_pending_leaves [of cfg v "view n" key raw i k] by (auto simp: clock_ok_def)
  qed (use assms(2) in simp)
  then show ?thesis by simp
qed

lemma drain_archives:
  fixes w :: "'e world"
  assumes "puts_succeed svc" and "deletes_succeed svc" and "id_ok (cluster_id cfg)" and "clock_ok w"
    and "\<forall>(n, key, raw) \<in> set xs. entry_ok cfg (view n) key raw" and "distinct (map (\<lambda>(n, key, raw). key) xs)"
    and "(n, key, raw) \<in> set xs" and "unmarshal_command raw = Some cmd" and "c_Status cmd = CommandPending"
  shows "archived (kv (service_state (for_each (\<lambda>(n, key, raw) w. process_pending cfg svc (view n) raw w) xs w)))
    (cluster_id cfg) cmd"
  using assms(4-7)
proof (induction xs arbitrary: w)
  case (Cons x xs)
  obtain m k b where x: "x = (m, k, b)" by (cases x)
  let ?f = "\<lambda>(n, key, raw) w. process_pending cfg svc (view n) raw w"
  let ?w1 = "process_pending cfg svc (view m) b w"
  have clk: "clock_ok ?w1" using Cons.prems(1) by (simp add: clock_ok_def)
  show ?case
  proof (cases "(n, key, raw) = x")
    case False
    then show ?thesis using Cons.IH [OF clk] Cons.prems x by auto
  next
    case True
    then have eq: "m = n" "k = key" "b = raw" using x by simp_all
    have ok: "entry_ok cfg (view n) key raw" using Cons.prems(2) x eq by simp
    then have id: "id_ok (c_ID cmd)" "key = CommandKey (cluster_id cfg) (c_ID cmd)"
      using assms(8,9) by (auto simp: entry_ok_def)
    have others: "\<forall>(n, key, raw) \<in> set xs. entry_ok cfg (view n) key raw \<and> key \<noteq> CommandKey (cluster_id cfg) (c_ID cmd)"
      using Cons.prems(2,3) x eq id(2) by force
    have "archived (kv (service_state ?w1)) (cluster_id cfg) cmd"
      using process_pending_archives [OF assms(1-3) Cons.prems(1) ok assms(8,9)] eq by simp
    then show ?thesis
      using drain_step_leaves [OF assms(3) clk others id(1)] x by (simp add: archived_def)
  qed
qed simp

end

section \<open>An example queue\<close>

text \<open>The groups \<open>x\<close> (active) and \<open>y\<close> (passive), and a pending command to promote \<open>y\<close>.\<close>

definition command_json :: "string \<Rightarrow> string \<Rightarrow> string \<Rightarrow> bytes" where
  "command_json i t mg = JSON (JObj [(''id'', JStr i), (''type'', JStr t), (''cluster_group'', JStr ''g''),
     (''management_group'', JStr mg), (''status'', JStr ''pending'')])"

definition pending_command :: "string \<Rightarrow> string \<Rightarrow> string \<Rightarrow> Command" where
  "pending_command i t mg = \<lparr>c_ID = i, c_Type = t, c_ClusterGroup = ''g'', c_ManagementGroup = mg,
     c_Status = CommandPending, c_Error = [], c_CreatedAt = zero_time, c_StartedAt = None, c_FinishedAt = None\<rparr>"

lemma unmarshal_command_json [simp]: "unmarshal_command (command_json i t mg) = Some (pending_command i t mg)"
  by (simp add: command_json_def unmarshal_command_def read_defs same_field_def lower_def pending_command_def)

lemma pending_command_simps [simp]:
  "c_ID (pending_command i t mg) = i" "c_Type (pending_command i t mg) = t"
  "c_ClusterGroup (pending_command i t mg) = ''g''" "c_ManagementGroup (pending_command i t mg) = mg"
  "c_Status (pending_command i t mg) = CommandPending"
  by (simp_all add: pending_command_def)

lemma time_ok_zero [simp]: "time_ok zero_time"
  by (simp add: time_ok_def zero_time_def end_time_def ns_per_day_def ns_per_s_def)

lemma pending_stamps_ok [simp]: "command_stamps_ok (pending_command i t mg)"
  by (simp add: command_stamps_ok_def pending_command_def)

definition queue_items :: "(entity \<times> bytes) list" where
  "queue_items = pair_items ''active'' True ''passive'' True @ [(ECommand ''1'', command_json ''1'' ''promote'' ''y'')]"

lemma queue_listed:
  "Prefix (example_store queue_items) (CommandsKey ''c'') = [(CommandKey ''c'' ''1'', command_json ''1'' ''promote'' ''y'')]"
  by code_simp

lemma queue_groups: "ListChildren (example_store queue_items) (ClusterGroup ''c'' ''g'') = [''x'', ''y'']"
  by code_simp

lemma queue_entry_ok:
  "entry_ok (example_cfg mode) (example_store queue_items) (CommandKey ''c'' ''1'') (command_json ''1'' ''promote'' ''y'')"
  by (auto simp: entry_ok_def command_groups_def queue_groups entity_ok_defs id_ok_def)

lemma mem_reliable: "puts_succeed mem_service" "deletes_succeed mem_service"
  by (auto simp: puts_succeed_def deletes_succeed_def mem_service_def)

lemma example_clock [simp]: "clock_ok (example_world items)"
  by (simp add: clock_ok_def example_clock_ok)

section \<open>The properties\<close>

text \<open>
  C20: a command is never lost. Against a service that may fail any request, processing a
  command of the queue leaves an entry for it in the queue or in the history.
\<close>

theorem command_not_lost:
  assumes "etcd_kv svc kv" and "id_ok (cluster_id cfg)" and "id_ok (c_ID cmd)"
    and "clock_ok w" and "command_stamps_ok cmd"
    and "kv (service_state w) (CommandKey (cluster_id cfg) (c_ID cmd)) \<noteq> None"
  shows "kv (service_state (processCommand cfg svc st cmd w)) (CommandKey (cluster_id cfg) (c_ID cmd)) \<noteq> None
    \<or> kv (service_state (processCommand cfg svc st cmd w)) (CommandHistoryKey (cluster_id cfg) (c_ID cmd)) \<noteq> None"
  by (rule etcd_kv.processCommand_not_lost [OF assms])

theorem command_not_lost_witness:
  "CommandKey ''c'' ''1'' \<in> dom (map_of (fst (service_state (processCommand (example_cfg ''manual'') mem_service
       (example_store queue_items) (pending_command ''1'' ''promote'' ''y'') (example_world queue_items)))))
   \<or> CommandHistoryKey ''c'' ''1'' \<in> dom (map_of (fst (service_state (processCommand (example_cfg ''manual'') mem_service
       (example_store queue_items) (pending_command ''1'' ''promote'' ''y'') (example_world queue_items)))))"
proof -
  have "map_of (fst (service_state (example_world queue_items))) (CommandKey ''c'' ''1'') \<noteq> None"
    by code_simp
  then show ?thesis
    using command_not_lost [OF mem.etcd_kv_axioms, of "example_cfg ''manual''" "pending_command ''1'' ''promote'' ''y''"
        "example_world queue_items" "example_store queue_items"] by (simp add: id_ok_def domIff)
qed

text \<open>
  C21: the drain empties the queue. Against a service that answers without errors, every pending
  command the store lists when the consumer starts is, after the drain, gone from the queue
  and in the history with its outcome, in whatever order the queue is listed and whatever
  happens to the store between two commands.
\<close>

theorem drain_archives_pending:
  assumes "etcd_kv svc kv" and "puts_succeed svc" and "deletes_succeed svc" and "id_ok (cluster_id cfg)" and "clock_ok w"
    and "\<forall>n. \<forall>(key, raw) \<in> set (Prefix (view 0) (CommandsKey (cluster_id cfg))). entry_ok cfg (view n) key raw"
    and "(key, raw) \<in> set (Prefix (view 0) (CommandsKey (cluster_id cfg)))"
    and "unmarshal_command raw = Some cmd" and "c_Status cmd = CommandPending"
  shows "archived (kv (service_state (drainPending cfg svc view w))) (cluster_id cfg) cmd"
proof -
  let ?items = "Prefix (view 0) (CommandsKey (cluster_id cfg))"
  have "map (\<lambda>(n, key, raw). key) (enumerate 0 ?items) = map fst (map snd (enumerate 0 ?items))"
    unfolding map_map by (rule map_cong) auto
  then have keys: "distinct (map (\<lambda>(n, key, raw). key) (enumerate 0 ?items))"
    using distinct_Prefix by (simp only: map_snd_enumerate)
  obtain n where n: "(n, key, raw) \<in> set (enumerate 0 ?items)"
    using assms(7) unfolding in_set_enumerate_eq by (metis fst_conv snd_conv in_set_conv_nth le0 add_0_right diff_zero)
  have ok: "\<forall>(n, key, raw) \<in> set (enumerate 0 ?items). entry_ok cfg (view n) key raw"
    using assms(6) by (metis (mono_tags, lifting) case_prodI2 case_prodD set_map imageI map_snd_enumerate snd_conv)
  show ?thesis
    unfolding drainPending_def by (rule etcd_kv.drain_archives [OF assms(1-5) ok keys n assms(8,9)])
qed

theorem drain_archives_pending_witness:
  "archived (map_of (fst (service_state (drainPending (example_cfg ''manual'') mem_service
     (\<lambda>_. example_store queue_items) (example_world queue_items))))) ''c'' (pending_command ''1'' ''promote'' ''y'')"
  using drain_archives_pending [OF mem.etcd_kv_axioms mem_reliable, of "example_cfg ''manual''"
      "example_world queue_items" "\<lambda>_. example_store queue_items" "CommandKey ''c'' ''1''"
      "command_json ''1'' ''promote'' ''y''" "pending_command ''1'' ''promote'' ''y''"]
  by (simp add: queue_listed queue_entry_ok)

text \<open>
  A command that arrives during the drain waits for the next leader. The watch starts after
  the revision the store has when the drain ends, so a command that the first listing does not
  show and whose events all have at most that revision is never handled: after the drain and
  all events of the watch, the queue still holds it unchanged.
\<close>

theorem drain_gap_skips_command:
  fixes w :: "'e world"
  assumes "etcd_kv svc kv" and "id_ok (cluster_id cfg)" and "clock_ok w" and "id_ok i"
    and "\<forall>n. \<forall>(key, raw) \<in> set (Prefix (view 0) (CommandsKey (cluster_id cfg))).
           entry_ok cfg (view n) key raw \<and> key \<noteq> CommandKey (cluster_id cfg) i"
    and "\<forall>(st, event) \<in> set evs. entry_ok cfg st (ev_Key event) (ev_Value event)
           \<and> (ev_Key event = CommandKey (cluster_id cfg) i \<longrightarrow> ev_Revision event \<le> revision drained)"
  shows "kv (service_state (Run cfg svc view drained evs w)) (CommandKey (cluster_id cfg) i)
    = kv (service_state w) (CommandKey (cluster_id cfg) i)"
proof -
  let ?k = "CommandKey (cluster_id cfg) i"
  let ?later = "filter (\<lambda>(st, event). revision drained + 1 \<le> ev_Revision event) evs"
  let ?P = "\<lambda>v :: 'e world. clock_ok v \<and> kv (service_state v) ?k = kv (service_state w) ?k"
  have "\<forall>(n, key, raw) \<in> set (enumerate 0 (Prefix (view 0) (CommandsKey (cluster_id cfg)))).
      entry_ok cfg (view n) key raw \<and> key \<noteq> ?k"
    using assms(5) by (metis (mono_tags, lifting) case_prodI2 case_prodD set_map imageI map_snd_enumerate snd_conv)
  then have "kv (service_state (drainPending cfg svc view w)) ?k = kv (service_state w) ?k"
    unfolding drainPending_def using etcd_kv.drain_step_leaves [OF assms(1-3) _ assms(4), of _ view ?k] by blast
  moreover have "clock_ok (drainPending cfg svc view w)"
    unfolding drainPending_def
    by (rule for_each_invariant [where P = clock_ok]) (use assms(3) in \<open>auto simp: clock_ok_def\<close>)
  ultimately have start: "?P (drainPending cfg svc view w)" by simp
  have "?P (for_each (\<lambda>(st, event) w. handle_event cfg svc st event w) ?later (drainPending cfg svc view w))"
  proof (rule for_each_invariant [where P = ?P])
    show "?P (drainPending cfg svc view w)" by (rule start)
    fix x and v :: "'e world" assume x: "x \<in> set ?later" and v: "?P v"
    obtain st event where x': "x = (st, event)" by (cases x)
    then have "entry_ok cfg st (ev_Key event) (ev_Value event)" "ev_Key event \<noteq> ?k"
      using x assms(6) by fastforce+
    then show "?P ((\<lambda>(st, event) w. handle_event cfg svc st event w) x v)"
      using v x' etcd_kv.process_pending_leaves [OF assms(1,2), of v st "ev_Key event" "ev_Value event" i ?k] assms(4)
      by (simp add: handle_event_def clock_ok_def)
  qed
  then show ?thesis by (simp add: Run_def)
qed

text \<open>A promotion of \<open>y\<close> put at revision 7 while the drain of an empty queue ends at revision 7.\<close>

theorem drain_gap_skips_command_witness:
  "map_of (fst (service_state (Run (example_cfg ''manual'') mem_service (\<lambda>_. example_store example_items)
     (example_store queue_items)
     [(example_store queue_items, \<lparr>ev_Type = EventPut, ev_Key = CommandKey ''c'' ''1'',
         ev_Value = command_json ''1'' ''promote'' ''y'', ev_Revision = 7\<rparr>)] (example_world queue_items))))
     (CommandKey ''c'' ''1'') = Some (command_json ''1'' ''promote'' ''y'')"
proof -
  have "map_of (fst (service_state (example_world queue_items))) (CommandKey ''c'' ''1'')
      = Some (command_json ''1'' ''promote'' ''y'')" by code_simp
  moreover have "Prefix (example_store example_items) (CommandsKey ''c'') = []" by code_simp
  moreover have "revision (example_store queue_items) = 7" by code_simp
  ultimately show ?thesis
    using drain_gap_skips_command [OF mem.etcd_kv_axioms, of "example_cfg ''manual''" "example_world queue_items" "''1''"
        "\<lambda>_. example_store example_items" "[(example_store queue_items, \<lparr>ev_Type = EventPut, ev_Key = CommandKey ''c'' ''1'',
         ev_Value = command_json ''1'' ''promote'' ''y'', ev_Revision = 7\<rparr>)]" "example_store queue_items"]
    by (simp add: queue_entry_ok id_ok_def)
qed

end
