(* ===== verification/CommandEffects.thy ===== *)
theory CommandEffects
  imports CommandQueue
begin

text \<open>
  What each command does to etcd, against a service that answers without errors: promotion and
  demotion exchange two priorities and write the desired states, the other commands write one
  desired document, and nothing else changes.
\<close>

section \<open>One write\<close>

definition desired_doc :: "bytes option \<Rightarrow> DesiredState \<Rightarrow> bool \<Rightarrow> bool" where
  "desired_doc b s m \<longleftrightarrow> (\<exists>d. Option.bind b unmarshal_desired = Some d \<and> d_State d = s \<and> d_Managed d = m)"

text \<open>The document of the store with another priority (and another time stamp).\<close>

definition repriced :: "bytes option \<Rightarrow> ManagementGroupConfigDocument \<Rightarrow> int \<Rightarrow> bool" where
  "repriced b doc p \<longleftrightarrow> (\<exists>d. Option.bind b unmarshal_mgconfig = Some d
     \<and> mgc_Priority d = p \<and> mgc_Roles d = mgc_Roles doc)"

lemma wrap_error_None [simp]: "wrap_error msg (None, w) k = k w"
  by (simp add: wrap_error_def)

lemma assign_int64: "assign id as_int vs z = Some v \<Longrightarrow> int64 z \<Longrightarrow> int64 v"
proof (induction vs arbitrary: z)
  case (Cons x xs)
  then show ?case by (cases x) (auto split: if_splits)
qed simp

lemma stored_priority_int64: "stored_mgconfig st c cg mg = Some doc \<Longrightarrow> int64 (mgc_Priority doc)"
proof -
  have z: "int64 0" by (simp add: int64_def)
  assume "stored_mgconfig st c cg mg = Some doc"
  then show ?thesis
    by (auto simp: stored_mgconfig_def unmarshal_mgconfig_def read_field_def unmarshal_def
        z intro: assign_int64 [OF _ z] split: bind_splits bytes.splits json.splits)
qed

text \<open>The two writes of a swap.\<close>

definition swapped :: "(string \<rightharpoonup> bytes) \<Rightarrow> (string \<rightharpoonup> bytes) \<Rightarrow> string \<Rightarrow> ManagementGroupConfigDocument \<Rightarrow>
    string \<Rightarrow> ManagementGroupConfigDocument \<Rightarrow> bool" where
  "swapped m m' k doc k' doc' \<longleftrightarrow> repriced (m' k) doc (mgc_Priority doc') \<and> repriced (m' k') doc' (mgc_Priority doc)
     \<and> (\<forall>x. x \<noteq> k \<longrightarrow> x \<noteq> k' \<longrightarrow> m' x = m x)"

section \<open>Choosing groups\<close>

lemma find_key: "distinct (map fst es) \<Longrightarrow> (k, v) \<in> set es \<Longrightarrow> find (\<lambda>e. fst e = k) es = Some (k, v)"
  by (induction es) (auto simp: image_iff)

lemma lowest_spec:
  "(lowest best es = best \<or> lowest best es \<in> set es \<and> snd (lowest best es) < snd best)
    \<and> (\<forall>e \<in> set es. snd (lowest best es) \<le> snd e)"
proof (induction best es rule: lowest.induct)
  case (2 best e es)
  then show ?case by (auto split: if_splits)
qed simp

lemma promote_entries_eq:
  "promote_entries cfg st cg = concat (map (\<lambda>mg.
      case stored_mgconfig st (cluster_id cfg) cg mg of None \<Rightarrow> [] | Some doc \<Rightarrow> [(mg, mgc_Priority doc)])
     (ListChildren st (ClusterGroup (cluster_id cfg) cg)))"
  unfolding promote_entries_def stored_mgconfig_def
  by (rule arg_cong [where f = concat], rule map_cong) (auto split: option.splits bind_splits)

lemma promote_entries_iff:
  "(mg, p) \<in> set (promote_entries cfg st cg) \<longleftrightarrow>
     mg \<in> set (ListChildren st (ClusterGroup (cluster_id cfg) cg))
     \<and> (\<exists>doc. stored_mgconfig st (cluster_id cfg) cg mg = Some doc \<and> mgc_Priority doc = p)"
  unfolding promote_entries_eq by (force split: option.splits)

lemma distinct_promote_entries:
  assumes "store_wf st"
  shows "distinct (map fst (promote_entries cfg st cg))"
proof -
  have "map fst (concat (map (\<lambda>mg. case f mg of None \<Rightarrow> [] | Some doc \<Rightarrow> [(mg, mgc_Priority doc)]) xs))
      = filter (\<lambda>mg. f mg \<noteq> None) xs" for f :: "string \<Rightarrow> ManagementGroupConfigDocument option" and xs
    by (induction xs) (auto split: option.splits)
  then show ?thesis using distinct_ListChildren [OF assms] by (simp add: promote_entries_eq)
qed

context etcd_kv
begin

lemma writeDesired_done:
  assumes "puts_succeed svc" and "clock_ok w"
  obtains b w' where "writeDesired cfg svc cg mg s m w = (None, w')" "clock_ok w'"
    "kv (service_state w') = (kv (service_state w))(Desired (cluster_id cfg) cg mg \<mapsto> b)" "desired_doc (Some b) s m"
proof -
  let ?d = "\<lparr>d_State = s, d_Managed = m, d_UpdatedAt = clock w (ticks w), d_Details = []\<rparr>"
  let ?k = "Desired (cluster_id cfg) cg mg"
  obtain b where b: "marshal_desired ?d = Some b" using desired.total [of ?d] assms(2) by (auto simp: clock_ok_def)
  obtain w' where w': "Put svc ?k b 0 (snd (now w)) = (None, w')"
    using puts_succeed_Put [OF assms(1), of ?k b 0 "snd (now w)"] by (metis prod.collapse)
  have "writeDesired cfg svc cg mg s m w = (None, w')" using b w' by (simp add: writeDesired_eq)
  moreover have "clock_ok w'" using Put_clock [OF w'] assms(2) by (simp add: clock_ok_def)
  moreover have "desired_doc (Some b) s m" using desired.roundtrip [OF b TrueI] by (simp add: desired_doc_def)
  ultimately show ?thesis using that Put_ok [OF w'] by simp
qed

lemma cc_writePriority_done:
  assumes "puts_succeed svc" and "clock_ok w" and "stored_mgconfig st (cluster_id cfg) cg mg = Some doc" and "int64 p"
  obtains b w' where "cc_writePriority cfg svc st cg mg p w = (None, w')" "clock_ok w'"
    "kv (service_state w') = (kv (service_state w))(ManagementGroupConfig (cluster_id cfg) cg mg \<mapsto> b)"
    "repriced (Some b) doc p"
proof -
  let ?d = "doc\<lparr>mgc_Priority := p, mgc_UpdatedAt := clock w (ticks w)\<rparr>"
  let ?k = "ManagementGroupConfig (cluster_id cfg) cg mg"
  obtain b where b: "marshal_mgconfig ?d = Some b" using mgconfig.total [of ?d] assms(2) by (auto simp: clock_ok_def)
  obtain w' where w': "Put svc ?k b 0 (snd (now w)) = (None, w')"
    using puts_succeed_Put [OF assms(1), of ?k b 0 "snd (now w)"] by (metis prod.collapse)
  have "cc_writePriority cfg svc st cg mg p w = (None, w')" using b w' assms(3) by (simp add: cc_writePriority_eq)
  moreover have "clock_ok w'" using Put_clock [OF w'] assms(2) by (simp add: clock_ok_def)
  moreover have "repriced (Some b) doc p" using mgconfig.roundtrip [OF b] assms(4) by (simp add: repriced_def)
  ultimately show ?thesis using that Put_ok [OF w'] by simp
qed

lemma swap_done:
  assumes "puts_succeed svc" and "clock_ok w"
    and "stored_mgconfig st (cluster_id cfg) cg a = Some doc" and "stored_mgconfig st (cluster_id cfg) cg b = Some doc'"
    and "ManagementGroupConfig (cluster_id cfg) cg a \<noteq> ManagementGroupConfig (cluster_id cfg) cg b"
  obtains w' where "clock_ok w'"
    "swapped (kv (service_state w)) (kv (service_state w')) (ManagementGroupConfig (cluster_id cfg) cg a) doc
       (ManagementGroupConfig (cluster_id cfg) cg b) doc'"
    "\<And>m m' k. wrap_error m (cc_writePriority cfg svc st cg a (mgc_Priority doc') w) (\<lambda>w.
        wrap_error m' (cc_writePriority cfg svc st cg b (mgc_Priority doc) w) k) = k w'"
proof -
  obtain x w1 where 1: "cc_writePriority cfg svc st cg a (mgc_Priority doc') w = (None, w1)" "clock_ok w1"
    "kv (service_state w1) = (kv (service_state w))(ManagementGroupConfig (cluster_id cfg) cg a \<mapsto> x)"
    "repriced (Some x) doc (mgc_Priority doc')"
    using cc_writePriority_done [OF assms(1,2,3) stored_priority_int64 [OF assms(4)]] by metis
  obtain y w2 where 2: "cc_writePriority cfg svc st cg b (mgc_Priority doc) w1 = (None, w2)" "clock_ok w2"
    "kv (service_state w2) = (kv (service_state w1))(ManagementGroupConfig (cluster_id cfg) cg b \<mapsto> y)"
    "repriced (Some y) doc' (mgc_Priority doc)"
    using cc_writePriority_done [OF assms(1) 1(2) assms(4) stored_priority_int64 [OF assms(3)]] by metis
  show ?thesis using that [of w2] 1 2 assms(5) by (simp add: swapped_def)
qed

end

section \<open>Promotion\<close>

lemma execPromote_top:
  assumes "store_wf st" and "(c_ManagementGroup cmd, p) \<in> set (promote_entries cfg st (c_ClusterGroup cmd))" and "0 \<le> p"
    and "\<forall>e \<in> set (promote_entries cfg st (c_ClusterGroup cmd)). p \<le> snd e"
  shows "execPromote cfg svc st cmd w = activateTarget cfg svc st (c_ClusterGroup cmd) (c_ManagementGroup cmd) w"
proof -
  let ?es = "promote_entries cfg st (c_ClusterGroup cmd)"
  have "lowest (c_ManagementGroup cmd, p) ?es = (c_ManagementGroup cmd, p)"
    using lowest_spec [of "(c_ManagementGroup cmd, p)" ?es] assms(4) by fastforce
  then show ?thesis
    using find_key [OF distinct_promote_entries [OF assms(1)] assms(2)] assms(3) by (simp add: execPromote_def)
qed

lemma execPromote_swap:
  assumes "store_wf st" and "(c_ManagementGroup cmd, p) \<in> set (promote_entries cfg st (c_ClusterGroup cmd))" and "0 \<le> p"
    and "e \<in> set (promote_entries cfg st (c_ClusterGroup cmd))" and "snd e < p"
  obtains top q where "(top, q) \<in> set (promote_entries cfg st (c_ClusterGroup cmd))" "q < p" "top \<noteq> c_ManagementGroup cmd"
    "\<forall>e \<in> set (promote_entries cfg st (c_ClusterGroup cmd)). q \<le> snd e"
    "execPromote cfg svc st cmd w =
       wrap_error (writing_priority (c_ManagementGroup cmd))
         (cc_writePriority cfg svc st (c_ClusterGroup cmd) (c_ManagementGroup cmd) q w) (\<lambda>w.
       wrap_error (writing_priority top) (cc_writePriority cfg svc st (c_ClusterGroup cmd) top p w) (\<lambda>w.
       wrap_error (activating_target (c_ManagementGroup cmd))
         (activateTarget cfg svc st (c_ClusterGroup cmd) (c_ManagementGroup cmd) w) (\<lambda>w. (None, w))))"
proof -
  let ?mg = "c_ManagementGroup cmd" and ?es = "promote_entries cfg st (c_ClusterGroup cmd)"
  obtain top q where low: "lowest (?mg, p) ?es = (top, q)" by fastforce
  have q: "q \<le> snd e" and spec: "(top, q) = (?mg, p) \<or> (top, q) \<in> set ?es \<and> q < p" "\<forall>e \<in> set ?es. q \<le> snd e"
    using lowest_spec [of "(?mg, p)" ?es] assms(4) low by auto
  then have in_es: "(top, q) \<in> set ?es" "q < p" using assms(5) by auto
  have "top \<noteq> ?mg"
    using in_es assms(2) distinct_promote_entries [OF assms(1)] by (metis eq_key_imp_eq_value less_irrefl)
  then show ?thesis
    using that [OF in_es _ spec(2)] low find_key [OF distinct_promote_entries [OF assms(1)] assms(2)] assms(3)
    by (simp add: execPromote_def Let_def)
qed

text \<open>The state a promotion writes.\<close>

definition promoted_state :: "Config \<Rightarrow> StateStore \<Rightarrow> string \<Rightarrow> DesiredState" where
  "promoted_state cfg st cg = (if hasNoActiveGroup cfg st cg then DesiredActive else DesiredPassive)"

lemma activateTarget_eq: "activateTarget cfg svc st cg mg = writeDesired cfg svc cg mg (promoted_state cfg st cg) True"
  by (rule ext) (simp add: activateTarget_def promoted_state_def)

lemma hasNoActiveGroup_iff:
  "hasNoActiveGroup cfg st cg \<longleftrightarrow> (\<forall>mg \<in> set (ListChildren st (ClusterGroup (cluster_id cfg) cg)).
     \<not> desired_doc (Get st (Desired (cluster_id cfg) cg mg)) DesiredActive True)"
  unfolding hasNoActiveGroup_def list_all_iff desired_doc_def
  by (rule ball_cong) (auto split: option.splits bind_splits)

lemma group_keys_distinct:
  assumes "id_ok c" and "group_ok cg" and "member_ok a" and "member_ok b"
  shows "ManagementGroupConfig c cg a = ManagementGroupConfig c cg b \<longleftrightarrow> a = b"
    and "Desired c cg a = Desired c cg b \<longleftrightarrow> a = b" and "ManagementGroupConfig c cg a \<noteq> Desired c cg b"
  using assms entity_key_inject [of c "EGroupConfig cg a" "EGroupConfig cg b"]
    entity_key_inject [of c "EDesired cg a" "EDesired cg b"] entity_key_inject [of c "EGroupConfig cg a" "EDesired cg b"]
  by simp_all

text \<open>The names a command may touch are well-formed.\<close>

definition names_fit :: "Config \<Rightarrow> StateStore \<Rightarrow> Command \<Rightarrow> bool" where
  "names_fit cfg st cmd \<longleftrightarrow> store_wf st \<and> id_ok (cluster_id cfg) \<and> group_ok (c_ClusterGroup cmd)
     \<and> (\<forall>mg \<in> set (command_groups cfg st cmd). member_ok mg)"

text \<open>
  C22: what a promotion does. When some group has a smaller priority number than the target,
  promoting the target exchanges its priority in etcd with the group that has the smallest
  one, both keep their roles, and the target is written managed: active when the store shows no managed active group, and otherwise passive, so that the
  controller drains the owner first. No other key changes.
\<close>

theorem promote_effect:
  assumes "etcd_kv svc kv" and "puts_succeed svc" and "clock_ok w" and "names_fit cfg st cmd"
    and "c_Type cmd = CommandTypePromote" and "c_ManagementGroup cmd = mg" and "c_ClusterGroup cmd = cg"
    and "(mg, p) \<in> set (promote_entries cfg st cg)" and "0 \<le> p"
    and "\<exists>e \<in> set (promote_entries cfg st cg). snd e < p"
    and "exec_command cfg svc st cmd w = (err, w')" and "m = kv (service_state w)" and "m' = kv (service_state w')"
  shows "err = None \<and> (\<exists>top q doc doc'. (top, q) \<in> set (promote_entries cfg st cg) \<and> q < p
    \<and> (\<forall>e \<in> set (promote_entries cfg st cg). q \<le> snd e)
    \<and> stored_mgconfig st (cluster_id cfg) cg mg = Some doc \<and> stored_mgconfig st (cluster_id cfg) cg top = Some doc'
    \<and> repriced (m' (ManagementGroupConfig (cluster_id cfg) cg mg)) doc q
    \<and> repriced (m' (ManagementGroupConfig (cluster_id cfg) cg top)) doc' p
    \<and> desired_doc (m' (Desired (cluster_id cfg) cg mg))
        (if \<forall>g \<in> set (ListChildren st (ClusterGroup (cluster_id cfg) cg)).
              \<not> desired_doc (Get st (Desired (cluster_id cfg) cg g)) DesiredActive True
         then DesiredActive else DesiredPassive) True
    \<and> (\<forall>k. k \<notin> {ManagementGroupConfig (cluster_id cfg) cg mg, ManagementGroupConfig (cluster_id cfg) cg top,
              Desired (cluster_id cfg) cg mg} \<longrightarrow> m' k = m k))"
proof -
  obtain e where e: "e \<in> set (promote_entries cfg st (c_ClusterGroup cmd))" "snd e < p" using assms(7,10) by blast
  have wf: "store_wf st" and target: "(c_ManagementGroup cmd, p) \<in> set (promote_entries cfg st (c_ClusterGroup cmd))"
    using assms(4,6-8) by (auto simp: names_fit_def)
  obtain top q where top: "(top, q) \<in> set (promote_entries cfg st cg)" "q < p" "top \<noteq> mg"
    "\<forall>e \<in> set (promote_entries cfg st cg). q \<le> snd e" and exec: "execPromote cfg svc st cmd w =
       wrap_error (writing_priority mg) (cc_writePriority cfg svc st cg mg q w) (\<lambda>w.
       wrap_error (writing_priority top) (cc_writePriority cfg svc st cg top p w) (\<lambda>w.
       wrap_error (activating_target mg) (activateTarget cfg svc st cg mg w) (\<lambda>w. (None, w))))"
    using execPromote_swap [OF wf target assms(9) e, of svc w] assms(6,7) by metis
  obtain doc doc' where docs: "stored_mgconfig st (cluster_id cfg) cg mg = Some doc" "mgc_Priority doc = p"
    "stored_mgconfig st (cluster_id cfg) cg top = Some doc'" "mgc_Priority doc' = q"
    using assms(8) top(1) by (auto simp: promote_entries_iff)
  have names: "id_ok (cluster_id cfg)" "group_ok cg" "member_ok mg" "member_ok top"
    using assms(4,6,7) promote_entries_in [OF top(1)] by (auto simp: names_fit_def command_groups_def)
  note keys = group_keys_distinct [OF names] group_keys_distinct [OF names(1,2,4,3)] group_keys_distinct(3) [OF names(1-3,3)]
  have ne: "ManagementGroupConfig (cluster_id cfg) cg mg \<noteq> ManagementGroupConfig (cluster_id cfg) cg top"
    using keys(1) top(3) by blast
  obtain w1 where w1: "clock_ok w1"
    "swapped m (kv (service_state w1)) (ManagementGroupConfig (cluster_id cfg) cg mg) doc
       (ManagementGroupConfig (cluster_id cfg) cg top) doc'"
    "execPromote cfg svc st cmd w = wrap_error (activating_target mg) (activateTarget cfg svc st cg mg w1) (\<lambda>w. (None, w))"
    unfolding exec assms(12)
    by (rule etcd_kv.swap_done [OF assms(1-3) docs(1,3) ne, unfolded docs(2,4)]) blast
  obtain b w2 where w2: "writeDesired cfg svc cg mg (promoted_state cfg st cg) True w1 = (None, w2)"
    "kv (service_state w2) = (kv (service_state w1))(Desired (cluster_id cfg) cg mg \<mapsto> b)"
    "desired_doc (Some b) (promoted_state cfg st cg) True"
    using etcd_kv.writeDesired_done [OF assms(1,2) w1(1)] by metis
  have "err = None" "w' = w2"
    using assms(5,11) w1(3) w2(1) by (simp_all add: exec_command_def activateTarget_eq)
  then have m': "m' = (kv (service_state w1))(Desired (cluster_id cfg) cg mg \<mapsto> b)" using w2(2) assms(13) by simp
  have at: "repriced (m' (ManagementGroupConfig (cluster_id cfg) cg mg)) doc q"
    "repriced (m' (ManagementGroupConfig (cluster_id cfg) cg top)) doc' p"
    "desired_doc (m' (Desired (cluster_id cfg) cg mg)) (promoted_state cfg st cg) True"
    using w1(2) keys w2(3) docs(2,4) by (simp_all add: m' swapped_def)
  have rest: "m' k = m k" if "k \<notin> {ManagementGroupConfig (cluster_id cfg) cg mg,
      ManagementGroupConfig (cluster_id cfg) cg top, Desired (cluster_id cfg) cg mg}" for k
    using that w1(2) by (simp add: m' swapped_def)
  show ?thesis
    unfolding hasNoActiveGroup_iff [symmetric] promoted_state_def [symmetric]
    using \<open>err = None\<close> top(1,2,4) docs(1,3) at rest by blast
qed

lemma store_wf_example [simp]: "store_wf (example_store items)"
  by (simp add: example_store_def store_wf_LoadSnapshot)

lemma queue_fits: "names_fit (example_cfg mode) (example_store queue_items) (pending_command i t ''y'')"
  "names_fit (example_cfg mode) (example_store queue_items) (pending_command i t ''x'')"
  by (simp_all add: names_fit_def command_groups_def queue_groups entity_ok_defs)

lemma queue_entries: "promote_entries (example_cfg mode) (example_store queue_items) ''g'' = [(''x'', 1), (''y'', 2)]"
proof -
  have "promote_entries (example_cfg ''manual'') (example_store queue_items) ''g'' = [(''x'', 1), (''y'', 2)]" by code_simp
  then show ?thesis by (simp add: promote_entries_def)
qed

definition executed :: "Command \<Rightarrow> error option \<times> mem_etcd world" where
  "executed cmd = exec_command (example_cfg ''manual'') mem_service (example_store queue_items) cmd (example_world queue_items)"

definition left_in :: "error option \<times> mem_etcd world \<Rightarrow> string \<rightharpoonup> bytes" where
  "left_in r = map_of (fst (service_state (snd r)))"

theorem promote_effect_witness:
  "desired_doc (left_in (executed (pending_command ''1'' ''promote'' ''y'')) (Desired ''c'' ''g'' ''y'')) DesiredPassive True
   \<and> (\<exists>doc. repriced (left_in (executed (pending_command ''1'' ''promote'' ''y'')) (ManagementGroupConfig ''c'' ''g'' ''y'')) doc 1)"
proof -
  let ?cmd = "pending_command ''1'' ''promote'' ''y''"
  have run: "exec_command (example_cfg ''manual'') mem_service (example_store queue_items) ?cmd (example_world queue_items)
    = (fst (executed ?cmd), snd (executed ?cmd))" by (simp add: executed_def)
  have "desired_doc (Get (example_store queue_items) (Desired ''c'' ''g'' ''x'')) DesiredActive True"
  proof -
    have "Get (example_store queue_items) (Desired ''c'' ''g'' ''x'') = Some (desired_json ''active'' True)" by code_simp
    then show ?thesis by (simp add: desired_doc_def)
  qed
  then show ?thesis
    using promote_effect [OF mem.etcd_kv_axioms mem_reliable(1) example_clock queue_fits(1) _ _ _ _ _ _ run refl refl,
        of "''y''" "''g''" 2]
    by (auto simp: queue_entries queue_groups left_in_def)
qed

text \<open>
  Promoting the owner drains it. When the target already has the smallest priority number
  and the store shows it managed with desired state active, the command succeeds and its only
  effect is to write the target passive: the cluster group loses its owner.
\<close>

theorem promote_drains_owner:
  assumes "etcd_kv svc kv" and "puts_succeed svc" and "clock_ok w" and "store_wf st"
    and "c_Type cmd = CommandTypePromote" and "c_ManagementGroup cmd = mg" and "c_ClusterGroup cmd = cg"
    and "(mg, p) \<in> set (promote_entries cfg st cg)" and "0 \<le> p"
    and "\<forall>e \<in> set (promote_entries cfg st cg). p \<le> snd e"
    and "desired_doc (Get st (Desired (cluster_id cfg) cg mg)) DesiredActive True"
    and "exec_command cfg svc st cmd w = (err, w')"
  shows "err = None \<and> desired_doc (kv (service_state w') (Desired (cluster_id cfg) cg mg)) DesiredPassive True
    \<and> (\<forall>k. k \<noteq> Desired (cluster_id cfg) cg mg \<longrightarrow> kv (service_state w') k = kv (service_state w) k)"
proof -
  have "\<not> hasNoActiveGroup cfg st cg"
    using assms(8,11) by (auto simp: hasNoActiveGroup_iff dest: promote_entries_in)
  then have "exec_command cfg svc st cmd w = writeDesired cfg svc cg mg DesiredPassive True w"
    using execPromote_top [OF assms(4), of cmd p cfg svc w] assms(5-10)
    by (simp add: exec_command_def activateTarget_def)
  moreover obtain b w2 where "writeDesired cfg svc cg mg DesiredPassive True w = (None, w2)"
    "kv (service_state w2) = (kv (service_state w))(Desired (cluster_id cfg) cg mg \<mapsto> b)"
    "desired_doc (Some b) DesiredPassive True"
    using etcd_kv.writeDesired_done [OF assms(1-3)] by metis
  ultimately show ?thesis using assms(12) by simp
qed

theorem promote_drains_owner_witness:
  "desired_doc (left_in (executed (pending_command ''1'' ''promote'' ''x'')) (Desired ''c'' ''g'' ''x'')) DesiredPassive True"
proof -
  let ?cmd = "pending_command ''1'' ''promote'' ''x''"
  have run: "exec_command (example_cfg ''manual'') mem_service (example_store queue_items) ?cmd (example_world queue_items)
    = (fst (executed ?cmd), snd (executed ?cmd))" by (simp add: executed_def)
  have get: "Get (example_store queue_items) (Desired ''c'' ''g'' ''x'') = Some (desired_json ''active'' True)" by code_simp
  show ?thesis
    using promote_drains_owner [OF mem.etcd_kv_axioms mem_reliable(1) example_clock store_wf_example _ _ _ _ _ _ _ run, of "''x''" "''g''" 1]
    by (simp add: queue_entries get desired_doc_def left_in_def)
qed

section \<open>Demotion\<close>

text \<open>A group that may take over: managed, passive and healthy, with a readable priority.\<close>

definition can_replace :: "Config \<Rightarrow> StateStore \<Rightarrow> string \<Rightarrow> string \<Rightarrow> string \<Rightarrow> int \<Rightarrow> bool" where
  "can_replace cfg st cg demoted g q \<longleftrightarrow> g \<noteq> demoted
     \<and> (\<exists>d. Option.bind (Get st (Desired (cluster_id cfg) cg g)) unmarshal_desired = Some d \<and> d_Managed d)
     \<and> (\<exists>a. Option.bind (Get st (Actual (cluster_id cfg) cg g)) unmarshal_actual = Some a \<and> a_State a = ActualPassive)
     \<and> (\<exists>h. Option.bind (Get st (Health (cluster_id cfg) cg g)) unmarshal_health = Some h \<and> h_Status h = HealthOK)
     \<and> (\<exists>c. stored_mgconfig st (cluster_id cfg) cg g = Some c \<and> mgc_Priority c = q)"

lemma replacement_priority_iff: "replacement_priority cfg st cg demoted g = Some q \<longleftrightarrow> can_replace cfg st cg demoted g q"
  unfolding replacement_priority_def can_replace_def stored_mgconfig_def
  by (auto split: bind_splits if_splits)

lemma best_replacement_None: "best_replacement f best mgs = None \<longleftrightarrow> best = None \<and> (\<forall>g \<in> set mgs. f g = None)"
  by (induction f best mgs rule: best_replacement.induct) (auto split: option.splits)

lemma best_replacement_Some:
  "best_replacement f best mgs = Some (b, q) \<Longrightarrow>
     (best = Some (b, q) \<or> b \<in> set mgs \<and> f b = Some q)
     \<and> (\<forall>g \<in> set mgs. \<forall>p. f g = Some p \<longrightarrow> q \<le> p) \<and> (\<forall>x. best = Some x \<longrightarrow> q \<le> snd x)"
proof (induction f best mgs rule: best_replacement.induct)
  case (2 f best mg mgs)
  then show ?case by (cases "f mg"; cases best) (auto split: if_splits)
qed simp

lemma execDemote_active:
  assumes "Option.bind (Get st (Desired (cluster_id cfg) cg mg)) unmarshal_desired = Some d" and "d_State d \<noteq> DesiredPassive"
    and "c_ManagementGroup cmd = mg" and "c_ClusterGroup cmd = cg"
    and "stored_mgconfig st (cluster_id cfg) cg mg = Some doc"
    and "g \<in> set (ListChildren st (ClusterGroup (cluster_id cfg) cg))" and "can_replace cfg st cg mg g p"
  obtains best q where "best \<in> set (ListChildren st (ClusterGroup (cluster_id cfg) cg))" "can_replace cfg st cg mg best q"
    "\<forall>g \<in> set (ListChildren st (ClusterGroup (cluster_id cfg) cg)). \<forall>p. can_replace cfg st cg mg g p \<longrightarrow> q \<le> p"
    "execDemote cfg svc st cmd w =
       wrap_error (writing_priority best) (cc_writePriority cfg svc st cg best (mgc_Priority doc) w) (\<lambda>w.
       wrap_error (writing_priority mg) (cc_writePriority cfg svc st cg mg q w) (\<lambda>w.
       wrap_error (writing_desired mg) (writeDesired cfg svc cg mg DesiredPassive True w) (\<lambda>w.
       wrap_error (writing_desired best) (writeDesired cfg svc cg best DesiredActive True w) (\<lambda>w. (None, w)))))"
proof -
  let ?mgs = "ListChildren st (ClusterGroup (cluster_id cfg) cg)"
  obtain best q where best: "best_replacement (replacement_priority cfg st cg mg) None ?mgs = Some (best, q)"
    using best_replacement_None [of "replacement_priority cfg st cg mg" None ?mgs] assms(6,7)
    unfolding replacement_priority_iff [symmetric] by fastforce
  then have "best \<in> set ?mgs" "can_replace cfg st cg mg best q"
    "\<forall>g \<in> set ?mgs. \<forall>p. can_replace cfg st cg mg g p \<longrightarrow> q \<le> p"
    using best_replacement_Some [OF best] unfolding replacement_priority_iff [symmetric] by auto
  moreover obtain raw raw' where "Get st (Desired (cluster_id cfg) cg mg) = Some raw" "unmarshal_desired raw = Some d"
    "Get st (ManagementGroupConfig (cluster_id cfg) cg mg) = Some raw'" "unmarshal_mgconfig raw' = Some doc"
    using assms(1,5) by (auto simp: stored_mgconfig_def split: bind_splits)
  ultimately show ?thesis
    using that [of best q] best assms(2-4) by (simp add: execDemote_def Let_def)
qed

text \<open>
  C23: what a demotion of an active group does. If some group may take over, the managed passive
  healthy one with the smallest priority number is chosen; its priority and the one of the
  demoted group are exchanged, the demoted group is written passive and the replacement is
  written active in the same command, whatever the demoted group is still running. No other
  key changes.
\<close>

theorem demote_effect:
  assumes "etcd_kv svc kv" and "puts_succeed svc" and "clock_ok w" and "names_fit cfg st cmd"
    and "c_Type cmd = CommandTypeDemote" and "c_ManagementGroup cmd = mg" and "c_ClusterGroup cmd = cg"
    and "Option.bind (Get st (Desired (cluster_id cfg) cg mg)) unmarshal_desired = Some d" and "d_State d \<noteq> DesiredPassive"
    and "stored_mgconfig st (cluster_id cfg) cg mg = Some doc"
    and "\<exists>g \<in> set (ListChildren st (ClusterGroup (cluster_id cfg) cg)). \<exists>p. can_replace cfg st cg mg g p"
    and "exec_command cfg svc st cmd w = (err, w')" and "m = kv (service_state w)" and "m' = kv (service_state w')"
  shows "err = None \<and> (\<exists>best doc'. best \<in> set (ListChildren st (ClusterGroup (cluster_id cfg) cg))
    \<and> stored_mgconfig st (cluster_id cfg) cg best = Some doc' \<and> can_replace cfg st cg mg best (mgc_Priority doc')
    \<and> (\<forall>g \<in> set (ListChildren st (ClusterGroup (cluster_id cfg) cg)). \<forall>p. can_replace cfg st cg mg g p \<longrightarrow> mgc_Priority doc' \<le> p)
    \<and> repriced (m' (ManagementGroupConfig (cluster_id cfg) cg best)) doc' (mgc_Priority doc)
    \<and> repriced (m' (ManagementGroupConfig (cluster_id cfg) cg mg)) doc (mgc_Priority doc')
    \<and> desired_doc (m' (Desired (cluster_id cfg) cg mg)) DesiredPassive True
    \<and> desired_doc (m' (Desired (cluster_id cfg) cg best)) DesiredActive True
    \<and> (\<forall>k. k \<notin> {ManagementGroupConfig (cluster_id cfg) cg mg, ManagementGroupConfig (cluster_id cfg) cg best,
              Desired (cluster_id cfg) cg mg, Desired (cluster_id cfg) cg best} \<longrightarrow> m' k = m k))"
proof -
  let ?conf = "ManagementGroupConfig (cluster_id cfg) cg" and ?des = "Desired (cluster_id cfg) cg"
  obtain g p where g: "g \<in> set (ListChildren st (ClusterGroup (cluster_id cfg) cg))" "can_replace cfg st cg mg g p"
    using assms(11) by blast
  obtain best q where best: "best \<in> set (ListChildren st (ClusterGroup (cluster_id cfg) cg))" "can_replace cfg st cg mg best q"
    "\<forall>g \<in> set (ListChildren st (ClusterGroup (cluster_id cfg) cg)). \<forall>p. can_replace cfg st cg mg g p \<longrightarrow> q \<le> p"
    and exec: "execDemote cfg svc st cmd w =
       wrap_error (writing_priority best) (cc_writePriority cfg svc st cg best (mgc_Priority doc) w) (\<lambda>w.
       wrap_error (writing_priority mg) (cc_writePriority cfg svc st cg mg q w) (\<lambda>w.
       wrap_error (writing_desired mg) (writeDesired cfg svc cg mg DesiredPassive True w) (\<lambda>w.
       wrap_error (writing_desired best) (writeDesired cfg svc cg best DesiredActive True w) (\<lambda>w. (None, w)))))"
    by (rule execDemote_active [OF assms(8,9,6,7,10) g])
  obtain doc' where doc': "stored_mgconfig st (cluster_id cfg) cg best = Some doc'" "mgc_Priority doc' = q"
    using best(2) by (auto simp: can_replace_def)
  have "best \<noteq> mg" using best(2) by (simp add: can_replace_def)
  have names: "id_ok (cluster_id cfg)" "group_ok cg" "member_ok mg" "member_ok best"
    using assms(4,6,7) best(1) by (auto simp: names_fit_def command_groups_def)
  note keys = group_keys_distinct [OF names] group_keys_distinct [OF names(1,2,4,3)]
    group_keys_distinct(3) [OF names(1-3,3)] group_keys_distinct(3) [OF names(1,2,4,4)]
  have ne: "?conf best \<noteq> ?conf mg" using keys \<open>best \<noteq> mg\<close> by blast
  obtain w1 where w1: "clock_ok w1" "swapped m (kv (service_state w1)) (?conf best) doc' (?conf mg) doc"
    "execDemote cfg svc st cmd w =
       wrap_error (writing_desired mg) (writeDesired cfg svc cg mg DesiredPassive True w1) (\<lambda>w.
       wrap_error (writing_desired best) (writeDesired cfg svc cg best DesiredActive True w) (\<lambda>w. (None, w)))"
    unfolding exec assms(13)
    by (rule etcd_kv.swap_done [OF assms(1-3) doc'(1) assms(10) ne, unfolded doc'(2)]) blast
  obtain b2 w2 where w2: "writeDesired cfg svc cg mg DesiredPassive True w1 = (None, w2)" "clock_ok w2"
    "kv (service_state w2) = (kv (service_state w1))(?des mg \<mapsto> b2)" "desired_doc (Some b2) DesiredPassive True"
    using etcd_kv.writeDesired_done [OF assms(1,2) w1(1)] by metis
  obtain b3 w3 where w3: "writeDesired cfg svc cg best DesiredActive True w2 = (None, w3)"
    "kv (service_state w3) = (kv (service_state w2))(?des best \<mapsto> b3)" "desired_doc (Some b3) DesiredActive True"
    using etcd_kv.writeDesired_done [OF assms(1,2) w2(2)] by metis
  have "err = None" "w' = w3" using assms(5,12) w1(3) w2(1) w3(1) by (simp_all add: exec_command_def)
  then have m': "m' = (kv (service_state w1))(?des mg \<mapsto> b2, ?des best \<mapsto> b3)" using w2(3) w3(2) assms(14) by simp
  have at: "repriced (m' (?conf best)) doc' (mgc_Priority doc)" "repriced (m' (?conf mg)) doc (mgc_Priority doc')"
    "desired_doc (m' (?des mg)) DesiredPassive True" "desired_doc (m' (?des best)) DesiredActive True"
    using w1(2) keys w2(4) w3(3) \<open>best \<noteq> mg\<close> by (simp_all add: m' swapped_def)
  have rest: "m' k = m k" if "k \<notin> {?conf mg, ?conf best, ?des mg, ?des best}" for k
    using that w1(2) by (simp add: m' swapped_def)
  show ?thesis
    using \<open>err = None\<close> best doc' at rest by blast
qed

text \<open>The group \<open>x\<close> still runs while \<open>y\<close> is written active.\<close>

definition demote_items :: "(entity \<times> bytes) list" where
  "demote_items = pair_items ''active'' True ''passive'' True @ [(EActual ''g'' ''x'', actual_json ''active''),
     (EActual ''g'' ''y'', actual_json ''passive''), (EHealth ''g'' ''y'', health_json ''ok'')]"

definition demoted :: "error option \<times> mem_etcd world" where
  "demoted = exec_command (example_cfg ''manual'') mem_service (example_store demote_items)
     (pending_command ''1'' ''demote'' ''x'') (example_world demote_items)"

lemma demote_gets:
  "Get (example_store demote_items) (Desired ''c'' ''g'' ''x'') = Some (desired_json ''active'' True)"
  "Get (example_store demote_items) (Desired ''c'' ''g'' ''y'') = Some (desired_json ''passive'' True)"
  "Get (example_store demote_items) (ManagementGroupConfig ''c'' ''g'' ''x'') = Some (priority_json 1)"
  "Get (example_store demote_items) (ManagementGroupConfig ''c'' ''g'' ''y'') = Some (priority_json 2)"
  "Get (example_store demote_items) (Actual ''c'' ''g'' ''y'') = Some (actual_json ''passive'')"
  "Get (example_store demote_items) (Health ''c'' ''g'' ''y'') = Some (health_json ''ok'')"
  "ListChildren (example_store demote_items) (ClusterGroup ''c'' ''g'') = [''x'', ''y'']"
  by code_simp+

theorem demote_effect_witness:
  "desired_doc (left_in demoted (Desired ''c'' ''g'' ''x'')) DesiredPassive True
   \<and> desired_doc (left_in demoted (Desired ''c'' ''g'' ''y'')) DesiredActive True"
proof -
  let ?cmd = "pending_command ''1'' ''demote'' ''x''" and ?cfg = "example_cfg ''manual''" and ?st = "example_store demote_items"
  have run: "exec_command ?cfg mem_service ?st ?cmd (example_world demote_items) = (fst demoted, snd demoted)"
    by (simp add: demoted_def)
  have fits: "names_fit ?cfg ?st ?cmd"
    by (simp add: names_fit_def command_groups_def demote_gets entity_ok_defs)
  have repl: "can_replace ?cfg ?st ''g'' ''x'' g p \<longleftrightarrow> g = ''y'' \<and> p = 2" if "g \<in> {''x'', ''y''}" for g p
    using that by (auto simp: can_replace_def demote_gets stored_mgconfig_def int64_def actual_json_def health_json_def
        unmarshal_actual_def unmarshal_health_def read_defs same_field_def lower_def)
  show ?thesis
    using demote_effect [OF mem.etcd_kv_axioms mem_reliable(1) example_clock fits _ _ _ _ _ _ _ run refl refl,
        of "''x''" "''g''" "\<lparr>d_State = ''active'', d_Managed = True, d_UpdatedAt = zero_time, d_Details = []\<rparr>"
        "\<lparr>mgc_Priority = 1, mgc_Roles = [], mgc_UpdatedAt = zero_time\<rparr>"]
    by (auto simp: demote_gets stored_mgconfig_def int64_def repl left_in_def)
qed

section \<open>Failed commands\<close>

text \<open>The outcome is an error with the world untouched, or success.\<close>

definition all_or_nothing :: "'e world \<Rightarrow> error option \<times> 'e world \<Rightarrow> bool" where
  "all_or_nothing w r \<longleftrightarrow> fst r = None \<or> snd r = w"

lemma all_or_nothing_simps [simp]:
  "all_or_nothing w (x, w)" "all_or_nothing w (None, v)"
  by (simp_all add: all_or_nothing_def)

text \<open>Reliable writes: success, and the clock still fits.\<close>

definition succeeds :: "error option \<times> 'e world \<Rightarrow> bool" where
  "succeeds r \<longleftrightarrow> fst r = None \<and> clock_ok (snd r)"

lemma succeeds_wrap: "succeeds r \<Longrightarrow> (\<And>v. clock_ok v \<Longrightarrow> succeeds (k v)) \<Longrightarrow> succeeds (wrap_error m r k)"
  by (cases r) (auto simp: succeeds_def wrap_error_def split: option.splits)

lemma succeeds_all_or_nothing: "succeeds r \<Longrightarrow> all_or_nothing w r"
  by (simp add: succeeds_def all_or_nothing_def)

context etcd_kv
begin

lemma succeeds_writeDesired: "puts_succeed svc \<Longrightarrow> clock_ok w \<Longrightarrow> succeeds (writeDesired cfg svc cg mg s m w)"
  by (rule writeDesired_done [of w cfg cg mg s m]) (auto simp: succeeds_def)

lemma succeeds_writePriority:
  "puts_succeed svc \<Longrightarrow> clock_ok w \<Longrightarrow> stored_mgconfig st (cluster_id cfg) cg mg = Some doc \<Longrightarrow> int64 p \<Longrightarrow>
     succeeds (cc_writePriority cfg svc st cg mg p w)"
  by (rule cc_writePriority_done [of w st cfg cg mg doc p]) (auto simp: succeeds_def)

lemma execPromote_succeeds:
  assumes "puts_succeed svc" and "clock_ok w" and "store_wf st"
    and target: "(c_ManagementGroup cmd, p) \<in> set (promote_entries cfg st (c_ClusterGroup cmd))" and "0 \<le> p"
  shows "succeeds (execPromote cfg svc st cmd w)"
proof -
  let ?mg = "c_ManagementGroup cmd" and ?cg = "c_ClusterGroup cmd"
  have act: "succeeds (activateTarget cfg svc st ?cg ?mg v)" if "clock_ok v" for v :: "'e world"
    unfolding activateTarget_eq by (rule succeeds_writeDesired [OF assms(1) that])
  show ?thesis
  proof (cases "\<exists>e \<in> set (promote_entries cfg st ?cg). snd e < p")
    case False
    then show ?thesis
      using execPromote_top [OF assms(3) target assms(5), of svc w] act [OF assms(2)] by (metis not_le_imp_less)
  next
    case True
    then obtain x where x: "x \<in> set (promote_entries cfg st ?cg)" "snd x < p" by blast
    obtain top q where top: "(top, q) \<in> set (promote_entries cfg st ?cg)" and exec: "execPromote cfg svc st cmd w =
       wrap_error (writing_priority ?mg) (cc_writePriority cfg svc st ?cg ?mg q w) (\<lambda>w.
       wrap_error (writing_priority top) (cc_writePriority cfg svc st ?cg top p w) (\<lambda>w.
       wrap_error (activating_target ?mg) (activateTarget cfg svc st ?cg ?mg w) (\<lambda>w. (None, w))))"
      by (rule execPromote_swap [OF assms(3) target assms(5) x, of svc w])
    obtain doc doc' where docs: "stored_mgconfig st (cluster_id cfg) ?cg ?mg = Some doc" "mgc_Priority doc = p"
      "stored_mgconfig st (cluster_id cfg) ?cg top = Some doc'" "mgc_Priority doc' = q"
      using target top by (auto simp: promote_entries_iff)
    have int: "int64 p" "int64 q" using docs stored_priority_int64 by blast+
    show ?thesis
      unfolding exec
      by (intro succeeds_wrap succeeds_writePriority [OF assms(1) _ docs(1) int(2)]
          succeeds_writePriority [OF assms(1) _ docs(3) int(1)] act assms(2)) (auto simp: succeeds_def)
  qed
qed

lemma execPromote_atomic:
  assumes "puts_succeed svc" and "clock_ok w" and "store_wf st"
  shows "all_or_nothing w (execPromote cfg svc st cmd w)"
proof (cases "find (\<lambda>e. fst e = c_ManagementGroup cmd) (promote_entries cfg st (c_ClusterGroup cmd))")
  case None
  then show ?thesis by (simp add: execPromote_def)
next
  case (Some e)
  show ?thesis
  proof (cases "0 \<le> snd e")
    case True
    then show ?thesis
      using find_SomeD [OF Some] execPromote_succeeds [OF assms, of cmd "snd e" cfg] succeeds_all_or_nothing
      by (metis prod.collapse)
  qed (use Some in \<open>simp add: execPromote_def\<close>)
qed

lemma execDemote_succeeds:
  assumes "puts_succeed svc" and "clock_ok w"
    and "stored_mgconfig st (cluster_id cfg) (c_ClusterGroup cmd) (c_ManagementGroup cmd) = Some doc"
    and "best_replacement (replacement_priority cfg st (c_ClusterGroup cmd) (c_ManagementGroup cmd)) None
      (ListChildren st (ClusterGroup (cluster_id cfg) (c_ClusterGroup cmd))) = Some (best, q)"
  shows "succeeds (wrap_error (writing_priority best)
         (cc_writePriority cfg svc st (c_ClusterGroup cmd) best (mgc_Priority doc) w) (\<lambda>w.
       wrap_error (writing_priority (c_ManagementGroup cmd))
         (cc_writePriority cfg svc st (c_ClusterGroup cmd) (c_ManagementGroup cmd) q w) (\<lambda>w.
       wrap_error (writing_desired (c_ManagementGroup cmd))
         (writeDesired cfg svc (c_ClusterGroup cmd) (c_ManagementGroup cmd) DesiredPassive True w) (\<lambda>w.
       wrap_error (writing_desired best)
         (writeDesired cfg svc (c_ClusterGroup cmd) best DesiredActive True w) (\<lambda>w. (None, w))))))"
proof -
  have "can_replace cfg st (c_ClusterGroup cmd) (c_ManagementGroup cmd) best q"
    using best_replacement_Some [OF assms(4)] by (simp add: replacement_priority_iff)
  then obtain doc' where doc': "stored_mgconfig st (cluster_id cfg) (c_ClusterGroup cmd) best = Some doc'"
    "mgc_Priority doc' = q" by (auto simp: can_replace_def)
  have int: "int64 (mgc_Priority doc)" "int64 q" using assms(3) doc' stored_priority_int64 by blast+
  show ?thesis
    by (intro succeeds_wrap succeeds_writePriority [OF assms(1) _ doc'(1) int(1)]
        succeeds_writePriority [OF assms(1) _ assms(3) int(2)] succeeds_writeDesired [OF assms(1)] assms(2))
      (auto simp: succeeds_def)
qed

lemma execDemote_atomic:
  assumes "puts_succeed svc" and "clock_ok w"
  shows "all_or_nothing w (execDemote cfg svc st cmd w)"
  unfolding execDemote_def Let_def
  by (auto simp: stored_mgconfig_def simp del: DesiredPassive_def DesiredActive_def split: option.splits
      intro!: succeeds_writeDesired [OF assms, THEN succeeds_all_or_nothing]
        execDemote_succeeds [OF assms, THEN succeeds_all_or_nothing])

end



section \<open>Commands on one document\<close>

text \<open>
  The other commands. Disabling and enabling a group keep its stored desired state (passive
  when there is none) and change only whether it is managed; demoting a passive group rewrites it
  passive and managed; \<^verbatim>\<open>force_passive\<close> makes an unmanaged group managed and passive and is refused
  for a managed one, whatever its desired state. Each changes the desired document of its group
  and no other key.
\<close>

theorem one_document_commands:
  assumes "etcd_kv svc kv" and "puts_succeed svc" and "clock_ok w"
    and "exec_command cfg svc st cmd w = (err, w')"
    and "key = Desired (cluster_id cfg) (c_ClusterGroup cmd) (c_ManagementGroup cmd)"
    and "stored = Option.bind (Get st key) unmarshal_desired" and "m' = kv (service_state w')"
    and "state = (case stored of None \<Rightarrow> DesiredPassive | Some d \<Rightarrow> d_State d)"
  shows "(c_Type cmd = CommandTypeDisable \<longrightarrow> err = None \<and> desired_doc (m' key) state False)
    \<and> (c_Type cmd = CommandTypeEnable \<longrightarrow> err = None \<and> desired_doc (m' key) state True)
    \<and> (c_Type cmd = CommandTypeForcePassive \<longrightarrow> (\<forall>d. stored = Some d \<longrightarrow>
          (if d_Managed d then err \<noteq> None else err = None \<and> desired_doc (m' key) DesiredPassive True)))
    \<and> (c_Type cmd = CommandTypeDemote \<longrightarrow> (\<forall>d. stored = Some d \<longrightarrow> d_State d = DesiredPassive \<longrightarrow>
          err = None \<and> desired_doc (m' key) DesiredPassive True \<and> (\<forall>k. k \<noteq> key \<longrightarrow> m' k = kv (service_state w) k)))
    \<and> (c_Type cmd \<in> {CommandTypeDisable, CommandTypeEnable, CommandTypeForcePassive} \<longrightarrow>
          (\<forall>k. k \<noteq> key \<longrightarrow> m' k = kv (service_state w) k))"
proof -
  let ?cg = "c_ClusterGroup cmd" and ?mg = "c_ManagementGroup cmd"
  have written: "err = None \<and> desired_doc (m' key) s b \<and> (\<forall>k. k \<noteq> key \<longrightarrow> m' k = kv (service_state w) k)"
    if "exec_command cfg svc st cmd w = writeDesired cfg svc ?cg ?mg s b w" for s b
    by (rule etcd_kv.writeDesired_done [OF assms(1-3), of cfg ?cg ?mg s b])
      (use that assms(4,5,7) in simp)
  have cur: "currentState cfg st ?cg ?mg = state"
    unfolding assms(5,6,8) currentState_def by (auto split: option.splits bind_splits)
  have disable: "exec_command cfg svc st cmd w = writeDesired cfg svc ?cg ?mg state False w"
    if "c_Type cmd = CommandTypeDisable" using that cur by (simp add: exec_command_def execDisable_def)
  have enable: "exec_command cfg svc st cmd w = writeDesired cfg svc ?cg ?mg state True w"
    if "c_Type cmd = CommandTypeEnable" using that cur by (simp add: exec_command_def execEnable_def)
  have force: "\<exists>x. exec_command cfg svc st cmd w = (if \<exists>d. stored = Some d \<and> \<not> d_Managed d
      then writeDesired cfg svc ?cg ?mg DesiredPassive True w else (Some x, w))"
    if "c_Type cmd = CommandTypeForcePassive"
    using that unfolding assms(5,6)
    by (auto simp: exec_command_def execForcePassive_def Let_def split: option.splits bind_splits)
  have demote: "exec_command cfg svc st cmd w = writeDesired cfg svc ?cg ?mg DesiredPassive True w"
    if "c_Type cmd = CommandTypeDemote" "stored = Some d" "d_State d = DesiredPassive" for d
    using that unfolding assms(5,6) by (auto simp: exec_command_def execDemote_def split: option.splits bind_splits)
  have refuse: "err \<noteq> None \<and> (\<forall>k. m' k = kv (service_state w) k)"
    if "exec_command cfg svc st cmd w = (Some x, w)" for x
    using that assms(4,7) by simp
  show ?thesis
  proof (intro conjI impI)
    assume "c_Type cmd = CommandTypeForcePassive"
    then show "\<forall>d. stored = Some d \<longrightarrow>
          (if d_Managed d then err \<noteq> None else err = None \<and> desired_doc (m' key) DesiredPassive True)"
      using force written refuse by (metis option.inject)
  next
    assume "c_Type cmd \<in> {CommandTypeDisable, CommandTypeEnable, CommandTypeForcePassive}"
    then show "\<forall>k. k \<noteq> key \<longrightarrow> m' k = kv (service_state w) k"
      using force written refuse disable enable by (metis (full_types) insertE singletonD)
  qed (use written disable enable demote in blast)+
qed

theorem one_document_commands_witness:
  "desired_doc (left_in (executed (pending_command ''1'' ''disable'' ''x'')) (Desired ''c'' ''g'' ''x'')) DesiredActive False"
proof -
  let ?cmd = "pending_command ''1'' ''disable'' ''x''"
  have run: "exec_command (example_cfg ''manual'') mem_service (example_store queue_items) ?cmd (example_world queue_items)
    = (fst (executed ?cmd), snd (executed ?cmd))" by (simp add: executed_def)
  have get: "Get (example_store queue_items) (Desired ''c'' ''g'' ''x'') = Some (desired_json ''active'' True)" by code_simp
  show ?thesis
    using one_document_commands [OF mem.etcd_kv_axioms mem_reliable(1) example_clock run refl refl refl refl]
    by (simp add: get left_in_def)
qed

end
