(* ===== verification/Api.thy ===== *)
theory Api
  imports CommandEffects
begin

text \<open>
  \<^verbatim>\<open>internal/api/server.go\<close>: the HTTP interface. A request carries the method, the
  \<^verbatim>\<open>Authorization\<close> header (empty when absent) and the first JSON value of the body; a response is
  a status, headers and a JSON body. \<^verbatim>\<open>internal/runtime/putter.go\<close> gives it the etcd client.
  The order in which the runtime iterates a Go map is an argument of the handlers that do.
\<close>

section \<open>Data\<close>

record Server =
  addr :: string
  clusterID :: string
  token :: string

record http_request =
  r_Method :: string
  r_Authorization :: string
  r_Body :: bytes

record http_response =
  r_Status :: int
  r_Headers :: "(string \<times> string) list"
  r_JSON :: "json option"

abbreviation StatusAccepted :: int where "StatusAccepted \<equiv> 202"
abbreviation StatusBadRequest :: int where "StatusBadRequest \<equiv> 400"
abbreviation StatusUnauthorized :: int where "StatusUnauthorized \<equiv> 401"
abbreviation StatusMethodNotAllowed :: int where "StatusMethodNotAllowed \<equiv> 405"
abbreviation StatusConflict :: int where "StatusConflict \<equiv> 409"
abbreviation StatusInternalServerError :: int where "StatusInternalServerError \<equiv> 500"

definition writeJSON :: "int \<Rightarrow> json \<Rightarrow> http_response" where
  "writeJSON code v = \<lparr>r_Status = code, r_Headers = [(''Content-Type'', ''application/json'')], r_JSON = Some v\<rparr>"

definition bare :: "int \<Rightarrow> http_response" where
  "bare code = \<lparr>r_Status = code, r_Headers = [], r_JSON = None\<rparr>"

definition error_json :: "string \<Rightarrow> json" where
  "error_json msg = JObj [(''error'', JStr msg)]"

text \<open>The interface \<open>Putter\<close> and its instance.\<close>

type_synonym 'e Putter = "string \<Rightarrow> bytes \<Rightarrow> 'e world \<Rightarrow> error option \<times> 'e world"

definition apiPutter_Put :: "'e etcd_service \<Rightarrow> 'e Putter" where
  "apiPutter_Put svc key v w = Put svc key v 0 w"

section \<open>Authentication\<close>

definition requireAuth :: "Server \<Rightarrow> (http_request \<Rightarrow> 'w \<Rightarrow> http_response \<times> 'w) \<Rightarrow> http_request \<Rightarrow> 'w \<Rightarrow> http_response \<times> 'w" where
  "requireAuth s next r w =
     (if token s = [] then next r w
      else if \<not> has_prefix ''Bearer '' (r_Authorization r) \<or> trim_prefix ''Bearer '' (r_Authorization r) \<noteq> token s
      then (\<lparr>r_Status = StatusUnauthorized, r_Headers = [(''WWW-Authenticate'', ''Bearer'')], r_JSON = None\<rparr>, w)
      else next r w)"

section \<open>Validation\<close>

text \<open>Each check answers (0, "") or the status and the message of the refusal.\<close>

definition group_unknown :: "string \<Rightarrow> string" where
  "group_unknown cg = ''cluster group '' @ quoted cg @ '' not found or has no management groups''"

definition member_unknown :: "string \<Rightarrow> string \<Rightarrow> string" where
  "member_unknown mg cg = ''management group '' @ quoted mg @ '' not found in cluster group '' @ quoted cg"

text \<open>The managed flag and the actual state of a group; a missing or unreadable document reads as zero.\<close>

definition mgInfo :: "Server \<Rightarrow> StateStore \<Rightarrow> string \<Rightarrow> string \<Rightarrow> bool \<times> ActualState" where
  "mgInfo s st cg mg =
     ((case Get st (Desired (clusterID s) cg mg) of None \<Rightarrow> False
       | Some raw \<Rightarrow> (case unmarshal_desired raw of None \<Rightarrow> False | Some doc \<Rightarrow> d_Managed doc)),
      (case Get st (Actual (clusterID s) cg mg) of None \<Rightarrow> []
       | Some raw \<Rightarrow> (case unmarshal_actual raw of None \<Rightarrow> [] | Some doc \<Rightarrow> a_State doc)))"

definition unmanaged_sibling :: "string \<Rightarrow> string \<Rightarrow> ActualState \<Rightarrow> string" where
  "unmanaged_sibling target mg actual = ''cannot promote '' @ quoted target @ '': management group '' @ quoted mg
     @ '' is unmanaged (managed=false) with actual='' @ actual @ '' '' @ [CHR 0xE2, CHR 0x80, CHR 0x94]
     @ '' stop it manually or run force_passive first''"

definition validatePromote :: "Server \<Rightarrow> ((string \<times> bool \<times> ActualState) list \<Rightarrow> (string \<times> bool \<times> ActualState) list) \<Rightarrow>
    StateStore \<Rightarrow> string \<Rightarrow> string \<Rightarrow> int \<times> string" where
  "validatePromote s ord st cg target =
     (let children = ListChildren st (ClusterGroup (clusterID s) cg);
          infos = go_map (map (\<lambda>mg. (mg, mgInfo s st cg mg)) children)
      in if children = [] then (StatusBadRequest, group_unknown cg)
         else if target \<notin> set children then (StatusBadRequest, member_unknown target cg)
         else (case find (\<lambda>(mg, managed, actual). mg \<noteq> target \<and> \<not> managed
                  \<and> (actual = ActualActive \<or> actual = ActualStarting)) (ord infos) of
                 Some (mg, managed, actual) \<Rightarrow> (StatusConflict, unmanaged_sibling target mg actual)
               | None \<Rightarrow> (0, [])))"

definition transitioning :: "string \<Rightarrow> string \<Rightarrow> ActualState \<Rightarrow> string" where
  "transitioning target mg actual = ''cannot demote '' @ quoted target @ '': management group '' @ quoted mg
     @ '' has actual='' @ actual @ '' (cluster is transitioning)''"

definition no_candidate :: "string \<Rightarrow> string \<Rightarrow> string" where
  "no_candidate target cg = ''cannot demote '' @ quoted target
     @ '': no available passive managed group with health=ok in cluster group '' @ quoted cg"

text \<open>The loop over the groups: the answer of an early return, or whether a candidate was seen.\<close>

definition candidate :: "Server \<Rightarrow> StateStore \<Rightarrow> string \<Rightarrow> string \<Rightarrow> string \<Rightarrow> ActualState \<Rightarrow> bool" where
  "candidate s st cg target mg actual =
     (if mg = target then False
      else case Get st (Desired (clusterID s) cg mg) of
        None \<Rightarrow> False
      | Some desRaw \<Rightarrow>
          if actual \<noteq> ActualPassive then False
          else (case unmarshal_desired desRaw of
            None \<Rightarrow> False
          | Some des \<Rightarrow>
              if \<not> d_Managed des then False
              else (case Get st (Health (clusterID s) cg mg) of
                None \<Rightarrow> False
              | Some healthRaw \<Rightarrow>
                  (case unmarshal_health healthRaw of None \<Rightarrow> False | Some h \<Rightarrow> h_Status h = HealthOK))))"

fun demote_scan :: "Server \<Rightarrow> StateStore \<Rightarrow> string \<Rightarrow> string \<Rightarrow> bool \<Rightarrow> string list \<Rightarrow> (int \<times> string) + bool" where
  "demote_scan s st cg target hasCandidate [] = Inr hasCandidate"
| "demote_scan s st cg target hasCandidate (mg # mgs) =
     (let actual = snd (mgInfo s st cg mg)
      in if actual = ActualStarting \<or> actual = ActualStopping
         then Inl (StatusConflict, transitioning target mg actual)
         else demote_scan s st cg target (if candidate s st cg target mg actual then True else hasCandidate) mgs)"

definition validateDemote :: "Server \<Rightarrow> StateStore \<Rightarrow> string \<Rightarrow> string \<Rightarrow> int \<times> string" where
  "validateDemote s st cg target =
     (let children = ListChildren st (ClusterGroup (clusterID s) cg);
          targetDesired = (case Get st (Desired (clusterID s) cg target) of None \<Rightarrow> []
            | Some raw \<Rightarrow> (case unmarshal_desired raw of None \<Rightarrow> [] | Some doc \<Rightarrow> d_State doc))
      in if children = [] then (StatusBadRequest, group_unknown cg)
         else if target \<notin> set children then (StatusBadRequest, member_unknown target cg)
         else if targetDesired = DesiredPassive then (0, [])
         else (case demote_scan s st cg target False children of
                 Inl refusal \<Rightarrow> refusal
               | Inr hasCandidate \<Rightarrow> if \<not> hasCandidate then (StatusConflict, no_candidate target cg) else (0, [])))"

definition validateEnable :: "Server \<Rightarrow> StateStore \<Rightarrow> string \<Rightarrow> string \<Rightarrow> int \<times> string" where
  "validateEnable s st cg mg =
     (case Get st (Desired (clusterID s) cg mg) of
        None \<Rightarrow> (StatusBadRequest, member_unknown mg cg)
      | Some raw \<Rightarrow>
          (case unmarshal_desired raw of
             None \<Rightarrow> (StatusInternalServerError, ''failed to read desired state'')
           | Some doc \<Rightarrow>
               if d_Managed doc
               then (StatusConflict, ''group '' @ quoted mg @ '' is already under normal management (managed=true)'')
               else (0, [])))"

definition validateForcePassive :: "Server \<Rightarrow> StateStore \<Rightarrow> string \<Rightarrow> string \<Rightarrow> int \<times> string" where
  "validateForcePassive s st cg mg =
     (case Get st (Desired (clusterID s) cg mg) of
        None \<Rightarrow> (StatusBadRequest, member_unknown mg cg)
      | Some raw \<Rightarrow>
          (case unmarshal_desired raw of
             None \<Rightarrow> (StatusInternalServerError, ''failed to read desired state'')
           | Some doc \<Rightarrow>
               if d_Managed doc
               then (StatusConflict, ''force_passive requires managed=false, group '' @ quoted mg @ '' is under normal management'')
               else if d_State doc \<noteq> DesiredActive
               then (StatusConflict, ''force_passive requires desired=active, got desired='' @ d_State doc)
               else (0, [])))"

section \<open>Commands\<close>

text \<open>\<^verbatim>\<open>Format("20060102T150405.000000000")\<close>, for the years 0 to 9999.\<close>

definition command_id :: "int \<Rightarrow> string" where
  "command_id t =
     (let z = t div ns_per_day; sod = (t mod ns_per_day) div ns_per_s; ns = t mod ns_per_s;
          y = year_of z; (m, d) = month_day 11 (leap y) 1 (z - days_before_year y)
      in pad 4 y @ pad 2 m @ pad 2 d @ CHR ''T'' # pad 2 (sod div 3600) @ pad 2 (sod mod 3600 div 60)
         @ pad 2 (sod mod 60) @ CHR ''.'' # pad 9 ns)"

record command_request =
  q_Type :: string
  q_ClusterGroup :: string
  q_ManagementGroup :: string

definition decode_request :: "bytes \<Rightarrow> command_request option" where
  "decode_request = unmarshal (\<lambda>kvs.
     do { t \<leftarrow> read_field as_string [] ''type'' kvs; cg \<leftarrow> read_field as_string [] ''cluster_group'' kvs;
          mg \<leftarrow> read_field as_string [] ''management_group'' kvs;
          Some \<lparr>q_Type = t, q_ClusterGroup = cg, q_ManagementGroup = mg\<rparr> })"

definition command_types :: "CommandType list" where
  "command_types = [CommandTypePromote, CommandTypeDemote, CommandTypeDisable, CommandTypeEnable, CommandTypeForcePassive]"

definition unknown_type :: "string \<Rightarrow> string" where
  "unknown_type t = ''unknown command type '' @ quoted t @ ''; valid types: promote, demote, disable, enable, force_passive''"

text \<open>The four conditional checks: at most one of them applies to a type.\<close>

definition validate_command :: "Server \<Rightarrow> ((string \<times> bool \<times> ActualState) list \<Rightarrow> (string \<times> bool \<times> ActualState) list) \<Rightarrow>
    StateStore \<Rightarrow> command_request \<Rightarrow> int \<times> string" where
  "validate_command s ord st req =
     (let cg = q_ClusterGroup req; mg = q_ManagementGroup req
      in if q_Type req = CommandTypePromote then validatePromote s ord st cg mg
         else if q_Type req = CommandTypeDemote then validateDemote s st cg mg
         else if q_Type req = CommandTypeEnable then validateEnable s st cg mg
         else if q_Type req = CommandTypeForcePassive then validateForcePassive s st cg mg
         else (0, []))"

definition handleCommands :: "Server \<Rightarrow> 'e Putter \<Rightarrow>
    ((string \<times> bool \<times> ActualState) list \<Rightarrow> (string \<times> bool \<times> ActualState) list) \<Rightarrow> StateStore \<Rightarrow>
    http_request \<Rightarrow> 'e world \<Rightarrow> http_response \<times> 'e world" where
  "handleCommands s putter ord st r w =
     (if r_Method r \<noteq> ''POST'' then (bare StatusMethodNotAllowed, w)
      else case decode_request (r_Body r) of
        None \<Rightarrow> (writeJSON StatusBadRequest (error_json json_error), w)
      | Some req \<Rightarrow>
          if q_Type req \<notin> set command_types
          then (writeJSON StatusBadRequest (error_json (unknown_type (q_Type req))), w)
          else if q_ClusterGroup req = [] \<or> q_ManagementGroup req = []
          then (writeJSON StatusBadRequest (error_json ''cluster_group and management_group are required''), w)
          else
            let (code, msg) = validate_command s ord st req
            in if code \<noteq> 0 then (writeJSON code (error_json msg), w)
               else
                 let (t1, w) = now w; (t2, w) = now w;
                     cmd = \<lparr>c_ID = command_id t1, c_Type = q_Type req, c_ClusterGroup = q_ClusterGroup req,
                       c_ManagementGroup = q_ManagementGroup req, c_Status = CommandPending, c_Error = [],
                       c_CreatedAt = t2, c_StartedAt = None, c_FinishedAt = None\<rparr>
                 in case marshal_command cmd of
                      None \<Rightarrow> (bare StatusInternalServerError, w)
                    | Some data \<Rightarrow>
                        (case putter (CommandKey (clusterID s) (c_ID cmd)) data w of
                           (Some err, w) \<Rightarrow> (bare StatusInternalServerError, w)
                         | (None, w) \<Rightarrow>
                             (writeJSON StatusAccepted (JObj [(''id'', JStr (c_ID cmd)),
                                (''status'', JStr (c_Status cmd)), (''type'', JStr (c_Type cmd))]), w)))"

section \<open>Command ids\<close>

text \<open>The id of a command is a well-formed key segment, and tells its nanosecond.\<close>

lemma length_pad [simp]: "length (pad k n) = k"
  by (simp add: pad_def)

lemma pad_append: "pad k a @ s = pad k b @ s' \<longleftrightarrow> pad k a = pad k b \<and> s = s'"
  by (rule append_eq_append_conv) simp

lemma pad_fields_inject:
  "pad 4 y @ pad 2 m @ pad 2 d @ c # pad 2 hh @ pad 2 mm @ pad 2 ss @ e # pad 9 ns
     = pad 4 y' @ pad 2 m' @ pad 2 d' @ c # pad 2 hh' @ pad 2 mm' @ pad 2 ss' @ e # pad 9 ns' \<longleftrightarrow>
   pad 4 y = pad 4 y' \<and> pad 2 m = pad 2 m' \<and> pad 2 d = pad 2 d' \<and> pad 2 hh = pad 2 hh'
     \<and> pad 2 mm = pad 2 mm' \<and> pad 2 ss = pad 2 ss' \<and> pad 9 ns = pad 9 ns'"
  by (simp only: pad_append list.inject simp_thms)

lemma slash_pad: "slash \<notin> set (pad k n)"
proof
  assume "slash \<in> set (pad k n)"
  then obtain d where "dig d = slash" "0 \<le> d" "d < 10" using digs_range by (auto simp: pad_def)
  then have "undig slash = Some d" using undig_dig by metis
  then show False by (simp add: undig_def)
qed

lemma id_ok_command_id: "id_ok (command_id t)"
proof -
  obtain m d where md: "month_day 11 (leap (year_of (t div ns_per_day))) 1
      (t div ns_per_day - days_before_year (year_of (t div ns_per_day))) = (m, d)" by fastforce
  have "length (command_id t) = 25" by (simp add: command_id_def Let_def md)
  then have "command_id t \<noteq> []" "command_id t \<noteq> ''.''" "command_id t \<noteq> ''..''" by auto
  moreover have "slash \<notin> set (command_id t)"
    by (simp add: command_id_def Let_def md slash_pad)
  ultimately show ?thesis by (simp add: id_ok_def)
qed

lemma command_id_inject:
  assumes "time_ok t" and "time_ok t'" and "command_id t = command_id t'"
  shows "t = t'"
proof -
  obtain m d where md: "month_day 11 (leap (year_of (t div ns_per_day))) 1
      (t div ns_per_day - days_before_year (year_of (t div ns_per_day))) = (m, d)" by fastforce
  obtain m' d' where md': "month_day 11 (leap (year_of (t' div ns_per_day))) 1
      (t' div ns_per_day - days_before_year (year_of (t' div ns_per_day))) = (m', d')" by fastforce
  have ns: "0 \<le> t mod ns_per_s" "t mod ns_per_s < 10 ^ 9" "0 \<le> t' mod ns_per_s" "t' mod ns_per_s < 10 ^ 9"
    by (simp_all add: ns_per_s_def)
  have "command_id t = pad 4 (year_of (t div ns_per_day)) @ pad 2 m @ pad 2 d @ CHR ''T'' #
      pad 2 (t mod ns_per_day div ns_per_s div 3600) @ pad 2 (t mod ns_per_day div ns_per_s mod 3600 div 60) @
      pad 2 (t mod ns_per_day div ns_per_s mod 60) @ CHR ''.'' # pad 9 (t mod ns_per_s)"
    unfolding command_id_def Let_def md prod.case by (rule refl)
  moreover have "command_id t' = pad 4 (year_of (t' div ns_per_day)) @ pad 2 m' @ pad 2 d' @ CHR ''T'' #
      pad 2 (t' mod ns_per_day div ns_per_s div 3600) @ pad 2 (t' mod ns_per_day div ns_per_s mod 3600 div 60) @
      pad 2 (t' mod ns_per_day div ns_per_s mod 60) @ CHR ''.'' # pad 9 (t' mod ns_per_s)"
    unfolding command_id_def Let_def md' prod.case by (rule refl)
  note ids = calculation this
  have eqs: "pad 4 (year_of (t div ns_per_day)) = pad 4 (year_of (t' div ns_per_day))"
    "pad 2 m = pad 2 m'" "pad 2 d = pad 2 d'"
    "pad 2 (t mod ns_per_day div ns_per_s div 3600) = pad 2 (t' mod ns_per_day div ns_per_s div 3600)"
    "pad 2 (t mod ns_per_day div ns_per_s mod 3600 div 60) = pad 2 (t' mod ns_per_day div ns_per_s mod 3600 div 60)"
    "pad 2 (t mod ns_per_day div ns_per_s mod 60) = pad 2 (t' mod ns_per_day div ns_per_s mod 60)"
    "pad 9 (t mod ns_per_s) = pad 9 (t' mod ns_per_s)"
    using pad_fields_inject [THEN iffD1, OF trans [OF sym [OF ids(1)] trans [OF assms(3) ids(2)]]] by blast+
  have "Some (t mod ns_per_s, [] :: string) = Some (t' mod ns_per_s, [])"
    by (rule trans [OF sym [OF take_digits_pad [OF ns(1,2), of "[]", unfolded eqs(7)]] take_digits_pad [OF ns(3,4), of "[]"]])
  then have sec: "t mod ns_per_s = t' mod ns_per_s" by blast
  have same: "rfc3339 t = rfc3339 t'"
    unfolding rfc3339_def Let_def md md' prod.case eqs sec by (rule refl)
  have "Some t = Some t'"
    by (rule trans [OF sym [OF parse_rfc3339 [OF assms(1), unfolded same]] parse_rfc3339 [OF assms(2)]])
  then show ?thesis by (rule option.inject [THEN iffD1])
qed

section \<open>What is accepted\<close>

definition stored_desired :: "StateStore \<Rightarrow> string \<Rightarrow> string \<Rightarrow> string \<Rightarrow> DesiredDocument option" where
  "stored_desired st c cg mg = Option.bind (Get st (Desired c cg mg)) unmarshal_desired"

definition stored_actual :: "StateStore \<Rightarrow> string \<Rightarrow> string \<Rightarrow> string \<Rightarrow> ActualState" where
  "stored_actual st c cg mg =
     (case Option.bind (Get st (Actual c cg mg)) unmarshal_actual of None \<Rightarrow> [] | Some a \<Rightarrow> a_State a)"

lemma mgInfo_eq: "mgInfo s st cg mg =
    (\<exists>d. stored_desired st (clusterID s) cg mg = Some d \<and> d_Managed d, stored_actual st (clusterID s) cg mg)"
  by (auto simp: mgInfo_def stored_desired_def stored_actual_def split: option.splits)

definition is_managed :: "StateStore \<Rightarrow> string \<Rightarrow> string \<Rightarrow> string \<Rightarrow> bool" where
  "is_managed st c cg mg \<longleftrightarrow> (\<exists>d. stored_desired st c cg mg = Some d \<and> d_Managed d)"

definition is_healthy :: "StateStore \<Rightarrow> string \<Rightarrow> string \<Rightarrow> string \<Rightarrow> bool" where
  "is_healthy st c cg mg \<longleftrightarrow> (\<exists>h. Option.bind (Get st (Health c cg mg)) unmarshal_health = Some h \<and> h_Status h = HealthOK)"

text \<open>The conditions of the five commands, in terms of the stored documents.\<close>

definition acceptable :: "StateStore \<Rightarrow> string \<Rightarrow> CommandType \<Rightarrow> string \<Rightarrow> string \<Rightarrow> bool" where
  "acceptable st c t cg mg \<longleftrightarrow>
     (let groups = set (ListChildren st (ClusterGroup c cg))
      in if t = CommandTypePromote then
           mg \<in> groups \<and> (\<forall>g \<in> groups. g \<noteq> mg \<and> \<not> is_managed st c cg g \<longrightarrow>
             stored_actual st c cg g \<notin> {ActualActive, ActualStarting})
         else if t = CommandTypeDemote then
           mg \<in> groups \<and> ((\<exists>d. stored_desired st c cg mg = Some d \<and> d_State d = DesiredPassive)
             \<or> (\<forall>g \<in> groups. stored_actual st c cg g \<notin> {ActualStarting, ActualStopping})
               \<and> (\<exists>g \<in> groups. g \<noteq> mg \<and> is_managed st c cg g \<and> stored_actual st c cg g = ActualPassive
                   \<and> is_healthy st c cg g))
         else if t = CommandTypeEnable then (\<exists>d. stored_desired st c cg mg = Some d \<and> \<not> d_Managed d)
         else if t = CommandTypeForcePassive then
           (\<exists>d. stored_desired st c cg mg = Some d \<and> \<not> d_Managed d \<and> d_State d = DesiredActive)
         else True)"

lemma validatePromote_ok:
  assumes "\<And>xs. set (ord xs) = set xs"
  shows "fst (validatePromote s ord st cg mg) = 0 \<longleftrightarrow> acceptable st (clusterID s) CommandTypePromote cg mg"
proof -
  let ?groups = "ListChildren st (ClusterGroup (clusterID s) cg)"
  let ?info = "\<lambda>g. (g, is_managed st (clusterID s) cg g, stored_actual st (clusterID s) cg g)"
  have info: "map (\<lambda>mg. (mg, mgInfo s st cg mg)) ?groups = map ?info ?groups"
    by (simp add: mgInfo_eq is_managed_def)
  have "set (ord (go_map (map ?info ?groups))) = set (map ?info ?groups)"
    unfolding assms by (rule set_go_map) auto
  then have none: "find P (ord (go_map (map ?info ?groups))) = None \<longleftrightarrow> (\<forall>g \<in> set ?groups. \<not> P (?info g))" for P
    by (auto simp: find_None_iff)
  define r where "r = find (\<lambda>(g, managed, actual). g \<noteq> mg \<and> \<not> managed
      \<and> (actual = ActualActive \<or> actual = ActualStarting)) (ord (go_map (map ?info ?groups)))"
  have "fst (validatePromote s ord st cg mg) = 0 \<longleftrightarrow> mg \<in> set ?groups \<and> r = None"
    unfolding validatePromote_def info Let_def r_def [symmetric] by (auto split: option.splits)
  then show ?thesis by (auto simp: r_def none acceptable_def Let_def)
qed

lemma candidate_iff:
  "candidate s st cg target g (stored_actual st (clusterID s) cg g) \<longleftrightarrow> g \<noteq> target \<and> is_managed st (clusterID s) cg g
     \<and> stored_actual st (clusterID s) cg g = ActualPassive \<and> is_healthy st (clusterID s) cg g"
  by (auto simp: candidate_def is_managed_def stored_desired_def is_healthy_def split: option.splits bind_splits)

lemma demote_scan_eq:
  "(case demote_scan s st cg target b gs of Inl r \<Rightarrow> fst r \<noteq> 0 \<and> (\<exists>g \<in> set gs. stored_actual st (clusterID s) cg g \<in> {ActualStarting, ActualStopping})
    | Inr b' \<Rightarrow> (\<forall>g \<in> set gs. stored_actual st (clusterID s) cg g \<notin> {ActualStarting, ActualStopping})
        \<and> (b' \<longleftrightarrow> b \<or> (\<exists>g \<in> set gs. candidate s st cg target g (stored_actual st (clusterID s) cg g))))"
proof (induction gs arbitrary: b)
  case (Cons g gs)
  show ?case
    using Cons [of "if candidate s st cg target g (stored_actual st (clusterID s) cg g) then True else b"]
    by (cases "candidate s st cg target g (stored_actual st (clusterID s) cg g)")
      (auto simp: mgInfo_eq Let_def split: sum.splits)
qed simp

lemma validateDemote_ok:
  "fst (validateDemote s st cg mg) = 0 \<longleftrightarrow> acceptable st (clusterID s) CommandTypeDemote cg mg"
proof -
  let ?groups = "ListChildren st (ClusterGroup (clusterID s) cg)"
  have des: "(case Get st (Desired (clusterID s) cg mg) of None \<Rightarrow> []
      | Some raw \<Rightarrow> (case unmarshal_desired raw of None \<Rightarrow> [] | Some doc \<Rightarrow> d_State doc)) = DesiredPassive
      \<longleftrightarrow> (\<exists>d. stored_desired st (clusterID s) cg mg = Some d \<and> d_State d = DesiredPassive)"
    by (auto simp: stored_desired_def split: option.splits bind_splits)
  show ?thesis
    using demote_scan_eq [where s = s and st = st and cg = cg and target = mg and b = False and gs = ?groups]
    unfolding validateDemote_def Let_def des
    by (auto simp: acceptable_def candidate_iff Let_def split: sum.splits)
qed

lemma validate_rest_ok:
  "fst (validateEnable s st cg mg) = 0 \<longleftrightarrow> acceptable st (clusterID s) CommandTypeEnable cg mg"
  "fst (validateForcePassive s st cg mg) = 0 \<longleftrightarrow> acceptable st (clusterID s) CommandTypeForcePassive cg mg"
  by (auto simp: validateEnable_def validateForcePassive_def acceptable_def stored_desired_def split: option.splits bind_splits)

lemma validate_command_ok:
  assumes "\<And>xs. set (ord xs) = set xs"
  shows "fst (validate_command s ord st req) = 0 \<longleftrightarrow>
    acceptable st (clusterID s) (q_Type req) (q_ClusterGroup req) (q_ManagementGroup req)"
proof -
  consider "q_Type req = CommandTypePromote" | "q_Type req = CommandTypeDemote" | "q_Type req = CommandTypeEnable"
    | "q_Type req = CommandTypeForcePassive"
    | "q_Type req \<notin> {CommandTypePromote, CommandTypeDemote, CommandTypeEnable, CommandTypeForcePassive}" by blast
  then show ?thesis
  proof cases
    case 5
    then show ?thesis by (simp add: validate_command_def acceptable_def)
  qed (simp_all add: validate_command_def validatePromote_ok [OF assms] validateDemote_ok validate_rest_ok)
qed

section \<open>What a request does\<close>

lemma demote_scan_status: "demote_scan s st cg target b gs = Inl r \<Longrightarrow> fst r = StatusConflict"
  by (induction gs arbitrary: b) (auto simp: Let_def split: if_splits)

lemma validate_status:
  "fst (validate_command s ord st req) \<in> {0, StatusBadRequest, StatusConflict, StatusInternalServerError}"
  unfolding validate_command_def validatePromote_def validateDemote_def validateEnable_def validateForcePassive_def Let_def
  by (auto split: option.splits sum.splits dest: demote_scan_status)

text \<open>
  The contract of the interface \<open>Putter\<close>: a put is one request without a lease, under the key
  and with the value that were given, and leaves the clock alone.
\<close>

locale putter =
  fixes put :: "'e Putter"
  assumes put_sends: "put k b w = (r, w') \<Longrightarrow> sent w' = sent w @ [ReqPut k b 0] \<and> clock w' = clock w"
begin

text \<open>A request that is not accepted for queueing has no effect on etcd.\<close>

lemma handleCommands_cases:
  assumes "handleCommands s put ord st r w = (resp, w')" and "clock_ok w"
  obtains (refused) "w' = w" "r_Status resp \<noteq> StatusAccepted"
      "\<not> (r_Method r = ''POST'' \<and> (\<exists>req. decode_request (r_Body r) = Some req \<and> q_Type req \<in> set command_types
         \<and> q_ClusterGroup req \<noteq> [] \<and> q_ManagementGroup req \<noteq> [] \<and> fst (validate_command s ord st req) = 0))"
  | (queued) req cmd b where "decode_request (r_Body r) = Some req" "r_Method r = ''POST''"
      "q_Type req \<in> set command_types" "q_ClusterGroup req \<noteq> []" "q_ManagementGroup req \<noteq> []"
      "fst (validate_command s ord st req) = 0"
      "cmd = \<lparr>c_ID = command_id (clock w (ticks w)), c_Type = q_Type req, c_ClusterGroup = q_ClusterGroup req,
         c_ManagementGroup = q_ManagementGroup req, c_Status = CommandPending, c_Error = [],
         c_CreatedAt = clock w (Suc (ticks w)), c_StartedAt = None, c_FinishedAt = None\<rparr>"
      "marshal_command cmd = Some b" "sent w' = sent w @ [ReqPut (CommandKey (clusterID s) (c_ID cmd)) b 0]"
      "r_Status resp = (if fst (put (CommandKey (clusterID s) (c_ID cmd)) b (snd (now (snd (now w))))) = None
         then StatusAccepted else StatusInternalServerError)"
proof -
  note [simp] = handleCommands_def
  have status: "r_Status (writeJSON c j) = c" "r_Status (bare c) = c" for c j by (simp_all add: writeJSON_def bare_def)
  consider "r_Method r \<noteq> ''POST''" | "r_Method r = ''POST''" "decode_request (r_Body r) = None"
    | req where "r_Method r = ''POST''" "decode_request (r_Body r) = Some req"
        "q_Type req \<notin> set command_types \<or> q_ClusterGroup req = [] \<or> q_ManagementGroup req = []
          \<or> fst (validate_command s ord st req) \<noteq> 0"
    | req where "r_Method r = ''POST''" "decode_request (r_Body r) = Some req" "q_Type req \<in> set command_types"
        "q_ClusterGroup req \<noteq> []" "q_ManagementGroup req \<noteq> []" "fst (validate_command s ord st req) = 0"
    by blast
  then show ?thesis
  proof cases
    case 1
    then show ?thesis using refused assms(1) status by auto
  next
    case 2
    then show ?thesis using refused assms(1) status by auto
  next
    case 3
    then show ?thesis
      using refused assms(1) status validate_status [of s ord st req]
      by (cases "validate_command s ord st req") (auto split: if_splits)
  next
    case (4 req)
    let ?cmd = "\<lparr>c_ID = command_id (clock w (ticks w)), c_Type = q_Type req, c_ClusterGroup = q_ClusterGroup req,
         c_ManagementGroup = q_ManagementGroup req, c_Status = CommandPending, c_Error = [],
         c_CreatedAt = clock w (Suc (ticks w)), c_StartedAt = None, c_FinishedAt = None\<rparr>"
    have "command_stamps_ok ?cmd" using assms(2) by (simp add: command_stamps_ok_def clock_ok_def)
    then obtain b where b: "marshal_command ?cmd = Some b" using command.total by blast
    obtain e w2 where p: "put (CommandKey (clusterID s) (c_ID ?cmd)) b (snd (now (snd (now w)))) = (e, w2)" by fastforce
    have "sent w2 = sent w @ [ReqPut (CommandKey (clusterID s) (c_ID ?cmd)) b 0]" using put_sends [OF p] by simp
    moreover have "w' = w2 \<and> r_Status resp = (if e = None then StatusAccepted else StatusInternalServerError)"
      using 4 assms(1) b p status by (cases "validate_command s ord st req"; cases e) (auto simp: now_def Let_def)
    ultimately show ?thesis using queued [OF 4(2,1,3-6) refl b] p by simp
  qed
qed

end

interpretation api_putter: putter "apiPutter_Put svc" for svc :: "'e etcd_service"
  by unfold_locales (auto simp: apiPutter_Put_def dest: Put_sent Put_clock)

definition authorized :: "Server \<Rightarrow> http_request \<Rightarrow> bool" where
  "authorized s r \<longleftrightarrow> token s = [] \<or> r_Authorization r = ''Bearer '' @ token s"

lemma requireAuth_iff:
  "requireAuth s next r w = (if authorized s r then next r w
     else (\<lparr>r_Status = StatusUnauthorized, r_Headers = [(''WWW-Authenticate'', ''Bearer'')], r_JSON = None\<rparr>, w))"
  by (auto simp: requireAuth_def authorized_def has_prefix_iff simp del: append.simps)

text \<open>
  C25: what the command endpoint does. A request queues a command exactly when it carries the
  token (if one is configured), is a POST with a readable body, one of the five types and two
  names, and the stored documents fit the type; it then sends one put, of a pending command
  with the requested fields under its own well-formed id, and answers 202 when the put
  succeeds and 500 otherwise. Every other request leaves the world alone and is not answered
  202, and one without the token is answered 401; the order in which the runtime iterates a
  map does not matter.
\<close>

theorem api_request_effect:
  fixes w :: "'e world"
  assumes "requireAuth s (handleCommands s (apiPutter_Put svc) ord st) r w = (resp, w')"
    and "clock_ok w" and "\<forall>xs. set (ord xs) = set xs"
    and "fits \<longleftrightarrow> authorized s r \<and> r_Method r = ''POST'' \<and> (\<exists>req. decode_request (r_Body r) = Some req
       \<and> q_Type req \<in> set command_types \<and> q_ClusterGroup req \<noteq> [] \<and> q_ManagementGroup req \<noteq> []
       \<and> acceptable st (clusterID s) (q_Type req) (q_ClusterGroup req) (q_ManagementGroup req))"
  shows "(fits \<longrightarrow> (\<exists>req cmd b. decode_request (r_Body r) = Some req
       \<and> sent w' = sent w @ [ReqPut (CommandKey (clusterID s) (c_ID cmd)) b 0] \<and> unmarshal_command b = Some cmd
       \<and> c_Status cmd = CommandPending \<and> c_Type cmd = q_Type req \<and> c_ClusterGroup cmd = q_ClusterGroup req
       \<and> c_ManagementGroup cmd = q_ManagementGroup req \<and> id_ok (c_ID cmd) \<and> command_stamps_ok cmd
       \<and> r_Status resp \<in> {StatusAccepted, StatusInternalServerError} \<and> (puts_succeed svc \<longrightarrow> r_Status resp = StatusAccepted)))
    \<and> (\<not> fits \<longrightarrow> w' = w \<and> r_Status resp \<noteq> StatusAccepted)
    \<and> (\<not> authorized s r \<longrightarrow> r_Status resp = StatusUnauthorized)"
proof (cases "authorized s r")
  case False
  then show ?thesis using assms(1,4) by (auto simp: requireAuth_iff)
next
  case True
  have h: "handleCommands s (apiPutter_Put svc) ord st r w = (resp, w')" using assms(1) True by (simp add: requireAuth_iff)
  note ok = validate_command_ok [of ord s st, OF assms(3) [rule_format]]
  from h assms(2) show ?thesis
  proof (cases rule: api_putter.handleCommands_cases)
    case refused
    have "\<not> fits" using refused(3) assms(4) ok by simp
    then show ?thesis using refused True by simp
  next
    case (queued req cmd b)
    have f: fits using queued(1-6) True assms(4) ok by auto
    have "id_ok (c_ID cmd)" "command_stamps_ok cmd" "unmarshal_command b = Some cmd"
      using assms(2) id_ok_command_id command.roundtrip [OF queued(8) TrueI] unfolding queued(7)
      by (simp_all add: command_stamps_ok_def clock_ok_def)
    moreover have "puts_succeed svc \<longrightarrow> r_Status resp = StatusAccepted"
      using queued(10) puts_succeed_Put [of svc] unfolding apiPutter_Put_def by presburger
    ultimately show ?thesis
      using f queued(1,7,9,10) True by auto
  qed
qed

definition promote_request :: http_request where
  "promote_request = \<lparr>r_Method = ''POST'', r_Authorization = ''Bearer t'', r_Body = JSON (JObj
     [(''type'', JStr ''promote''), (''cluster_group'', JStr ''g''), (''management_group'', JStr ''x'')])\<rparr>"

definition example_server :: Server where
  "example_server = \<lparr>addr = '':5080'', clusterID = ''c'', token = ''t''\<rparr>"

lemma decode_promote: "decode_request (r_Body promote_request)
    = Some \<lparr>q_Type = ''promote'', q_ClusterGroup = ''g'', q_ManagementGroup = ''x''\<rparr>"
  by (simp add: promote_request_def decode_request_def read_defs same_field_def lower_def)

text \<open>A promotion of the owner itself is accepted: the other group is managed.\<close>

lemma owner_acceptable: "acceptable (example_store queue_items) ''c'' ''promote'' ''g'' ''x''"
proof -
  have "Get (example_store queue_items) (Desired ''c'' ''g'' ''y'') = Some (desired_json ''passive'' True)" by code_simp
  then show ?thesis
    by (simp add: acceptable_def queue_groups is_managed_def stored_desired_def)
qed

theorem api_request_effect_witness:
  "\<exists>cmd b. sent (snd (requireAuth example_server (handleCommands example_server (apiPutter_Put mem_service) (\<lambda>xs. xs)
       (example_store queue_items)) promote_request (example_world queue_items)))
     = [ReqPut (CommandKey ''c'' (c_ID cmd)) b 0] \<and> unmarshal_command b = Some cmd \<and> c_Type cmd = ''promote''"
proof -
  let ?h = "handleCommands example_server (apiPutter_Put mem_service) (\<lambda>xs. xs) (example_store queue_items)"
  let ?r = "requireAuth example_server ?h promote_request (example_world queue_items)"
  have run: "?r = (fst ?r, snd ?r)" by simp
  have "authorized example_server promote_request" "r_Method promote_request = ''POST''"
    by (simp_all add: authorized_def promote_request_def example_server_def)
  then show ?thesis
    using api_request_effect [OF run example_clock _ refl]
    by (auto simp: decode_promote owner_acceptable command_types_def example_server_def example_world_def)
qed

text \<open>The demotion of the case analysis below: a passive group, or one with a replacement.\<close>

lemma acceptable_demote_succeeds:
  assumes "etcd_kv svc kv" and "puts_succeed svc" and "clock_ok w" and "c_Type cmd = CommandTypeDemote"
    and "acceptable st (cluster_id cfg) (c_Type cmd) (c_ClusterGroup cmd) (c_ManagementGroup cmd)"
    and "\<forall>g \<in> set (ListChildren st (ClusterGroup (cluster_id cfg) (c_ClusterGroup cmd))).
           \<exists>doc. stored_mgconfig st (cluster_id cfg) (c_ClusterGroup cmd) g = Some doc \<and> 0 \<le> mgc_Priority doc"
    and "stored_desired st (cluster_id cfg) (c_ClusterGroup cmd) (c_ManagementGroup cmd) = Some d"
    and "Get st (Desired (cluster_id cfg) (c_ClusterGroup cmd) (c_ManagementGroup cmd)) = Some raw" and "unmarshal_desired raw = Some d"
  shows "fst (exec_command cfg svc st cmd w) = None"
proof -
  let ?cg = "c_ClusterGroup cmd" and ?mg = "c_ManagementGroup cmd"
  let ?groups = "ListChildren st (ClusterGroup (cluster_id cfg) ?cg)"
  note des = etcd_kv.succeeds_writeDesired [OF assms(1-3), unfolded succeeds_def]
  note demote = assms(4) and d = assms(7) and raw = assms(8,9)
  show ?thesis
  proof (cases "d_State d = DesiredPassive")
    case True
    then show ?thesis using demote raw des by (simp add: exec_command_def execDemote_def)
  next
    case False
    then obtain g where g: "g \<in> set ?groups" "g \<noteq> ?mg" "is_managed st (cluster_id cfg) ?cg g"
      "stored_actual st (cluster_id cfg) ?cg g = ActualPassive" "is_healthy st (cluster_id cfg) ?cg g"
      and mg: "?mg \<in> set ?groups"
      using demote d assms(5) by (auto simp: acceptable_def Let_def)
    obtain gdoc doc where docs: "stored_mgconfig st (cluster_id cfg) ?cg g = Some gdoc"
      "stored_mgconfig st (cluster_id cfg) ?cg ?mg = Some doc" using assms(6) g(1) mg by blast
    have "can_replace cfg st ?cg ?mg g (mgc_Priority gdoc)"
      using g docs(1)
      by (auto simp: can_replace_def is_managed_def stored_desired_def stored_actual_def is_healthy_def split: option.splits)
    then have "replacement_priority cfg st ?cg ?mg g \<noteq> None" unfolding replacement_priority_iff [symmetric] by simp
    then obtain best q where best: "best_replacement (replacement_priority cfg st ?cg ?mg) None ?groups = Some (best, q)"
      using g(1) best_replacement_None [of "replacement_priority cfg st ?cg ?mg" None ?groups] by fastforce
    obtain craw where craw: "Get st (ManagementGroupConfig (cluster_id cfg) ?cg ?mg) = Some craw"
      "unmarshal_mgconfig craw = Some doc" using docs(2) by (auto simp: stored_mgconfig_def split: bind_splits)
    show ?thesis
      using etcd_kv.execDemote_succeeds [OF assms(1-3) docs(2) best] demote raw False best craw
      by (simp add: exec_command_def execDemote_def Let_def succeeds_def)
  qed
qed

text \<open>
  C27: what the endpoint accepts, the leader can do. If the documents still fit when the
  command is executed, every group of the cluster group has a readable priority that is not
  negative and, for a demotion, the desired state of the target is readable, a command of any
  type completes without error against a service that answers every put without an error. The
  last two conditions are not part of the check of the endpoint.
\<close>

theorem accepted_command_succeeds:
  assumes "etcd_kv svc kv" and "puts_succeed svc" and "clock_ok w" and "store_wf st"
    and "c_Type cmd \<in> set command_types"
    and "acceptable st (cluster_id cfg) (c_Type cmd) (c_ClusterGroup cmd) (c_ManagementGroup cmd)"
    and "\<forall>g \<in> set (ListChildren st (ClusterGroup (cluster_id cfg) (c_ClusterGroup cmd))).
           \<exists>doc. stored_mgconfig st (cluster_id cfg) (c_ClusterGroup cmd) g = Some doc \<and> 0 \<le> mgc_Priority doc"
    and "c_Type cmd = CommandTypeDemote \<longrightarrow>
           stored_desired st (cluster_id cfg) (c_ClusterGroup cmd) (c_ManagementGroup cmd) \<noteq> None"
  shows "fst (exec_command cfg svc st cmd w) = None"
proof -
  let ?cg = "c_ClusterGroup cmd" and ?mg = "c_ManagementGroup cmd"
  let ?groups = "ListChildren st (ClusterGroup (cluster_id cfg) ?cg)"
  note des = etcd_kv.succeeds_writeDesired [OF assms(1-3), unfolded succeeds_def]
  consider (promote) "c_Type cmd = CommandTypePromote" | (demote) "c_Type cmd = CommandTypeDemote"
    | (disable) "c_Type cmd = CommandTypeDisable" | (enable) "c_Type cmd = CommandTypeEnable"
    | (force) "c_Type cmd = CommandTypeForcePassive"
    using assms(5) by (auto simp: command_types_def)
  then show ?thesis
  proof cases
    case promote
    then have mg: "?mg \<in> set ?groups" using assms(6) by (auto simp: acceptable_def Let_def)
    then obtain doc where "stored_mgconfig st (cluster_id cfg) ?cg ?mg = Some doc" "0 \<le> mgc_Priority doc"
      using assms(7) by blast
    then have "(?mg, mgc_Priority doc) \<in> set (promote_entries cfg st ?cg)" "0 \<le> mgc_Priority doc"
      using mg by (auto simp: promote_entries_iff)
    then show ?thesis
      using etcd_kv.execPromote_succeeds [OF assms(1-4)] promote by (simp add: exec_command_def succeeds_def)
  next
    case demote
    then obtain d where d: "stored_desired st (cluster_id cfg) ?cg ?mg = Some d" using assms(8) by blast
    then obtain raw where raw: "Get st (Desired (cluster_id cfg) ?cg ?mg) = Some raw" "unmarshal_desired raw = Some d"
      by (auto simp: stored_desired_def split: bind_splits)
    show ?thesis
      using acceptable_demote_succeeds [OF assms(1-3) demote assms(6,7) d raw] .
  next
    case force
    then obtain d raw where "Get st (Desired (cluster_id cfg) ?cg ?mg) = Some raw" "unmarshal_desired raw = Some d"
      "\<not> d_Managed d"
      using assms(6) by (auto simp: acceptable_def stored_desired_def Let_def split: bind_splits)
    then show ?thesis using force des by (simp add: exec_command_def execForcePassive_def)
  qed (use des in \<open>simp_all add: exec_command_def execDisable_def execEnable_def\<close>)
qed

theorem accepted_command_succeeds_witness:
  "fst (executed (pending_command ''1'' ''promote'' ''x'')) = None"
proof -
  have "Get (example_store queue_items) (ManagementGroupConfig ''c'' ''g'' ''x'') = Some (priority_json 1)"
    "Get (example_store queue_items) (ManagementGroupConfig ''c'' ''g'' ''y'') = Some (priority_json 2)" by code_simp+
  then show ?thesis
    unfolding executed_def
    by (intro accepted_command_succeeds [OF mem.etcd_kv_axioms mem_reliable(1) example_clock store_wf_example])
      (simp_all add: command_types_def owner_acceptable queue_groups stored_mgconfig_def int64_def)
qed

end
