(* ===== verification/Durations.thy ===== *)
theory Durations
  imports JsonText
begin

text \<open>
  \<^verbatim>\<open>time.Duration.String\<close> and \<^verbatim>\<open>time.ParseDuration\<close>: the configuration documents hold durations as
  text. A duration is its number of nanoseconds. \<open>None\<close> is any error of the parser.
\<close>

section \<open>Printing\<close>

text \<open>\<^verbatim>\<open>fmtFrac\<close>: the last \<open>k\<close> digits after the point, without trailing zeros.\<close>

definition frac :: "nat \<Rightarrow> int \<Rightarrow> string" where
  "frac k v = (let ds = strip_zeros (digs k v) in if ds = [] then [] else CHR ''.'' # map dig ds)"

definition micro :: string where "micro = [CHR 0xC2, CHR 0xB5, CHR ''s'']"

definition print_abs :: "int \<Rightarrow> string" where
  "print_abs u =
     (if u = 0 then ''0s''
      else if u < 1000 then decimal u @ ''ns''
      else if u < 1000000 then decimal (u div 1000) @ frac 3 u @ micro
      else if u < 1000000000 then decimal (u div 1000000) @ frac 6 u @ ''ms''
      else
        let s = u div 1000000000; seconds = decimal (s mod 60) @ frac 9 u @ ''s''
        in if s < 60 then seconds
           else if s div 60 < 60 then decimal (s div 60) @ ''m'' @ seconds
           else decimal (s div 60 div 60) @ ''h'' @ decimal (s div 60 mod 60) @ ''m'' @ seconds)"

definition duration_text :: "int \<Rightarrow> string" where
  "duration_text d = (if d < 0 then CHR ''-'' # print_abs (- d) else print_abs d)"

section \<open>Parsing\<close>

definition unit_of :: "string \<Rightarrow> int option" where
  "unit_of = map_of [(''ns'', 1), (''us'', 1000), (micro, 1000), ([CHR 0xCE, CHR 0xBC, CHR ''s''], 1000),
     (''ms'', 1000000), (''s'', 1000000000), (''m'', 60000000000), (''h'', 3600000000000)]"

text \<open>
  \<open>leadingFraction\<close> drops the digits that would overflow. The code multiplies the fraction with
  the unit in \<^verbatim>\<open>float64\<close>; the model takes the exact product, rounded down, which is the same
  number whenever the scale divides the unit, as in every text the program writes.
\<close>

fun leadingFraction :: "int \<Rightarrow> int \<Rightarrow> int list \<Rightarrow> int \<times> int" where
  "leadingFraction x scale [] = (x, scale)"
| "leadingFraction x scale (d # ds) =
     (if (2 ^ 63 - 1) div 10 < x \<or> 2 ^ 63 < 10 * x + d then (x, scale)
      else leadingFraction (10 * x + d) (scale * 10) ds)"

definition starts_number :: "string \<Rightarrow> bool" where
  "starts_number s = (case s of [] \<Rightarrow> False | c # _ \<Rightarrow> c = CHR ''.'' \<or> undig c \<noteq> None)"

fun span_unit :: "string \<Rightarrow> string \<times> string" where
  "span_unit [] = ([], [])"
| "span_unit (c # s) =
     (if c = CHR ''.'' \<or> undig c \<noteq> None then ([], c # s) else let (u, r) = span_unit s in (c # u, r))"

text \<open>One number with its unit; the overflow checks are those of the code.\<close>

definition parse_part :: "string \<Rightarrow> (int \<times> string) option" where
  "parse_part s =
     (if \<not> starts_number s then None
      else
        let (ds, s1) = span_digits s;
            (fs, s2) = (case s1 of c # r \<Rightarrow> if c = CHR ''.'' then span_digits r else ([], s1) | [] \<Rightarrow> ([], s1));
            v = digits_value 0 ds; (f, scale) = leadingFraction 0 1 fs; (u, rest) = span_unit s2
        in if 2 ^ 63 < v \<or> (ds = [] \<and> fs = []) then None
           else (case unit_of u of
               None \<Rightarrow> None
             | Some unit \<Rightarrow>
                 if 2 ^ 63 div unit < v then None
                 else
                   let w = v * unit + (if 0 < f then f * unit div scale else 0)
                   in if 2 ^ 63 < w then None else Some (w, rest)))"

lemma length_span_digits: "length (snd (span_digits s)) \<le> length s"
  by (induction s) (auto split: option.splits prod.splits)

lemma length_span_unit: "length (snd (span_unit s)) \<le> length s"
  by (induction s) (auto split: prod.splits)

lemma unit_of_Nil: "unit_of [] = None"
  by (simp add: unit_of_def micro_def)

lemma parse_part_shorter: "parse_part s = Some (w, rest) \<Longrightarrow> length rest < length s"
proof -
  assume p: "parse_part s = Some (w, rest)"
  obtain ds s1 where s1: "span_digits s = (ds, s1)" by fastforce
  obtain fs s2 where s2: "(case s1 of c # r \<Rightarrow> if c = CHR ''.'' then span_digits r else ([], s1) | [] \<Rightarrow> ([], s1)) = (fs, s2)"
    by fastforce
  obtain u r where u: "span_unit s2 = (u, r)" by fastforce
  have "length s1 \<le> length s" using length_span_digits [of s] s1 by simp
  moreover have "length s2 \<le> length s1"
    using s2 length_span_digits [of "tl s1"] by (auto split: list.splits if_splits)
  moreover have "u \<noteq> []" "r = rest"
    using p s1 s2 u by (auto simp: parse_part_def Let_def unit_of_Nil split: if_splits option.splits prod.splits)
  moreover have "u \<noteq> [] \<Longrightarrow> length r < length s2"
    using u length_span_unit [of "tl s2"] by (cases s2) (auto split: if_splits prod.splits)
  ultimately show ?thesis by simp
qed

function parse_parts :: "int \<Rightarrow> string \<Rightarrow> int option" where
  "parse_parts d s =
     (if s = [] then Some d
      else case parse_part s of
          None \<Rightarrow> None
        | Some (w, rest) \<Rightarrow> if 2 ^ 63 < d + w then None else parse_parts (d + w) rest)"
  by pat_completeness auto
termination by (relation "measure (\<lambda>(d, s). length s)") (auto dest: parse_part_shorter)

declare parse_parts.simps [simp del]

definition ParseDuration :: "string \<Rightarrow> int option" where
  "ParseDuration s =
     (let sign = (s \<noteq> [] \<and> (hd s = CHR ''-'' \<or> hd s = CHR ''+'')); neg = (s \<noteq> [] \<and> hd s = CHR ''-'');
          s = (if sign then tl s else s)
      in if s = ''0'' then Some 0
         else if s = [] then None
         else (case parse_parts 0 s of
             None \<Rightarrow> None
           | Some d \<Rightarrow> if neg then Some (- d) else if 2 ^ 63 - 1 < d then None else Some d))"

section \<open>Reading back\<close>

definition digits_ok :: "int list \<Rightarrow> bool" where
  "digits_ok ds \<longleftrightarrow> (\<forall>d \<in> set ds. 0 \<le> d \<and> d < 10)"

lemma decimal_nat_digits:
  "\<exists>ds. decimal_nat n = map dig ds \<and> ds \<noteq> [] \<and> digits_ok ds \<and> digits_value 0 ds = int n"
proof (induction n rule: decimal_nat.induct)
  case (1 n)
  show ?case
  proof (cases "n < 10")
    case True
    then show ?thesis
      by (intro exI [of _ "[int n]"]) (simp add: decimal_nat.simps [of n] digits_ok_def digits_value_def)
  next
    case False
    then obtain ds where ds: "decimal_nat (n div 10) = map dig ds" "digits_ok ds" "digits_value 0 ds = int (n div 10)"
      using 1 by blast
    have "10 * int (n div 10) + int (n mod 10) = int n" by presburger
    then show ?thesis
      using False ds by (intro exI [of _ "ds @ [int (n mod 10)]"])
        (simp add: decimal_nat.simps [of n] digits_ok_def digits_value_def)
  qed
qed

lemma decimal_digits:
  assumes "0 \<le> n"
  obtains ds where "decimal n = map dig ds" "ds \<noteq> []" "digits_ok ds" "digits_value 0 ds = n"
  using assms decimal_nat_digits [of "nat n"] by (auto simp: decimal_def)

lemma digits_value_append: "digits_value a (xs @ ys) = digits_value (digits_value a xs) ys"
  by (simp add: digits_value_def)

lemma digits_value_scale: "digits_value a (replicate k 0) = a * 10 ^ k"
  by (induction k arbitrary: a) (simp_all add: digits_value_def)

text \<open>The printed fraction is \<open>v mod 10 ^ k\<close> in units of its last digit.\<close>

lemma strip_zeros_value:
  fixes k v
  defines "ds \<equiv> strip_zeros (digs k v)"
  shows "digits_ok ds" and "length ds \<le> k" and "digits_value 0 ds * 10 ^ (k - length ds) = v mod 10 ^ k"
proof -
  have fill: "ds @ replicate (k - length ds) 0 = digs k v"
    using strip_zeros_fill [of "digs k v"] by (simp add: ds_def)
  then have "set ds \<subseteq> set (digs k v)" by (metis Un_upper1 set_append)
  then show "digits_ok ds" using digs_range by (auto simp: digits_ok_def)
  show "length ds \<le> k" using length_strip_zeros [of "digs k v"] by (simp add: ds_def)
  show "digits_value 0 ds * 10 ^ (k - length ds) = v mod 10 ^ k"
    using digits_value_digs [of k v] unfolding fill [symmetric] by (simp add: digits_value_append digits_value_scale)
qed

lemma leadingFraction_value:
  assumes "digits_ok ds" and "0 \<le> x" and "x < 10 ^ j" and "j + length ds \<le> 18"
  shows "leadingFraction x scale ds = (digits_value x ds, scale * 10 ^ length ds)"
  using assms
proof (induction ds arbitrary: x scale j)
  case Nil
  then show ?case by (simp add: digits_value_def)
next
  case (Cons d ds)
  have d: "0 \<le> d" "d < 10" using Cons.prems(1) by (auto simp: digits_ok_def)
  have x: "10 * x + d < 10 ^ Suc j" using d(2) Cons.prems(3) by simp
  have "(10::int) ^ Suc j \<le> 10 ^ 18" using Cons.prems(4) by (intro power_increasing) auto
  then have "10 * x + d < 10 ^ 18" using x by linarith
  then have "\<not> (2 ^ 63 - 1) div 10 < x \<and> \<not> 2 ^ 63 < 10 * x + d" using d(1) by simp
  moreover have "leadingFraction (10 * x + d) (scale * 10) ds = (digits_value (10 * x + d) ds, scale * 10 * 10 ^ length ds)"
    using Cons.IH [of "10 * x + d" "Suc j"] Cons.prems x d by (simp add: digits_ok_def)
  ultimately show ?case by (simp add: digits_value_def)
qed

definition unit_ok :: "string \<Rightarrow> bool" where
  "unit_ok u \<longleftrightarrow> u \<noteq> [] \<and> (\<forall>c \<in> set u. c \<noteq> CHR ''.'' \<and> undig c = None)"

lemma span_unit_append: "unit_ok u \<Longrightarrow> rest = [] \<or> starts_number rest \<Longrightarrow> span_unit (u @ rest) = (u, rest)"
proof -
  have "\<forall>c \<in> set u. c \<noteq> CHR ''.'' \<and> undig c = None \<Longrightarrow> rest = [] \<or> starts_number rest \<Longrightarrow> span_unit (u @ rest) = (u, rest)"
    by (induction u) (auto simp: starts_number_def split: list.splits)
  then show "unit_ok u \<Longrightarrow> rest = [] \<or> starts_number rest \<Longrightarrow> span_unit (u @ rest) = (u, rest)"
    by (simp add: unit_ok_def)
qed

lemma span_digits_ok:
  "digits_ok ds \<Longrightarrow> s = [] \<or> undig (hd s) = None \<Longrightarrow> span_digits (map dig ds @ s) = (ds, s)"
  by (rule span_digits_map) (auto simp: digits_ok_def)

lemma parse_part_print:
  assumes "0 \<le> n" and "unit_of u = Some unit" and "unit_ok u" and "rest = [] \<or> starts_number rest"
    and "k = 0 \<and> 0 < unit \<or> unit = 10 ^ k \<and> k \<le> 9" and "n * unit + v mod 10 ^ k \<le> 2 ^ 63"
  shows "parse_part (decimal n @ frac k v @ u @ rest) = Some (n * unit + v mod 10 ^ k, rest)"
proof -
  let ?fs = "strip_zeros (digs k v)"
  have unit: "0 < unit" using assms(5) by auto
  have m: "0 \<le> v mod 10 ^ k" by simp
  obtain ds where ds: "decimal n = map dig ds" "ds \<noteq> []" "digits_ok ds" "digits_value 0 ds = n"
    using decimal_digits [OF assms(1)] by blast
  obtain c us where u: "u = c # us" "c \<noteq> CHR ''.''" "undig c = None"
    using assms(3) by (cases u) (auto simp: unit_ok_def)
  have dot: "undig (CHR ''.'') = None" by (simp add: undig_def)
  have starts: "starts_number (decimal n @ frac k v @ u @ rest)"
    using ds by (cases ds) (auto simp: starts_number_def digits_ok_def)
  have s1: "span_digits (decimal n @ frac k v @ u @ rest) = (ds, frac k v @ u @ rest)"
    unfolding ds(1) by (rule span_digits_ok [OF ds(3)]) (auto simp: frac_def Let_def u dot)
  have s2: "(case frac k v @ u @ rest of c # r \<Rightarrow> if c = CHR ''.'' then span_digits r else ([], frac k v @ u @ rest)
      | [] \<Rightarrow> ([], frac k v @ u @ rest)) = (?fs, u @ rest)"
    using span_digits_ok [OF strip_zeros_value(1) [of k v], of "u @ rest"] u by (auto simp: frac_def Let_def)
  have f: "leadingFraction 0 1 ?fs = (digits_value 0 ?fs, 10 ^ length ?fs)"
    using leadingFraction_value [OF strip_zeros_value(1), of 0 0 k v 1] strip_zeros_value(2) [of k v] assms(5) by auto
  have w: "(if 0 < digits_value 0 ?fs then digits_value 0 ?fs * unit div 10 ^ length ?fs else 0) = v mod 10 ^ k"
  proof (cases "k = 0")
    case True
    then show ?thesis by (simp add: strip_zeros_def digits_value_def)
  next
    case False
    then have "unit = 10 ^ (k - length ?fs) * 10 ^ length ?fs"
      using assms(5) strip_zeros_value(2) [of k v] by (simp add: power_add [symmetric])
    then have "digits_value 0 ?fs * unit div 10 ^ length ?fs = v mod 10 ^ k"
      using strip_zeros_value(3) [of k v] by (simp add: mult.assoc [symmetric])
    moreover have "digits_value 0 ?fs \<le> 0 \<Longrightarrow> v mod 10 ^ k = 0"
      using strip_zeros_value(3) [of k v] m mult_nonpos_nonneg [of "digits_value 0 ?fs" "10 ^ (k - length ?fs)"] by (metis antisym zero_le_numeral zero_le_power)
    ultimately show ?thesis by auto
  qed
  have "n * unit \<le> 2 ^ 63" using assms(6) m by linarith
  then have "n * unit div unit \<le> 2 ^ 63 div unit" using unit by (rule zdiv_mono1)
  then have "n \<le> 2 ^ 63 div unit" using unit by simp
  moreover have "n \<le> 2 ^ 63"
    using \<open>n * unit \<le> 2 ^ 63\<close> mult_left_mono [of 1 unit n] unit assms(1) by linarith
  ultimately show ?thesis
    using starts s1 s2 f w ds(2,4) assms(2,6) span_unit_append [OF assms(3,4)]
    by (simp add: parse_part_def Let_def)
qed

lemma parse_parts_step:
  assumes "parse_part s = Some (w, rest)" and "d + w \<le> 2 ^ 63"
  shows "parse_parts d s = parse_parts (d + w) rest"
proof -
  have "s \<noteq> []" using parse_part_shorter [OF assms(1)] by auto
  then show ?thesis using assms by (simp add: parse_parts.simps [of d s])
qed

lemma parse_parts_Nil [simp]: "parse_parts d [] = Some d"
  by (simp add: parse_parts.simps)

lemma units_ok [simp]:
  "unit_ok ''s''" "unit_ok ''m''" "unit_ok ''h''" "unit_ok ''ms''" "unit_ok ''ns''" "unit_ok micro"
  "unit_of ''s'' = Some 1000000000" "unit_of ''m'' = Some 60000000000" "unit_of ''h'' = Some 3600000000000"
  "unit_of ''ms'' = Some 1000000" "unit_of ''ns'' = Some 1" "unit_of micro = Some 1000"
  by (simp_all add: unit_ok_def undig_def unit_of_def micro_def)

lemma starts_decimal [simp]: "0 \<le> n \<Longrightarrow> starts_number (decimal n @ s)"
proof -
  assume "0 \<le> n"
  then obtain ds where "decimal n = map dig ds" "ds \<noteq> []" "digits_ok ds" using decimal_digits by blast
  then show ?thesis by (cases ds) (auto simp: starts_number_def digits_ok_def)
qed

lemma parse_last:
  assumes "0 \<le> n" and "unit_of u = Some unit" and "unit_ok u" and "k = 0 \<and> 0 < unit \<or> unit = 10 ^ k \<and> k \<le> 9"
    and "0 \<le> d" and "d + (n * unit + v mod 10 ^ k) \<le> 2 ^ 63"
  shows "parse_parts d (decimal n @ frac k v @ u) = Some (d + (n * unit + v mod 10 ^ k))"
  using parse_part_print [OF assms(1-3) _ assms(4), of "[]" v] assms(5,6) parse_parts_step by simp

lemma parse_next:
  assumes "0 \<le> n" and "unit_of u = Some unit" and "unit_ok u" and "0 < unit" and "starts_number rest"
    and "0 \<le> d" and "d + n * unit \<le> 2 ^ 63"
  shows "parse_parts d (decimal n @ u @ rest) = parse_parts (d + n * unit) rest"
proof -
  have "frac 0 0 = []" by (simp add: frac_def strip_zeros_def)
  then have "parse_part (decimal n @ u @ rest) = Some (n * unit, rest)"
    using parse_part_print [OF assms(1-3), of rest 0 0] assms(4-7) by simp
  then show ?thesis using parse_parts_step assms(7) by blast
qed

lemma parse_hms:
  assumes "0 \<le> h" and "0 \<le> m" and "0 \<le> s"
    and "h * 3600000000000 + m * 60000000000 + (s * 1000000000 + v mod 10 ^ 9) \<le> 2 ^ 63"
  shows "parse_parts 0 (decimal h @ ''h'' @ (decimal m @ ''m'' @ (decimal s @ frac 9 v @ ''s''))) =
    Some (h * 3600000000000 + m * 60000000000 + (s * 1000000000 + v mod 10 ^ 9))"
proof -
  define f where "f = v mod 10 ^ 9"
  have f: "0 \<le> f" by (simp add: f_def)
  have le: "h * 3600000000000 + m * 60000000000 + (s * 1000000000 + f) \<le> 2 ^ 63" using assms(4) by (simp only: f_def)
  then have le1: "0 + h * 3600000000000 \<le> 2 ^ 63" "h * 3600000000000 + m * 60000000000 \<le> 2 ^ 63"
    using f assms(1-3) by linarith+
  have h: "0 \<le> h * 3600000000000" "0 \<le> h * 3600000000000 + m * 60000000000" using assms(1,2) by linarith+
  have "parse_parts 0 (decimal h @ ''h'' @ (decimal m @ ''m'' @ (decimal s @ frac 9 v @ ''s''))) =
      parse_parts (0 + h * 3600000000000) (decimal m @ ''m'' @ (decimal s @ frac 9 v @ ''s''))"
    by (rule parse_next [OF assms(1) units_ok(9,3) _ starts_decimal [OF assms(2)] _ le1(1)]) simp_all
  also have "\<dots> = parse_parts (h * 3600000000000 + m * 60000000000) (decimal s @ frac 9 v @ ''s'')"
    unfolding add_0 by (rule parse_next [OF assms(2) units_ok(8,2) _ starts_decimal [OF assms(3)] h(1) le1(2)]) simp
  also have "\<dots> = Some (h * 3600000000000 + m * 60000000000 + (s * 1000000000 + v mod 10 ^ 9))"
    by (rule parse_last [OF assms(3) units_ok(7,1) _ h(2) assms(4)]) simp
  finally show ?thesis .
qed

lemma parse_print_abs:
  assumes "0 \<le> u" and "u \<le> 2 ^ 63"
  shows "parse_parts 0 (print_abs u) = Some u"
proof -
  have frac0: "frac 0 0 = []" by (simp add: frac_def strip_zeros_def)
  note split = div_mult_mod_eq [of u]
  define s where "s = u div 1000000000"
  have s0: "0 \<le> s" unfolding s_def using assms(1) by (simp add: pos_imp_zdiv_nonneg_iff)
  have su: "s * 1000000000 + u mod 10 ^ 9 = u" unfolding s_def using split [of 1000000000] by simp
  have m0: "0 \<le> u mod 10 ^ 9" by simp
  have ms: "s div 60 * 60 + s mod 60 = s" "0 \<le> s div 60" "0 \<le> s mod 60"
    using s0 by (simp_all add: pos_imp_zdiv_nonneg_iff)
  have hm: "s div 60 div 60 * 60 + s div 60 mod 60 = s div 60" "0 \<le> s div 60 div 60" "0 \<le> s div 60 mod 60"
    using ms by (simp_all add: pos_imp_zdiv_nonneg_iff)
  have seconds: "parse_parts d (decimal (s mod 60) @ frac 9 u @ ''s'') = Some (d + (s mod 60 * 1000000000 + u mod 10 ^ 9))"
    if "0 \<le> d" "d + (s mod 60 * 1000000000 + u mod 10 ^ 9) \<le> 2 ^ 63" for d
    using parse_last [OF ms(3), of "''s''" 1000000000 9 d u] that by simp
  consider "u = 0" | "0 < u" "u < 1000" | "1000 \<le> u" "u < 1000000" | "1000000 \<le> u" "u < 1000000000"
    | "1000000000 \<le> u" "s < 60" | "1000000000 \<le> u" "60 \<le> s" "s div 60 < 60"
    | "1000000000 \<le> u" "60 \<le> s" "60 \<le> s div 60"
    using assms(1) by linarith
  then show ?thesis
  proof cases
    case 1
    have "decimal 0 = ''0''" by code_simp
    then show ?thesis using 1 parse_last [of 0 "''s''" 1000000000 0 0 0] frac0 by (simp add: print_abs_def)
  next
    case 2
    then show ?thesis using parse_last [of u "''ns''" 1 0 0 0] frac0 assms by (simp add: print_abs_def)
  next
    case 3
    have "u div 1000 * 1000 + u mod 10 ^ 3 = u" using split [of 1000] by simp
    then show ?thesis
      using 3 parse_last [of "u div 1000" micro 1000 3 0 u] assms by (simp add: print_abs_def pos_imp_zdiv_nonneg_iff)
  next
    case 4
    have "u div 1000000 * 1000000 + u mod 10 ^ 6 = u" using split [of 1000000] by simp
    then show ?thesis
      using 4 parse_last [of "u div 1000000" "''ms''" 1000000 6 0 u] assms by (simp add: print_abs_def pos_imp_zdiv_nonneg_iff)
  next
    case 5
    then have "print_abs u = decimal (s mod 60) @ frac 9 u @ ''s''" by (simp add: print_abs_def s_def Let_def)
    moreover have "s mod 60 = s" using 5 s0 by simp
    ultimately show ?thesis using seconds [of 0] su assms(2) by simp
  next
    case 6
    then have p: "print_abs u = decimal (s div 60) @ ''m'' @ (decimal (s mod 60) @ frac 9 u @ ''s'')"
      by (simp add: print_abs_def s_def Let_def)
    have "s div 60 * 60000000000 + (s mod 60 * 1000000000 + u mod 10 ^ 9) = u" using su ms(1) by linarith
    then show ?thesis
      unfolding p using parse_next [OF ms(2), of "''m''" 60000000000 "decimal (s mod 60) @ frac 9 u @ ''s''" 0]
        seconds [of "s div 60 * 60000000000"] ms m0 assms(2) by simp
  next
    case 7
    then have p: "print_abs u = decimal (s div 60 div 60) @ ''h'' @ (decimal (s div 60 mod 60) @ ''m'' @ (decimal (s mod 60) @ frac 9 u @ ''s''))"
      by (simp add: print_abs_def s_def Let_def)
    have sum: "s div 60 div 60 * 3600000000000 + s div 60 mod 60 * 60000000000 + (s mod 60 * 1000000000 + u mod 10 ^ 9) = u"
      using su ms(1) hm(1) by linarith
    show ?thesis
      unfolding p using parse_hms [OF hm(2,3) ms(3), of u] sum assms(2) by simp
  qed
qed

lemma starts_print_abs: "0 \<le> u \<Longrightarrow> starts_number (print_abs u)"
proof -
  assume u: "0 \<le> u"
  have zero: "starts_number ''0s''" by (simp add: starts_number_def undig_def)
  show ?thesis using u zero by (simp add: print_abs_def Let_def pos_imp_zdiv_nonneg_iff)
qed

text \<open>\<^verbatim>\<open>ParseDuration\<close> reads back what \<^verbatim>\<open>String\<close> prints, for every 64-bit duration.\<close>

lemma parse_duration_text:
  assumes "int64 d"
  shows "ParseDuration (duration_text d) = Some d"
proof -
  have d: "- (2 ^ 63) \<le> d" "d < 2 ^ 63" using assms by (simp_all add: int64_def)
  let ?u = "if d < 0 then - d else d"
  have u: "0 \<le> ?u" "?u \<le> 2 ^ 63" using d by auto
  note parsed = parse_print_abs [OF u] and starts = starts_print_abs [OF u(1)]
  have "parse_part ''0'' = None"
    by (simp add: parse_part_def starts_number_def undig_def unit_of_Nil Let_def)
  then have none: "parse_parts 0 ''0'' = None" by (simp add: parse_parts.simps)
  have hd: "print_abs ?u \<noteq> [] \<and> hd (print_abs ?u) \<noteq> CHR ''-'' \<and> hd (print_abs ?u) \<noteq> CHR ''+''"
    using starts by (auto simp: starts_number_def undig_def split: list.splits)
  have "print_abs ?u \<noteq> ''0''" using parsed none by auto
  then show ?thesis
    using hd parsed d by (auto simp: ParseDuration_def duration_text_def Let_def)
qed

end
