(* ===== verification/ConfigDocs.thy ===== *)
theory ConfigDocs
  imports Config Etcd Durations
begin

text \<open>
  The configuration documents of \<^verbatim>\<open>internal/model/types.go\<close>, the snapshot the watcher loads
  (\<^verbatim>\<open>internal/config/watcher.go\<close>) and its merge into the local configuration (\<^verbatim>\<open>config.Merge\<close>).
\<close>

section \<open>Documents\<close>

record ClusterConfigDocument =
  ccd_ID :: string
  ccd_Name :: string
  ccd_FailoverMode :: string
  ccd_LeaderTTL :: string
  ccd_LeaderRenewInterval :: string
  ccd_SessionTTL :: string
  ccd_UpdatedAt :: int

record ClusterGroupConfigDocument =
  cgd_ID :: string
  cgd_Name :: string
  cgd_UpdatedAt :: int

record RoleTimeoutsDocument =
  rtd_Exec :: string
  rtd_Converge :: string
  rtd_RetryInterval :: string
  rtd_CheckInterval :: string
  rtd_DetailsMaxSize :: int

record RoleConfigDocument =
  rcd_ID :: string
  rcd_Name :: string
  rcd_Actors :: "(string \<times> string list) list"
  rcd_Timeouts :: RoleTimeoutsDocument
  rcd_UpdatedAt :: int

record MembershipRef =
  ref_ClusterGroup :: string
  ref_ManagementGroup :: string

record NodeConfigDocument =
  ncd_ID :: string
  ncd_Name :: string
  ncd_Memberships :: "MembershipRef list"
  ncd_UpdatedAt :: int

definition zero_timeouts_doc :: RoleTimeoutsDocument where
  "zero_timeouts_doc = \<lparr>rtd_Exec = [], rtd_Converge = [], rtd_RetryInterval = [], rtd_CheckInterval = [],
     rtd_DetailsMaxSize = 0\<rparr>"

section \<open>Encoding\<close>

definition marshal_clusterconfig :: "ClusterConfigDocument \<Rightarrow> bytes option" where
  "marshal_clusterconfig d =
     do { t \<leftarrow> time_text (ccd_UpdatedAt d);
          Some (JSON (JObj ([(''id'', JStr (ccd_ID d)), (''name'', JStr (ccd_Name d))]
            @ omit_str ''failover_mode'' (ccd_FailoverMode d) @ omit_str ''leader_ttl'' (ccd_LeaderTTL d)
            @ omit_str ''leader_renew_interval'' (ccd_LeaderRenewInterval d) @ omit_str ''session_ttl'' (ccd_SessionTTL d)
            @ [(''updated_at'', JStr t)]))) }"

definition marshal_groupconfig :: "ClusterGroupConfigDocument \<Rightarrow> bytes option" where
  "marshal_groupconfig d =
     do { t \<leftarrow> time_text (cgd_UpdatedAt d);
          Some (JSON (JObj [(''id'', JStr (cgd_ID d)), (''name'', JStr (cgd_Name d)), (''updated_at'', JStr t)])) }"

definition json_timeouts :: "RoleTimeoutsDocument \<Rightarrow> json" where
  "json_timeouts d = JObj (omit_str ''exec'' (rtd_Exec d) @ omit_str ''converge'' (rtd_Converge d)
     @ omit_str ''retry_interval'' (rtd_RetryInterval d) @ omit_str ''check_interval'' (rtd_CheckInterval d)
     @ omit_int ''details_max_size'' (rtd_DetailsMaxSize d))"

text \<open>A map is written with its keys sorted; a nil command is written as an empty one.\<close>

definition json_actors :: "(string \<times> string list) list \<Rightarrow> (string \<times> json) list" where
  "json_actors m = (if m = [] then []
     else [(''actors'', JObj (map (\<lambda>(name, cmd). (name, JArr (map JStr cmd))) (sort_key fst m)))])"

definition marshal_roleconfig :: "RoleConfigDocument \<Rightarrow> bytes option" where
  "marshal_roleconfig d =
     do { t \<leftarrow> time_text (rcd_UpdatedAt d);
          Some (JSON (JObj ([(''id'', JStr (rcd_ID d)), (''name'', JStr (rcd_Name d))] @ json_actors (rcd_Actors d)
            @ [(''timeouts'', json_timeouts (rcd_Timeouts d)), (''updated_at'', JStr t)]))) }"

definition json_ref :: "MembershipRef \<Rightarrow> json" where
  "json_ref m = JObj [(''cluster_group'', JStr (ref_ClusterGroup m)), (''management_group'', JStr (ref_ManagementGroup m))]"

definition marshal_nodeconfig :: "NodeConfigDocument \<Rightarrow> bytes option" where
  "marshal_nodeconfig d =
     do { t \<leftarrow> time_text (ncd_UpdatedAt d);
          Some (JSON (JObj ([(''id'', JStr (ncd_ID d)), (''name'', JStr (ncd_Name d))]
            @ omit_list ''memberships'' json_ref (ncd_Memberships d) @ [(''updated_at'', JStr t)]))) }"

section \<open>Decoding\<close>

text \<open>A nested struct or a map is decoded into the value it has: a key that comes twice adds to it.\<close>

fun assign_into :: "('a \<Rightarrow> 'a) \<Rightarrow> ('a \<Rightarrow> json \<Rightarrow> 'a option) \<Rightarrow> json list \<Rightarrow> 'a \<Rightarrow> 'a option" where
  "assign_into nul conv [] a = Some a"
| "assign_into nul conv (v # vs) a =
     (if v = JNull then assign_into nul conv vs (nul a)
      else case conv a v of None \<Rightarrow> None | Some b \<Rightarrow> assign_into nul conv vs b)"

definition read_timeouts :: "RoleTimeoutsDocument \<Rightarrow> (string \<times> json) list \<Rightarrow> RoleTimeoutsDocument option" where
  "read_timeouts d kvs =
     do { e \<leftarrow> read_field as_string (rtd_Exec d) ''exec'' kvs; c \<leftarrow> read_field as_string (rtd_Converge d) ''converge'' kvs;
          r \<leftarrow> read_field as_string (rtd_RetryInterval d) ''retry_interval'' kvs;
          i \<leftarrow> read_field as_string (rtd_CheckInterval d) ''check_interval'' kvs;
          m \<leftarrow> read_field as_int (rtd_DetailsMaxSize d) ''details_max_size'' kvs;
          Some \<lparr>rtd_Exec = e, rtd_Converge = c, rtd_RetryInterval = r, rtd_CheckInterval = i, rtd_DetailsMaxSize = m\<rparr> }"

definition unmarshal_clusterconfig :: "bytes \<Rightarrow> ClusterConfigDocument option" where
  "unmarshal_clusterconfig = unmarshal (\<lambda>kvs.
     do { i \<leftarrow> read_field as_string [] ''id'' kvs; n \<leftarrow> read_field as_string [] ''name'' kvs;
          f \<leftarrow> read_field as_string [] ''failover_mode'' kvs; l \<leftarrow> read_field as_string [] ''leader_ttl'' kvs;
          r \<leftarrow> read_field as_string [] ''leader_renew_interval'' kvs; s \<leftarrow> read_field as_string [] ''session_ttl'' kvs;
          t \<leftarrow> read_field as_time zero_time ''updated_at'' kvs;
          Some \<lparr>ccd_ID = i, ccd_Name = n, ccd_FailoverMode = f, ccd_LeaderTTL = l, ccd_LeaderRenewInterval = r,
                ccd_SessionTTL = s, ccd_UpdatedAt = t\<rparr> })"

definition unmarshal_groupconfig :: "bytes \<Rightarrow> ClusterGroupConfigDocument option" where
  "unmarshal_groupconfig = unmarshal (\<lambda>kvs.
     do { i \<leftarrow> read_field as_string [] ''id'' kvs; n \<leftarrow> read_field as_string [] ''name'' kvs;
          t \<leftarrow> read_field as_time zero_time ''updated_at'' kvs;
          Some \<lparr>cgd_ID = i, cgd_Name = n, cgd_UpdatedAt = t\<rparr> })"

definition unmarshal_roleconfig :: "bytes \<Rightarrow> RoleConfigDocument option" where
  "unmarshal_roleconfig = unmarshal (\<lambda>kvs.
     do { i \<leftarrow> read_field as_string [] ''id'' kvs; n \<leftarrow> read_field as_string [] ''name'' kvs;
          a \<leftarrow> assign_into (\<lambda>_. []) (\<lambda>m v. map_option (\<lambda>new. go_map (m @ new)) (as_map [] (as_list [] as_string) v))
                 (field_values ''actors'' kvs) [];
          td \<leftarrow> assign_into id (\<lambda>d. as_struct (read_timeouts d)) (field_values ''timeouts'' kvs) zero_timeouts_doc;
          t \<leftarrow> read_field as_time zero_time ''updated_at'' kvs;
          Some \<lparr>rcd_ID = i, rcd_Name = n, rcd_Actors = a, rcd_Timeouts = td, rcd_UpdatedAt = t\<rparr> })"

definition read_ref :: "(string \<times> json) list \<Rightarrow> MembershipRef option" where
  "read_ref kvs =
     do { cg \<leftarrow> read_field as_string [] ''cluster_group'' kvs; mg \<leftarrow> read_field as_string [] ''management_group'' kvs;
          Some \<lparr>ref_ClusterGroup = cg, ref_ManagementGroup = mg\<rparr> }"

definition unmarshal_nodeconfig :: "bytes \<Rightarrow> NodeConfigDocument option" where
  "unmarshal_nodeconfig = unmarshal (\<lambda>kvs.
     do { i \<leftarrow> read_field as_string [] ''id'' kvs; n \<leftarrow> read_field as_string [] ''name'' kvs;
          ms \<leftarrow> read_list (as_list \<lparr>ref_ClusterGroup = [], ref_ManagementGroup = []\<rparr> (as_struct read_ref)) ''memberships'' kvs;
          t \<leftarrow> read_field as_time zero_time ''updated_at'' kvs;
          Some \<lparr>ncd_ID = i, ncd_Name = n, ncd_Memberships = ms, ncd_UpdatedAt = t\<rparr> })"

section \<open>The contract of the documents\<close>

declare as_time.simps [simp del] as_list.simps [simp del]

interpretation clusterconfig: doc_codec marshal_clusterconfig unmarshal_clusterconfig
  "\<lambda>d. time_ok (ccd_UpdatedAt d)" "\<lambda>_. True"
  by unfold_locales
    (auto simp: marshal_clusterconfig_def unmarshal_clusterconfig_def read_defs same_field_def lower_def
      split: bind_splits dest!: time_text_ok)

interpretation groupconfig: doc_codec marshal_groupconfig unmarshal_groupconfig
  "\<lambda>d. time_ok (cgd_UpdatedAt d)" "\<lambda>_. True"
  by unfold_locales
    (auto simp: marshal_groupconfig_def unmarshal_groupconfig_def read_defs same_field_def lower_def
      split: bind_splits dest!: time_text_ok)

interpretation nodeconfig: doc_codec marshal_nodeconfig unmarshal_nodeconfig
  "\<lambda>d. time_ok (ncd_UpdatedAt d)" "\<lambda>_. True"
proof
  fix d :: NodeConfigDocument and b
  assume e: "marshal_nodeconfig d = Some b"
  have "as_list \<lparr>ref_ClusterGroup = [], ref_ManagementGroup = []\<rparr> (as_struct read_ref)
      (JArr (map json_ref (ncd_Memberships d))) = Some (ncd_Memberships d)"
    by (intro as_list_map) (simp add: json_ref_def read_ref_def read_defs same_field_def lower_def)
  with e show "unmarshal_nodeconfig b = Some d"
    by (auto simp: marshal_nodeconfig_def unmarshal_nodeconfig_def read_defs same_field_def lower_def omit_list_def
      split: bind_splits if_splits)
qed (auto simp: marshal_nodeconfig_def split: bind_splits dest!: time_text_ok)

lemma read_json_timeouts:
  assumes "int64 (rtd_DetailsMaxSize d)"
  shows "as_struct (read_timeouts zero_timeouts_doc) (json_timeouts d) = Some d"
  using assms by (simp add: json_timeouts_def read_timeouts_def zero_timeouts_doc_def read_defs same_field_def lower_def)

lemma read_json_actors:
  assumes "distinct (map fst m)"
  shows "assign_into (\<lambda>_. []) (\<lambda>m v. map_option (\<lambda>new. go_map (m @ new)) (as_map [] (as_list [] as_string) v))
    (field_values ''actors'' (json_actors m)) [] = Some (sort_key fst m)"
proof (cases "m = []")
  case True
  then show ?thesis by (simp add: json_actors_def)
next
  case False
  let ?s = "sort_key fst m"
  have d: "distinct (map fst ?s)"
    by (rule card_distinct) (use distinct_card [OF assms] in simp)
  have "those (map (\<lambda>(k, v). or_zero [] (as_list [] as_string) v) (map (\<lambda>(name, cmd). (name, JArr (map JStr cmd))) ?s))
      = Some (map snd ?s)"
    unfolding map_map by (rule those_map_Some) (auto simp: or_zero_def split: prod.splits)
  moreover have "zip (map fst (map (\<lambda>(name, cmd). (name, JArr (map JStr cmd))) ?s)) (map snd ?s) = ?s"
    by (simp add: comp_def case_prod_beta zip_map_fst_snd)
  ultimately have "as_map [] (as_list [] as_string) (JObj (map (\<lambda>(name, cmd). (name, JArr (map JStr cmd))) ?s)) = Some ?s"
    using d by (simp add: go_map_distinct)
  then show ?thesis using False d by (simp add: json_actors_def go_map_distinct del: as_map.simps)
qed

lemma field_values_actors_other: "\<not> same_field ''actors'' n \<Longrightarrow> field_values n (json_actors m) = []"
  by (simp add: json_actors_def)

text \<open>A Go map has no order: the model reads the actors in the order of their names.\<close>

interpretation roleconfig: doc_codec marshal_roleconfig unmarshal_roleconfig
  "\<lambda>d. time_ok (rcd_UpdatedAt d)"
  "\<lambda>d. int64 (rtd_DetailsMaxSize (rcd_Timeouts d)) \<and> distinct (map fst (rcd_Actors d)) \<and> sort_key fst (rcd_Actors d) = rcd_Actors d"
proof
  fix d :: RoleConfigDocument and b
  assume e: "marshal_roleconfig d = Some b"
    and ok: "int64 (rtd_DetailsMaxSize (rcd_Timeouts d)) \<and> distinct (map fst (rcd_Actors d)) \<and> sort_key fst (rcd_Actors d) = rcd_Actors d"
  have "json_timeouts (rcd_Timeouts d) \<noteq> JNull" by (simp add: json_timeouts_def)
  with e ok show "unmarshal_roleconfig b = Some d"
    using read_json_timeouts [of "rcd_Timeouts d"] read_json_actors [of "rcd_Actors d"]
    by (auto simp: marshal_roleconfig_def unmarshal_roleconfig_def read_defs same_field_def lower_def field_values_actors_other
      split: bind_splits)
qed (auto simp: marshal_roleconfig_def split: bind_splits dest!: time_text_ok)

section \<open>Merging a snapshot\<close>

record EtcdSnapshot =
  sn_Cluster :: "ClusterConfigDocument option"
  sn_ClusterGroups :: "(string \<times> ClusterGroupConfigDocument) list"
  sn_Roles :: "(string \<times> RoleConfigDocument) list"
  sn_ManagementGroups :: "(string \<times> (string \<times> ManagementGroupConfigDocument) list) list"
  sn_Node :: "NodeConfigDocument option"

text \<open>
  A text that is not a positive duration leaves the local value. The deep copies \<^verbatim>\<open>Merge\<close> makes
  first are values here.
\<close>

definition merge_dur :: "string \<Rightarrow> Duration \<Rightarrow> Duration" where
  "merge_dur s t = (case ParseDuration s of Some d \<Rightarrow> if 0 < d then d else t | None \<Rightarrow> t)"

definition merge_str :: "string \<Rightarrow> string \<Rightarrow> string" where
  "merge_str s t = (if s = [] then t else s)"

definition merge_cluster :: "ClusterConfigDocument option \<Rightarrow> ClusterConfig \<Rightarrow> ClusterConfig" where
  "merge_cluster doc cl = (case doc of
     None \<Rightarrow> cl
   | Some c \<Rightarrow> cl\<lparr>cl_Name := merge_str (ccd_Name c) (cl_Name cl),
       FailoverMode := merge_str (ccd_FailoverMode c) (FailoverMode cl),
       LeaderTTL := merge_dur (ccd_LeaderTTL c) (LeaderTTL cl),
       LeaderRenewInterval := merge_dur (ccd_LeaderRenewInterval c) (LeaderRenewInterval cl),
       SessionTTL := merge_dur (ccd_SessionTTL c) (SessionTTL cl)\<rparr>)"

definition merge_group :: "string \<times> ClusterGroupConfigDocument \<Rightarrow> (string \<times> ClusterGroupConfig) list \<Rightarrow>
    (string \<times> ClusterGroupConfig) list" where
  "merge_group x groups = (case x of (i, doc) \<Rightarrow>
     if cgd_Name doc = [] then groups
     else AList.update i ((go_index (map_of groups) \<lparr>cgc_Name = []\<rparr> i)\<lparr>cgc_Name := cgd_Name doc\<rparr>) groups)"

definition merge_role :: "string \<times> RoleConfigDocument \<Rightarrow> RolesMap \<Rightarrow> RolesMap" where
  "merge_role x roles = (case x of (i, doc) \<Rightarrow>
     (let role = go_index (map_of roles) zero_role i; t = Timeouts role; d = rcd_Timeouts doc
      in AList.update i
           \<lparr>rc_Name = merge_str (rcd_Name doc) (rc_Name role),
            Actors = (if rcd_Actors doc = [] then Actors role else rcd_Actors doc),
            Timeouts = \<lparr>Exec = merge_dur (rtd_Exec d) (Exec t), Converge = merge_dur (rtd_Converge d) (Converge t),
              rt_RetryInterval = merge_dur (rtd_RetryInterval d) (rt_RetryInterval t),
              CheckInterval = merge_dur (rtd_CheckInterval d) (CheckInterval t),
              DetailsMaxSize = (if 0 < rtd_DetailsMaxSize d then rtd_DetailsMaxSize d else DetailsMaxSize t)\<rparr>\<rparr> roles))"

definition merge_mg :: "string \<times> ManagementGroupConfigDocument \<Rightarrow> (string \<times> ManagementGroupConf) list \<Rightarrow>
    (string \<times> ManagementGroupConf) list" where
  "merge_mg x mgs = (case x of (mg, doc) \<Rightarrow>
     (let conf = go_index (map_of mgs) zero_mgconf mg
      in AList.update mg
           \<lparr>mg_Priority = (if 0 < mgc_Priority doc then mgc_Priority doc else mg_Priority conf),
            mg_Roles = (if mgc_Roles doc = [] then mg_Roles conf else mgc_Roles doc)\<rparr> mgs))"

definition merge_mgs :: "string \<times> (string \<times> ManagementGroupConfigDocument) list \<Rightarrow>
    (string \<times> (string \<times> ManagementGroupConf) list) list \<Rightarrow> (string \<times> (string \<times> ManagementGroupConf) list) list" where
  "merge_mgs x m = (case x of (cg, docs) \<Rightarrow> AList.update cg (for_each merge_mg docs (go_index (map_of m) [] cg)) m)"

definition merge_node :: "NodeConfigDocument option \<Rightarrow> NodeConfig \<Rightarrow> NodeConfig" where
  "merge_node doc node = (case doc of
     None \<Rightarrow> node
   | Some n \<Rightarrow> node\<lparr>nc_Name := merge_str (ncd_Name n) (nc_Name node),
       Memberships := (if ncd_Memberships n = [] then Memberships node
         else map (\<lambda>r. \<lparr>mc_ClusterGroup = ref_ClusterGroup r, mc_ManagementGroup = ref_ManagementGroup r\<rparr>) (ncd_Memberships n))\<rparr>)"

definition Merge :: "Config \<Rightarrow> EtcdSnapshot option \<Rightarrow> Config" where
  "Merge cfg snap = (case snap of
     None \<Rightarrow> cfg
   | Some s \<Rightarrow>
       (let cluster = merge_cluster (sn_Cluster s) (Cluster cfg)
        in cfg\<lparr>Cluster := cluster\<lparr>cl_Groups := for_each merge_group (sn_ClusterGroups s) (cl_Groups cluster)\<rparr>,
             Roles := for_each merge_role (sn_Roles s) (Roles cfg),
             ManagementGroups := for_each merge_mgs (sn_ManagementGroups s) (ManagementGroups cfg),
             NodeCfg := merge_node (sn_Node s) (NodeCfg cfg)\<rparr>))"

section \<open>The config watcher\<close>

definition empty_snapshot :: EtcdSnapshot where
  "empty_snapshot = \<lparr>sn_Cluster = None, sn_ClusterGroups = [], sn_Roles = [], sn_ManagementGroups = [], sn_Node = None\<rparr>"

text \<open>\<^verbatim>\<open>strings.SplitN(s, "/", 2)\<close> when it gives two parts.\<close>

fun cut_slash :: "string \<Rightarrow> (string \<times> string) option" where
  "cut_slash [] = None"
| "cut_slash (c # s) = (if c = slash then Some ([], s) else map_option (\<lambda>(a, b). (c # a, b)) (cut_slash s))"

definition sort_item :: "Config \<Rightarrow> string \<times> bytes \<Rightarrow> EtcdSnapshot \<Rightarrow> EtcdSnapshot" where
  "sort_item cfg item snap = (case item of (k, raw) \<Rightarrow>
     (let c = cl_ID (Cluster cfg);
          nodesRoot = ConfigNodeRoot c @ ''/''; rolesRoot = ConfigRoleRoot c @ ''/'';
          groupsRoot = ConfigClusterGroupRoot c @ ''/''
      in if k = ConfigMeta c
         then (case unmarshal_clusterconfig raw of Some doc \<Rightarrow> snap\<lparr>sn_Cluster := Some doc\<rparr> | None \<Rightarrow> snap)
         else if k = ConfigNode c (NodeID (NodeCfg cfg))
         then (case unmarshal_nodeconfig raw of Some doc \<Rightarrow> snap\<lparr>sn_Node := Some doc\<rparr> | None \<Rightarrow> snap)
         else if has_prefix nodesRoot k then snap
         else if has_prefix rolesRoot k
         then (case unmarshal_roleconfig raw of
             Some doc \<Rightarrow> if rcd_ID doc = [] then snap else snap\<lparr>sn_Roles := AList.update (rcd_ID doc) doc (sn_Roles snap)\<rparr>
           | None \<Rightarrow> snap)
         else if has_prefix groupsRoot k
         then (case cut_slash (trim_prefix groupsRoot k) of
             None \<Rightarrow> snap
           | Some (cg, sub) \<Rightarrow>
               if sub = ''_meta''
               then (case unmarshal_groupconfig raw of
                   Some doc \<Rightarrow> if cgd_ID doc = [] then snap
                     else snap\<lparr>sn_ClusterGroups := AList.update cg doc (sn_ClusterGroups snap)\<rparr>
                 | None \<Rightarrow> snap)
               else (case unmarshal_mgconfig raw of
                   Some doc \<Rightarrow> snap\<lparr>sn_ManagementGroups := AList.update cg
                     (AList.update sub doc (go_index (map_of (sn_ManagementGroups snap)) [] cg)) (sn_ManagementGroups snap)\<rparr>
                 | None \<Rightarrow> snap))
         else snap))"

definition loadSnapshot :: "Config \<Rightarrow> 'e etcd_service \<Rightarrow> 'e world \<Rightarrow> (error + EtcdSnapshot) \<times> 'e world" where
  "loadSnapshot cfg svc w =
     (case GetPrefix svc (ConfigRoot (cl_ID (Cluster cfg))) w of
        (Inl err, w) \<Rightarrow> (Inl err, w)
      | (Inr (items, rv), w) \<Rightarrow> (Inr (for_each (sort_item cfg) items empty_snapshot), w))"

text \<open>
  What the watcher does with an event: it loads the snapshot and drops the merged configuration
  (the running components keep the local one).
\<close>

definition onConfigChanged :: "Config \<Rightarrow> 'e etcd_service \<Rightarrow> 'e world \<Rightarrow> 'e world" where
  "onConfigChanged cfg svc w = snd (loadSnapshot cfg svc w)"

definition watcher_event :: "Config \<Rightarrow> 'e etcd_service \<Rightarrow> Event \<Rightarrow> 'e world \<Rightarrow> 'e world" where
  "watcher_event cfg svc event w = (case ev_Type event of EventPut \<Rightarrow> onConfigChanged cfg svc w | EventDelete \<Rightarrow> w)"

text \<open>
  \<^verbatim>\<open>Watcher.Run\<close>: the events of its watch, until the channel is closed (no error) or the context ends
  (its error). However etcd changes, the watcher writes nothing.
\<close>

definition Watcher_Run :: "Config \<Rightarrow> 'e etcd_service \<Rightarrow> watch_response list \<Rightarrow> error option \<Rightarrow> 'e world \<Rightarrow> error option \<times> 'e world" where
  "Watcher_Run cfg svc resps stopped w = (stopped, fold (watcher_event cfg svc) (WatchPrefix resps) w)"

context etcd_kv begin

lemma watcher_event_kv: "kv (service_state (watcher_event cfg svc event w)) = kv (service_state w)"
  by (auto simp: watcher_event_def onConfigChanged_def loadSnapshot_def GetPrefix_def Let_def
      dest: get_kv split: EventType.split prod.splits sum.splits)

lemma watcher_writes_nothing: "kv (service_state (snd (Watcher_Run cfg svc resps stopped w))) = kv (service_state w)"
proof -
  have "kv (service_state (fold (watcher_event cfg svc) evs w)) = kv (service_state w)" for evs
    by (induction evs arbitrary: w) (simp_all add: watcher_event_kv)
  then show ?thesis by (simp add: Watcher_Run_def)
qed

end

end
