(* ===== verification/View.thy ===== *)
theory View
  imports Api ConfigDocs
begin

text \<open>
  \<^verbatim>\<open>internal/api/view.go\<close> and the two handlers of \<^verbatim>\<open>server.go\<close> that serve it: the state of the
  cluster as the web page shows it, built from a snapshot of the store. A nil
  \<^verbatim>\<open>json.RawMessage\<close> is \<open>None\<close>; a Go map is the list of its entries, and a nil map reads as the
  empty one. A panic is \<open>None\<close> of the outer option.
\<close>

section \<open>Data\<close>

record RoleView =
  rv_ID :: string
  rv_Name :: string
  rv_Actual :: "bytes option"
  rv_Health :: "bytes option"

record NodeView =
  nv_ID :: string
  nv_Name :: string
  nv_Roles :: "(string \<times> RoleView) list"

record ManagementGroupView =
  mgv_ID :: string
  mgv_Name :: string
  mgv_Config :: "bytes option"
  mgv_Desired :: "bytes option"
  mgv_Actual :: "bytes option"
  mgv_Health :: "bytes option"
  mgv_Nodes :: "(string \<times> NodeView) list"

record ClusterGroupView =
  cgv_ID :: string
  cgv_Name :: string
  cgv_ManagementGroups :: "(string \<times> ManagementGroupView) list"

record ClusterView =
  cv_ID :: string
  cv_Name :: string
  cv_Leadership :: "bytes option"
  cv_Config :: "(string \<times> (string \<times> bytes option) list) list"
  cv_Registry :: "(string \<times> bytes) list"
  cv_Session :: "(string \<times> bytes) list"
  cv_Groups :: "(string \<times> ClusterGroupView) list"

record StateView =
  sv_Ready :: bool
  sv_Revision :: int
  sv_Cluster :: ClusterView

record viewMeta =
  clusterName :: string
  groupNames :: "(string \<times> string) list"
  nodeNames :: "(string \<times> string) list"
  roleNames :: "(string \<times> string) list"

section \<open>Reading the tree\<close>

definition valueOf :: "TreeNode option \<Rightarrow> bytes option" where
  "valueOf node = (case node of None \<Rightarrow> None
     | Some t \<Rightarrow> if node_value t = no_bytes then None else Some (node_value t))"

definition child :: "TreeNode option \<Rightarrow> string \<Rightarrow> TreeNode option" where
  "child node name = (case node of None \<Rightarrow> None | Some t \<Rightarrow> map_of (node_children t) name)"

definition sortedChildNames :: "TreeNode option \<Rightarrow> string list" where
  "sortedChildNames node = (case node of None \<Rightarrow> [] | Some t \<Rightarrow> sort (map fst (node_children t)))"

definition nameOrID :: "string \<Rightarrow> string \<Rightarrow> string" where
  "nameOrID name i = (if name \<noteq> [] then name else i)"

definition isRootSystemKey :: "string \<Rightarrow> bool" where
  "isRootSystemKey name \<longleftrightarrow> name \<in> set [''leadership'', ''commands'', ''commands_history'', ''registry'', ''session'', ''config'']"

definition isManagementSystemKey :: "string \<Rightarrow> bool" where
  "isManagementSystemKey name \<longleftrightarrow> name \<in> set [''desired'', ''actual'', ''health'']"

text \<open>The children a loop over \<open>sortedChildNames\<close> visits, without the names it skips.\<close>

definition entries :: "(string \<Rightarrow> bool) \<Rightarrow> TreeNode option \<Rightarrow> (string \<times> TreeNode) list" where
  "entries skip node =
     concat (map (\<lambda>name. case child node name of None \<Rightarrow> [] | Some t \<Rightarrow> [(name, t)])
       (filter (\<lambda>name. \<not> skip name) (sortedChildNames node)))"

definition looksLikeRoleContainer :: "TreeNode option \<Rightarrow> bool" where
  "looksLikeRoleContainer node =
     list_ex (\<lambda>(name, role). child (Some role) ''actual'' \<noteq> None \<or> child (Some role) ''health'' \<noteq> None)
       (entries isManagementSystemKey node)"

section \<open>Display names\<close>

text \<open>The names the documents below a node of the configuration give; an empty one is not kept.\<close>

definition display_names :: "(bytes \<Rightarrow> string option) \<Rightarrow> (TreeNode option \<Rightarrow> TreeNode option) \<Rightarrow> TreeNode option \<Rightarrow>
    (string \<times> string) list" where
  "display_names name_in at node =
     concat (map (\<lambda>i. case valueOf (at (child node i)) of
         None \<Rightarrow> []
       | Some raw \<Rightarrow> (case name_in raw of None \<Rightarrow> [] | Some name \<Rightarrow> if name \<noteq> [] then [(i, name)] else []))
       (sortedChildNames node))"

definition buildViewMeta :: "TreeNode option \<Rightarrow> viewMeta" where
  "buildViewMeta configRoot =
     \<lparr>clusterName = (case valueOf (child configRoot ''_meta'') of None \<Rightarrow> []
        | Some raw \<Rightarrow> (case unmarshal_clusterconfig raw of None \<Rightarrow> [] | Some doc \<Rightarrow> ccd_Name doc)),
      groupNames = display_names (\<lambda>raw. map_option cgd_Name (unmarshal_groupconfig raw)) (\<lambda>t. child t ''_meta'')
        (child configRoot ''cluster_groups''),
      nodeNames = display_names (\<lambda>raw. map_option ncd_Name (unmarshal_nodeconfig raw)) id (child configRoot ''nodes''),
      roleNames = display_names (\<lambda>raw. map_option rcd_Name (unmarshal_roleconfig raw)) id (child configRoot ''roles'')\<rparr>"

section \<open>Values\<close>

definition buildConfig :: "TreeNode option \<Rightarrow> (string \<times> (string \<times> bytes option) list) list" where
  "buildConfig configRoot =
     concat (map (\<lambda>(cg, node).
         let mgMap = map (\<lambda>mg. (mg, valueOf (child (Some node) mg)))
               (filter (\<lambda>mg. mg \<noteq> ''_meta'') (sortedChildNames (Some node)))
         in if mgMap = [] then [] else [(cg, mgMap)])
       (entries (\<lambda>_. False) (child configRoot ''cluster_groups'')))"

definition buildFlatValueMap :: "TreeNode option \<Rightarrow> (string \<times> bytes) list" where
  "buildFlatValueMap node =
     concat (map (\<lambda>name. case valueOf (child node name) of None \<Rightarrow> [] | Some v \<Rightarrow> [(name, v)]) (sortedChildNames node))"

text \<open>
  A value on its way through \<^verbatim>\<open>interface{}\<close>: objects become maps, whose keys are written in
  order, and numbers become \<^verbatim>\<open>float64\<close>. \<open>num\<close> is what a number literal is written as afterwards,
  or \<open>None\<close> when it is out of range.
\<close>

fun reencode :: "(json \<Rightarrow> json option) \<Rightarrow> json \<Rightarrow> json option" where
  "reencode num (JInt i) = num (JInt i)"
| "reencode num (JReal r) = num (JReal r)"
| "reencode num (JArr vs) = map_option JArr (those (map (reencode num) vs))"
| "reencode num (JObj kvs) = map_option (\<lambda>vs. JObj (sort_key fst (go_map vs)))
     (those (map (\<lambda>(k, v). map_option (Pair k) (reencode num v)) kvs))"
| "reencode num v = Some v"

text \<open>
  \<open>ensureDetails\<close>: \<^verbatim>\<open>null\<close> leaves the map nil, and the assignment to a nil map panics. A value that
  is no object is an error of \<^verbatim>\<open>Unmarshal\<close> and kept as it is.
\<close>

definition ensureDetails :: "(json \<Rightarrow> json option) \<Rightarrow> bytes option \<Rightarrow> bytes option option" where
  "ensureDetails num raw = (case raw of
     None \<Rightarrow> Some None
   | Some (Text s) \<Rightarrow> Some raw
   | Some (JSON v) \<Rightarrow> (case v of
       JNull \<Rightarrow> None
     | JObj kvs \<Rightarrow> (case reencode num (JObj kvs) of
           Some (JObj obj) \<Rightarrow> Some (Some (JSON (JObj
             (if ''details'' \<in> fst ` set obj then obj else insort_key fst (''details'', JStr []) obj))))
         | _ \<Rightarrow> Some raw)
     | _ \<Rightarrow> Some raw))"

section \<open>The hierarchy\<close>

text \<open>The entries of a Go map built in a loop whose bodies may panic.\<close>

definition build_all :: "(string \<Rightarrow> TreeNode \<Rightarrow> 'v option) \<Rightarrow> (string \<times> TreeNode) list \<Rightarrow> (string \<times> 'v) list option" where
  "build_all f xs = those (map (\<lambda>(name, t). map_option (Pair name) (f name t)) xs)"

definition buildRole :: "(json \<Rightarrow> json option) \<Rightarrow> viewMeta \<Rightarrow> string \<Rightarrow> TreeNode \<Rightarrow> RoleView option" where
  "buildRole num m roleID role =
     do { actual \<leftarrow> ensureDetails num (valueOf (child (Some role) ''actual''));
          health \<leftarrow> ensureDetails num (valueOf (child (Some role) ''health''));
          Some \<lparr>rv_ID = roleID, rv_Name = nameOrID (go_index (map_of (roleNames m)) [] roleID) roleID,
            rv_Actual = actual, rv_Health = health\<rparr> }"

definition buildNode :: "(json \<Rightarrow> json option) \<Rightarrow> viewMeta \<Rightarrow> string \<Rightarrow> TreeNode \<Rightarrow> NodeView option" where
  "buildNode num m nodeID node =
     do { roles \<leftarrow> build_all (buildRole num m) (entries isManagementSystemKey (Some node));
          Some \<lparr>nv_ID = nodeID, nv_Name = nameOrID (go_index (map_of (nodeNames m)) [] nodeID) nodeID,
            nv_Roles = filter (\<lambda>(name, r). rv_Actual r \<noteq> None \<or> rv_Health r \<noteq> None) roles\<rparr> }"

definition buildManagementGroup :: "(json \<Rightarrow> json option) \<Rightarrow> viewMeta \<Rightarrow> bytes option \<Rightarrow> string \<Rightarrow> TreeNode \<Rightarrow>
    ManagementGroupView option" where
  "buildManagementGroup num m config managementGroupID gnode =
     do { actual \<leftarrow> ensureDetails num (valueOf (child (Some gnode) ''actual''));
          health \<leftarrow> ensureDetails num (valueOf (child (Some gnode) ''health''));
          nodes \<leftarrow> build_all (buildNode num m)
            (filter (\<lambda>(name, node). looksLikeRoleContainer (Some node)) (entries isManagementSystemKey (Some gnode)));
          nodes \<leftarrow> (if looksLikeRoleContainer (Some gnode)
            then map_option (\<lambda>v. AList.update managementGroupID v nodes) (buildNode num m managementGroupID gnode)
            else Some nodes);
          Some \<lparr>mgv_ID = managementGroupID, mgv_Name = managementGroupID, mgv_Config = config,
            mgv_Desired = valueOf (child (Some gnode) ''desired''), mgv_Actual = actual, mgv_Health = health,
            mgv_Nodes = nodes\<rparr> }"

text \<open>Reading a missing key of the map of configurations gives nil.\<close>

definition buildClusterGroup :: "(json \<Rightarrow> json option) \<Rightarrow> viewMeta \<Rightarrow> (string \<times> bytes option) list \<Rightarrow> string \<Rightarrow> TreeNode \<Rightarrow>
    ClusterGroupView option" where
  "buildClusterGroup num m config clusterGroupID gnode =
     do { mgs \<leftarrow> build_all (\<lambda>mg. buildManagementGroup num m (go_index (map_of config) None mg) mg)
            (entries isManagementSystemKey (Some gnode));
          Some \<lparr>cgv_ID = clusterGroupID, cgv_Name = nameOrID (go_index (map_of (groupNames m)) [] clusterGroupID) clusterGroupID,
            cgv_ManagementGroups = mgs\<rparr> }"

definition empty_cluster :: "string \<Rightarrow> ClusterView" where
  "empty_cluster i = \<lparr>cv_ID = i, cv_Name = i, cv_Leadership = None, cv_Config = [], cv_Registry = [], cv_Session = [],
     cv_Groups = []\<rparr>"

definition BuildStateView :: "(json \<Rightarrow> json option) \<Rightarrow> string \<Rightarrow> bool \<Rightarrow> int \<Rightarrow> TreeNode \<Rightarrow> StateView option" where
  "BuildStateView num i rdy rv t =
     (case child (child (Some t) i) ''cluster'' of
        None \<Rightarrow> Some \<lparr>sv_Ready = rdy, sv_Revision = rv, sv_Cluster = empty_cluster i\<rparr>
      | Some clusterNode \<Rightarrow>
          let node = Some clusterNode; configRoot = child node ''config''; m = buildViewMeta configRoot;
              config = buildConfig configRoot
          in do { groups \<leftarrow> build_all (\<lambda>cg. buildClusterGroup num m (go_index (map_of config) [] cg) cg)
                    (entries isRootSystemKey node);
                  Some \<lparr>sv_Ready = rdy, sv_Revision = rv, sv_Cluster =
                    \<lparr>cv_ID = i, cv_Name = nameOrID (clusterName m) i, cv_Leadership = valueOf (child node ''leadership''),
                     cv_Config = config, cv_Registry = buildFlatValueMap (child node ''registry''),
                     cv_Session = buildFlatValueMap (child node ''session''), cv_Groups = groups\<rparr>\<rparr> })"

section \<open>The JSON of a view\<close>

text \<open>A raw message that is no valid JSON is an error of \<^verbatim>\<open>Marshal\<close>; a nil one is \<^verbatim>\<open>null\<close>.\<close>

definition json_raw :: "bytes option \<Rightarrow> json option" where
  "json_raw b = (case b of None \<Rightarrow> Some JNull | Some (JSON j) \<Rightarrow> Some j | Some (Text s) \<Rightarrow> None)"

definition omit_raw :: "string \<Rightarrow> bytes option \<Rightarrow> (string \<times> json) list option" where
  "omit_raw name b = (if b = None then Some [] else map_option (\<lambda>j. [(name, j)]) (json_raw b))"

definition json_entries :: "('v \<Rightarrow> json option) \<Rightarrow> (string \<times> 'v) list \<Rightarrow> json option" where
  "json_entries f kvs = map_option JObj (those (map (\<lambda>(k, v). map_option (Pair k) (f v)) (sort_key fst kvs)))"

definition omit_entries :: "string \<Rightarrow> ('v \<Rightarrow> json option) \<Rightarrow> (string \<times> 'v) list \<Rightarrow> (string \<times> json) list option" where
  "omit_entries name f kvs = (if kvs = [] then Some [] else map_option (\<lambda>j. [(name, j)]) (json_entries f kvs))"

definition json_role_view :: "RoleView \<Rightarrow> json option" where
  "json_role_view r =
     do { a \<leftarrow> omit_raw ''actual'' (rv_Actual r); h \<leftarrow> omit_raw ''health'' (rv_Health r);
          Some (JObj ([(''id'', JStr (rv_ID r)), (''name'', JStr (rv_Name r))] @ a @ h)) }"

definition json_node_view :: "NodeView \<Rightarrow> json option" where
  "json_node_view n =
     do { rs \<leftarrow> omit_entries ''roles'' json_role_view (nv_Roles n);
          Some (JObj ([(''id'', JStr (nv_ID n)), (''name'', JStr (nv_Name n))] @ rs)) }"

definition json_group_view :: "ManagementGroupView \<Rightarrow> json option" where
  "json_group_view g =
     do { c \<leftarrow> omit_raw ''config'' (mgv_Config g); d \<leftarrow> omit_raw ''desired'' (mgv_Desired g);
          a \<leftarrow> omit_raw ''actual'' (mgv_Actual g); h \<leftarrow> omit_raw ''health'' (mgv_Health g);
          ns \<leftarrow> omit_entries ''nodes'' json_node_view (mgv_Nodes g);
          Some (JObj ([(''id'', JStr (mgv_ID g)), (''name'', JStr (mgv_Name g))] @ c @ d @ a @ h @ ns)) }"

definition json_cluster_group_view :: "ClusterGroupView \<Rightarrow> json option" where
  "json_cluster_group_view g =
     do { ms \<leftarrow> json_entries json_group_view (cgv_ManagementGroups g);
          Some (JObj [(''id'', JStr (cgv_ID g)), (''name'', JStr (cgv_Name g)), (''management_groups'', ms)]) }"

definition json_cluster_view :: "ClusterView \<Rightarrow> json option" where
  "json_cluster_view c =
     do { l \<leftarrow> omit_raw ''leadership'' (cv_Leadership c);
          cs \<leftarrow> omit_entries ''config'' (json_entries json_raw) (cv_Config c);
          rs \<leftarrow> omit_entries ''registry'' (\<lambda>b. json_raw (Some b)) (cv_Registry c);
          ss \<leftarrow> omit_entries ''session'' (\<lambda>b. json_raw (Some b)) (cv_Session c);
          gs \<leftarrow> json_entries json_cluster_group_view (cv_Groups c);
          Some (JObj ([(''id'', JStr (cv_ID c)), (''name'', JStr (cv_Name c))] @ l @ cs @ rs @ ss @ [(''groups'', gs)])) }"

definition json_state_view :: "StateView \<Rightarrow> json option" where
  "json_state_view v = map_option (\<lambda>c. JObj [(''ready'', JBool (sv_Ready v)), (''revision'', JInt (sv_Revision v)), (''cluster'', c)])
     (json_cluster_view (sv_Cluster v))"

section \<open>The handlers\<close>

text \<open>
  The view of a store. \<open>Ready\<close>, \<open>Revision\<close> and \<open>Snapshot\<close> lock one after the other; here they read
  the same store.
\<close>

definition view_of :: "(json \<Rightarrow> json option) \<Rightarrow> Server \<Rightarrow> StateStore \<Rightarrow> StateView option" where
  "view_of num s st = BuildStateView num (clusterID s) (ready st) (revision st) (Snapshot st)"

text \<open>An encoding error leaves the body empty; the header is sent by then.\<close>

definition handleState :: "(json \<Rightarrow> json option) \<Rightarrow> Server \<Rightarrow> StateStore \<Rightarrow> http_response option" where
  "handleState num s st = map_option (\<lambda>view.
     \<lparr>r_Status = 200, r_Headers = [(''Content-Type'', ''application/json'')], r_JSON = json_state_view view\<rparr>) (view_of num s st)"

text \<open>
  \<open>handleStream\<close>: a client that is about to be sent a view, or that waits for a notification. A
  panic ends its connection; an encoding error only sends nothing.
\<close>

record Stream =
  sending :: bool
  last_data :: "json option"

definition send_view :: "(json \<Rightarrow> json option) \<Rightarrow> Server \<Rightarrow> StateStore \<Rightarrow> Stream \<Rightarrow> Stream option" where
  "send_view num s st c = map_option (\<lambda>view. case json_state_view view of
       None \<Rightarrow> c\<lparr>sending := False\<rparr>
     | Some j \<Rightarrow> c\<lparr>sending := False, last_data := Some j\<rparr>) (view_of num s st)"

text \<open>
  The streams of a server over its store, for clients of a set \<open>K\<close>: they connect and leave, one
  of those that wait takes the token of the notify channel, and the watch loop applies events.
\<close>

inductive stream_reaches ::
  "(json \<Rightarrow> json option) \<Rightarrow> Server \<Rightarrow> nat set \<Rightarrow> StateStore \<Rightarrow> StateStore \<Rightarrow> (nat \<rightharpoonup> Stream) \<Rightarrow> bool"
  for num s K st0 where
  start: "stream_reaches num s K st0 st0 (\<lambda>_. None)"
| connect: "stream_reaches num s K st0 st cs \<Longrightarrow> i \<in> K \<Longrightarrow> cs i = None \<Longrightarrow>
    stream_reaches num s K st0 st (cs(i \<mapsto> \<lparr>sending = True, last_data = None\<rparr>))"
| send: "stream_reaches num s K st0 st cs \<Longrightarrow> cs i = Some c \<Longrightarrow> sending c \<Longrightarrow>
    stream_reaches num s K st0 st (cs(i := send_view num s st c))"
| wake: "stream_reaches num s K st0 st cs \<Longrightarrow> cs i = Some c \<Longrightarrow> \<not> sending c \<Longrightarrow> notify st \<Longrightarrow>
    stream_reaches num s K st0 (st\<lparr>notify := False\<rparr>) (cs(i \<mapsto> c\<lparr>sending := True\<rparr>))"
| leave: "stream_reaches num s K st0 st cs \<Longrightarrow> stream_reaches num s K st0 st (cs(i := None))"
| change: "stream_reaches num s K st0 st cs \<Longrightarrow> stream_reaches num s K st0 (Apply st event) cs"

section \<open>The view as a map from paths\<close>

lemma find_node_one: "find_node [x] t = map_of (node_children t) x"
  by (cases t) (simp split: option.splits)

lemma child_find: "child (find_node p t) x = find_node (p @ [x]) t"
  by (cases "find_node p t") (simp_all add: child_def find_node_append find_node_one)

lemma child_Some: "child (Some t) x = find_node [x] t"
  using child_find [of "[]" t x] by simp

lemma node_value_clone [simp]: "node_value (cloneNode t) = node_value t"
  by (cases t) simp

lemma map_of_clone: "map_of (map (\<lambda>(k, c). (k, cloneNode c)) cs) x = map_option cloneNode (map_of cs x)"
  by (induction cs) auto

lemma find_node_clone: "tree_wf t \<Longrightarrow> find_node p (cloneNode t) = map_option cloneNode (find_node p t)"
proof (induction p t rule: find_node.induct)
  case (2 part parts n v cs)
  have "distinct (map fst (map (\<lambda>(k, c). (k, cloneNode c)) cs))"
    using 2(2) by (simp add: comp_def case_prod_beta)
  then show ?case
    using 2 by (auto simp: go_map_distinct map_of_clone split: option.splits dest: tree_wf_child)
qed simp

lemma valueOf_clone [simp]: "valueOf (map_option cloneNode node) = valueOf node"
  by (cases node) (simp_all add: valueOf_def)

lemma valueOf_snapshot:
  "store_wf st \<Longrightarrow> valueOf (find_node (split k) (Snapshot st)) = Get st k"
  by (auto simp: Snapshot_def find_node_clone store_wf_def Get_def findLocked_def valueOf_def split: option.splits)

lemma tree_wf_clone: "tree_wf t \<Longrightarrow> tree_wf (cloneNode t) \<and> node_name (cloneNode t) = node_name t"
proof (induction t rule: tree_wf.induct)
  case (1 n v cs)
  have "distinct (map fst (map (\<lambda>(k, c). (k, cloneNode c)) cs))"
    using 1(2) by (simp add: comp_def case_prod_beta)
  with 1 show ?case by (auto simp: go_map_distinct)
qed

text \<open>The map a loop over names builds, with one entry for each name that has a value.\<close>

lemma map_of_optional:
  "map_of (concat (map (\<lambda>name. case a name of None \<Rightarrow> [] | Some v \<Rightarrow> [(name, v)]) ns)) x =
     (if x \<in> set ns then a x else None)"
  by (induction ns) (auto split: option.splits)

lemma in_sortedChildNames: "x \<in> set (sortedChildNames node) \<longleftrightarrow> child node x \<noteq> None"
  by (cases node) (auto simp: child_def sortedChildNames_def map_of_eq_None_iff)

lemma map_of_entries: "map_of (entries skip node) x = (if skip x then None else child node x)"
  using in_sortedChildNames [of x node] by (auto simp: entries_def map_of_optional)

lemma distinct_entries:
  assumes "\<And>t. node = Some t \<Longrightarrow> tree_wf t"
  shows "distinct (map fst (entries skip node))"
proof -
  have *: "map fst (concat (map (\<lambda>name. case child node name of None \<Rightarrow> [] | Some t \<Rightarrow> [(name, t)]) ns)) =
      filter (\<lambda>name. child node name \<noteq> None) ns" for ns
    by (induction ns) (auto split: option.splits)
  have "distinct (sortedChildNames node)"
  proof (cases node)
    case (Some t)
    then show ?thesis using assms [OF Some] by (cases t) (simp add: sortedChildNames_def)
  qed (simp add: sortedChildNames_def)
  then show ?thesis by (simp add: entries_def *)
qed

lemma build_all_Some:
  assumes "build_all f xs = Some ys"
  shows "map fst ys = map fst xs"
    and "map_of xs x = Some t \<Longrightarrow> \<exists>y. f x t = Some y \<and> map_of ys x = Some y"
    and "map_of xs x = None \<Longrightarrow> map_of ys x = None"
proof -
  have "map fst ys = map fst xs \<and> (\<forall>t. map_of xs x = Some t \<longrightarrow> (\<exists>y. f x t = Some y \<and> map_of ys x = Some y))"
    using assms
  proof (induction xs arbitrary: ys)
    case (Cons a xs)
    then show ?case by (cases a) (fastforce simp: build_all_def split: option.splits)
  qed (simp add: build_all_def)
  then show keys: "map fst ys = map fst xs" and "map_of xs x = Some t \<Longrightarrow> \<exists>y. f x t = Some y \<and> map_of ys x = Some y"
    by blast+
  have "fst ` set ys = fst ` set xs" using keys by (metis list.set_map)
  then show "map_of xs x = None \<Longrightarrow> map_of ys x = None" by (simp add: map_of_eq_None_iff)
qed

lemma map_of_filter_values:
  "distinct (map fst xs) \<Longrightarrow> map_of (filter (\<lambda>(k, v). P v) xs) x =
     (case map_of xs x of None \<Rightarrow> None | Some v \<Rightarrow> if P v then Some v else None)"
  by (induction xs) (auto split: option.splits simp: map_of_eq_None_iff image_def)

lemma map_of_buildConfig:
  "map_of (buildConfig c) cg = (case child (child c ''cluster_groups'') cg of None \<Rightarrow> None
     | Some node \<Rightarrow> let mgMap = map (\<lambda>mg. (mg, valueOf (child (Some node) mg)))
               (filter (\<lambda>mg. mg \<noteq> ''_meta'') (sortedChildNames (Some node)))
         in if mgMap = [] then None else Some mgMap)"
proof -
  let ?mgMap = "\<lambda>node. map (\<lambda>mg. (mg, valueOf (child (Some node) mg)))
               (filter (\<lambda>mg. mg \<noteq> ''_meta'') (sortedChildNames (Some node)))"
  let ?groups = "child c ''cluster_groups''"
  let ?a = "\<lambda>cg. case child ?groups cg of None \<Rightarrow> None | Some node \<Rightarrow> if ?mgMap node = [] then None else Some (?mgMap node)"
  have "concat (map (\<lambda>(cg, node). if ?mgMap node = [] then [] else [(cg, ?mgMap node)])
      (concat (map (\<lambda>name. case child ?groups name of None \<Rightarrow> [] | Some t \<Rightarrow> [(name, t)]) ns)))
    = concat (map (\<lambda>cg. case ?a cg of None \<Rightarrow> [] | Some v \<Rightarrow> [(cg, v)]) ns)" for ns
    by (induction ns) (simp_all split: option.splits)
  then have "buildConfig c = concat (map (\<lambda>cg. case ?a cg of None \<Rightarrow> [] | Some v \<Rightarrow> [(cg, v)]) (sortedChildNames ?groups))"
    by (simp add: buildConfig_def entries_def Let_def)
  then show ?thesis
    using in_sortedChildNames [of cg ?groups] by (simp add: map_of_optional Let_def split: option.splits)
qed

lemma stored_config:
  assumes "mg \<noteq> ''_meta''"
  shows "go_index (map_of (go_index (map_of (buildConfig c)) [] cg)) None mg =
    valueOf (child (child (child c ''cluster_groups'') cg) mg)"
proof (cases "child (child c ''cluster_groups'') cg")
  case None
  then show ?thesis by (simp add: go_index_def map_of_buildConfig) (simp add: child_def valueOf_def)
next
  case (Some node)
  have "mg \<in> set (filter (\<lambda>mg. mg \<noteq> ''_meta'') (sortedChildNames (Some node))) \<longleftrightarrow> child (Some node) mg \<noteq> None"
    using assms by (simp add: in_sortedChildNames)
  then show ?thesis
    by (auto simp: go_index_def map_of_buildConfig Some Let_def map_of_map_restrict restrict_map_def valueOf_def
        filter_empty_conv split: option.splits)
qed

section \<open>Looking up a group and a role in a view\<close>

definition view_group :: "StateView \<Rightarrow> string \<Rightarrow> string \<Rightarrow> ManagementGroupView option" where
  "view_group v cg mg = Option.bind (map_of (cv_Groups (sv_Cluster v)) cg) (\<lambda>g. map_of (cgv_ManagementGroups g) mg)"

definition view_role :: "StateView \<Rightarrow> string \<Rightarrow> string \<Rightarrow> string \<Rightarrow> string \<Rightarrow> RoleView option" where
  "view_role v cg mg n r = Option.bind (view_group v cg mg) (\<lambda>g. Option.bind (map_of (mgv_Nodes g) n) (\<lambda>nv. map_of (nv_Roles nv) r))"

text \<open>A group is in the view when its node is in the tree, and it is built from this node.\<close>

lemma view_group_built:
  assumes "BuildStateView num c rdy rv t = Some v" and "\<not> isRootSystemKey cg" and "\<not> isManagementSystemKey mg" and "mg \<noteq> ''_meta''"
  shows "case find_node [c, ''cluster'', cg, mg] t of
      None \<Rightarrow> view_group v cg mg = None
    | Some node \<Rightarrow> \<exists>m g. buildManagementGroup num m
          (valueOf (find_node [c, ''cluster'', ''config'', ''cluster_groups'', cg, mg] t)) mg node = Some g
        \<and> view_group v cg mg = Some g"
proof -
  have path: "child (child (Some t) c) ''cluster'' = find_node [c, ''cluster''] t"
    using child_find [of "[c]" t "''cluster''"] by (simp add: child_Some)
  show ?thesis
  proof (cases "find_node [c, ''cluster''] t")
    case None
    then have "find_node [c, ''cluster'', cg, mg] t = None"
      using find_node_append [of "[c, ''cluster'']" "[cg, mg]" t] by simp
    moreover have "cv_Groups (sv_Cluster v) = []"
      using assms(1) None by (auto simp: BuildStateView_def path empty_cluster_def)
    ultimately show ?thesis by (simp add: view_group_def)
  next
    case (Some node)
    let ?config = "child (Some node) ''config''"
    let ?m = "buildViewMeta ?config"
    have below: "child (Some node) x = find_node [c, ''cluster'', x] t" for x
      using child_find [of "[c, ''cluster'']" t x] Some by simp
    obtain groups where all: "build_all (\<lambda>cg. buildClusterGroup num ?m (go_index (map_of (buildConfig ?config)) [] cg) cg)
        (entries isRootSystemKey (Some node)) = Some groups" and groups: "cv_Groups (sv_Cluster v) = groups"
      using assms(1) by (auto simp: BuildStateView_def path Some Let_def split: bind_splits)
    have config: "valueOf (child (child (child ?config ''cluster_groups'') cg) mg) =
        valueOf (find_node [c, ''cluster'', ''config'', ''cluster_groups'', cg, mg] t)"
      by (simp add: below child_find)
    show ?thesis
    proof (cases "child (Some node) cg")
      case None
      then have "map_of groups cg = None"
        using build_all_Some(3) [OF all, of cg] by (simp add: map_of_entries)
      moreover have "find_node [c, ''cluster'', cg, mg] t = None"
        using find_node_append [of "[c, ''cluster'', cg]" "[mg]" t] None by (simp add: below)
      ultimately show ?thesis by (simp add: view_group_def groups)
    next
      case (Some gnode)
      then obtain gv where gv: "buildClusterGroup num ?m (go_index (map_of (buildConfig ?config)) [] cg) cg gnode = Some gv"
          "map_of groups cg = Some gv"
        using build_all_Some(2) [OF all, of cg gnode] assms(2) by (auto simp: map_of_entries)
      obtain mgs where mgs: "build_all (\<lambda>mg. buildManagementGroup num ?m
            (go_index (map_of (go_index (map_of (buildConfig ?config)) [] cg)) None mg) mg)
          (entries isManagementSystemKey (Some gnode)) = Some mgs" and "cgv_ManagementGroups gv = mgs"
        using gv(1) by (auto simp: buildClusterGroup_def split: bind_splits)
      then have vg: "view_group v cg mg = map_of mgs mg" by (simp add: view_group_def groups gv(2))
      have node: "child (Some gnode) mg = find_node [c, ''cluster'', cg, mg] t"
        using child_find [of "[c, ''cluster'', cg]" t mg] Some by (simp add: below)
      show ?thesis
      proof (cases "child (Some gnode) mg")
        case None
        then show ?thesis
          using build_all_Some(3) [OF mgs, of mg] by (simp add: node [symmetric] vg map_of_entries)
      next
        case (Some mnode)
        then show ?thesis
          using build_all_Some(2) [OF mgs, of mg mnode] assms(3)
          by (auto simp: node [symmetric] vg map_of_entries stored_config [OF assms(4)] config)
      qed
    qed
  qed
qed

text \<open>A role is in the view of a node when one of its two documents has a value.\<close>

definition shown_role :: "(json \<Rightarrow> json option) \<Rightarrow> bytes option \<Rightarrow> bytes option \<Rightarrow> RoleView option \<Rightarrow> bool" where
  "shown_role num actual health rv =
     (case rv of None \<Rightarrow> actual = None \<and> health = None
      | Some r \<Rightarrow> (actual, health) \<noteq> (None, None) \<and> ensureDetails num actual = Some (rv_Actual r)
          \<and> ensureDetails num health = Some (rv_Health r))"

lemma ensureDetails_None: "ensureDetails num b = Some None \<longleftrightarrow> b = None"
  by (auto simp: ensureDetails_def split: option.splits bytes.splits json.splits)

lemma buildNode_role:
  assumes "buildNode num m n node = Some nv" and "tree_wf node" and "\<not> isManagementSystemKey r"
  shows "shown_role num (valueOf (find_node [r, ''actual''] node)) (valueOf (find_node [r, ''health''] node)) (map_of (nv_Roles nv) r)"
proof -
  obtain roles where all: "build_all (buildRole num m) (entries isManagementSystemKey (Some node)) = Some roles"
    and nv: "nv_Roles nv = filter (\<lambda>(name, r). rv_Actual r \<noteq> None \<or> rv_Health r \<noteq> None) roles"
    using assms(1) by (auto simp: buildNode_def split: bind_splits)
  have "distinct (map fst roles)"
    using distinct_entries [of "Some node"] assms(2) build_all_Some(1) [OF all] by simp
  then have lookup: "map_of (nv_Roles nv) r = (case map_of roles r of None \<Rightarrow> None
      | Some v \<Rightarrow> if rv_Actual v \<noteq> None \<or> rv_Health v \<noteq> None then Some v else None)"
    unfolding nv by (rule map_of_filter_values)
  have below: "find_node [r, x] node = Option.bind (find_node [r] node) (find_node [x])" for x
    using find_node_append [of "[r]" "[x]" node] by simp
  show ?thesis
  proof (cases "find_node [r] node")
    case None
    then have "map_of roles r = None" using build_all_Some(3) [OF all, of r] by (simp add: map_of_entries child_Some)
    then show ?thesis by (simp add: lookup shown_role_def below None valueOf_def)
  next
    case (Some role)
    then obtain rv where rv: "buildRole num m r role = Some rv" "map_of roles r = Some rv"
      using build_all_Some(2) [OF all, of r role] assms(3) by (auto simp: map_of_entries child_Some)
    have docs: "ensureDetails num (valueOf (find_node [''actual''] role)) = Some (rv_Actual rv)"
        "ensureDetails num (valueOf (find_node [''health''] role)) = Some (rv_Health rv)"
      using rv(1) by (auto simp: buildRole_def child_Some split: bind_splits)
    then have "rv_Actual rv = None \<longleftrightarrow> valueOf (find_node [''actual''] role) = None"
        "rv_Health rv = None \<longleftrightarrow> valueOf (find_node [''health''] role) = None"
      using ensureDetails_None [of num] by (metis option.inject)+
    with docs show ?thesis by (simp add: lookup shown_role_def below Some rv(2))
  qed
qed

text \<open>Without a document of a role below it, a node is no container and its view has no role.\<close>

lemma container_iff:
  "looksLikeRoleContainer (Some node) \<longleftrightarrow>
     (\<exists>(r, role) \<in> set (entries isManagementSystemKey (Some node)). find_node [''actual''] role \<noteq> None \<or> find_node [''health''] role \<noteq> None)"
  by (auto simp: looksLikeRoleContainer_def list_ex_iff child_Some)

lemma no_container_no_role:
  assumes "\<not> looksLikeRoleContainer (Some node)" and "\<not> isManagementSystemKey r"
  shows "find_node [r, ''actual''] node = None" and "find_node [r, ''health''] node = None"
proof -
  have "find_node [x] role = None" if "find_node [r] node = Some role" "x \<in> {''actual'', ''health''}" for x role
  proof -
    have "(r, role) \<in> set (entries isManagementSystemKey (Some node))"
      using that(1) assms(2) map_of_entries [of isManagementSystemKey "Some node" r] by (auto simp: child_Some dest: map_of_SomeD)
    then show ?thesis using assms(1) that(2) by (auto simp: container_iff)
  qed
  then show "find_node [r, ''actual''] node = None" "find_node [r, ''health''] node = None"
    using find_node_append [of "[r]" "[''actual'']" node] find_node_append [of "[r]" "[''health'']" node]
    by (cases "find_node [r] node"; simp)+
qed

lemma shown_role_None [simp]: "shown_role num None None None"
  by (simp add: shown_role_def)

lemma filtered_nodes:
  assumes "tree_wf gnode" and "build_all (buildNode num m)
      (filter (\<lambda>(name, node). looksLikeRoleContainer (Some node)) (entries isManagementSystemKey (Some gnode))) = Some nodes"
    and "\<not> isManagementSystemKey n" and "\<not> isManagementSystemKey r"
  shows "shown_role num (valueOf (find_node [n, r, ''actual''] gnode)) (valueOf (find_node [n, r, ''health''] gnode))
    (Option.bind (map_of nodes n) (\<lambda>nv. map_of (nv_Roles nv) r))"
proof -
  let ?es = "entries isManagementSystemKey (Some gnode)"
  have "distinct (map fst ?es)" using distinct_entries [of "Some gnode"] assms(1) by simp
  from map_of_filter_values [OF this, of "\<lambda>node. looksLikeRoleContainer (Some node)" n] assms(3)
  have look: "map_of (filter (\<lambda>(name, node). looksLikeRoleContainer (Some node)) ?es) n =
      (case find_node [n] gnode of None \<Rightarrow> None | Some node \<Rightarrow> if looksLikeRoleContainer (Some node) then Some node else None)"
    by (simp add: map_of_entries child_Some)
  have below: "find_node [n, r, x] gnode = Option.bind (find_node [n] gnode) (find_node [r, x])" for x
    using find_node_append [of "[n]" "[r, x]" gnode] by simp
  show ?thesis
  proof (cases "find_node [n] gnode")
    case None
    then show ?thesis using build_all_Some(3) [OF assms(2), of n] by (simp add: look below valueOf_def)
  next
    case (Some node)
    have wf: "tree_wf node" by (rule find_node_wf [OF assms(1) Some])
    show ?thesis
    proof (cases "looksLikeRoleContainer (Some node)")
      case True
      then obtain nv where "buildNode num m n node = Some nv" "map_of nodes n = Some nv"
        using build_all_Some(2) [OF assms(2), of n node] by (auto simp: look Some)
      then show ?thesis using buildNode_role [of num m n node nv r] wf assms(4) by (simp add: below Some)
    next
      case False
      then show ?thesis
        using build_all_Some(3) [OF assms(2), of n] no_container_no_role [OF False assms(4)]
        by (simp add: look below Some valueOf_def)
    qed
  qed
qed

text \<open>
  The nodes of a group. When the id of the node is the id of the group, its roles are children of
  the group itself, as in the keys.
\<close>

lemma group_roles:
  assumes "buildManagementGroup num m cfg mg gnode = Some g" and "tree_wf gnode"
    and "\<not> isManagementSystemKey n" and "\<not> isManagementSystemKey r" and "n = mg \<Longrightarrow> find_node [mg] gnode = None"
  shows "shown_role num (valueOf (find_node ((if mg = n then [] else [n]) @ [r, ''actual'']) gnode))
    (valueOf (find_node ((if mg = n then [] else [n]) @ [r, ''health'']) gnode))
    (Option.bind (map_of (mgv_Nodes g) n) (\<lambda>nv. map_of (nv_Roles nv) r))"
proof -
  obtain nodes where all: "build_all (buildNode num m)
      (filter (\<lambda>(name, node). looksLikeRoleContainer (Some node)) (entries isManagementSystemKey (Some gnode))) = Some nodes"
    and nodes: "if looksLikeRoleContainer (Some gnode)
      then \<exists>nv. buildNode num m mg gnode = Some nv \<and> mgv_Nodes g = AList.update mg nv nodes else mgv_Nodes g = nodes"
    using assms(1) by (auto simp: buildManagementGroup_def split: bind_splits if_splits)
  show ?thesis
  proof (cases "n = mg")
    case False
    then have "map_of (mgv_Nodes g) n = map_of nodes n" using nodes by (auto simp: update_conv' split: if_splits)
    then show ?thesis using filtered_nodes [OF assms(2) all assms(3,4)] False by simp
  next
    case True
    show ?thesis
    proof (cases "looksLikeRoleContainer (Some gnode)")
      case container: True
      then show ?thesis using nodes buildNode_role [OF _ assms(2,4)] True by (auto simp: update_conv')
    next
      case container: False
      have absent: "n \<notin> fst ` set (entries isManagementSystemKey (Some gnode))"
        using assms(5) [OF True] True by (simp add: map_of_eq_None_iff [symmetric] map_of_entries child_Some)
      have "map_of (filter (\<lambda>(name, node). looksLikeRoleContainer (Some node)) (entries isManagementSystemKey (Some gnode))) n = None"
        using absent by (auto simp: map_of_eq_None_iff)
      then have "map_of nodes n = None" by (rule build_all_Some(3) [OF all])
      then show ?thesis
        using nodes container True no_container_no_role [OF container assms(4)] by (simp add: valueOf_def)
    qed
  qed
qed

section \<open>The view of a store\<close>

lemma entity_below:
  assumes "store_wf st" and "id_ok c" and "entity_ok e" and "entity_segs c e = p @ q" and "find_node p (root st) = Some node"
  shows "valueOf (find_node q (cloneNode node)) = Get st (entity_key c e)"
proof -
  have "tree_wf node" using assms(1,5) find_node_wf by (auto simp: store_wf_def)
  then have "valueOf (find_node q (cloneNode node)) = valueOf (find_node q node)" by (simp add: find_node_clone)
  also have "find_node q node = find_node (split (entity_key c e)) (root st)"
    using entity.split_key [of "(c, e)"] assms(2-5) by (simp add: find_node_append)
  also have "valueOf \<dots> = Get st (entity_key c e)"
    by (auto simp: Get_def findLocked_def valueOf_def split: option.splits)
  finally show ?thesis .
qed

lemma view_group_shown:
  assumes "store_wf st" and "view_of num s st = Some v" and "id_ok (clusterID s)" and "group_ok g" and "member_ok x"
    and "\<not> isManagementSystemKey x"
  shows "case find_node [clusterID s, ''cluster'', g, x] (root st) of
      None \<Rightarrow> view_group v g x = None
    | Some node \<Rightarrow> \<exists>m mv. buildManagementGroup num m (Get st (ManagementGroupConfig (clusterID s) g x)) x (cloneNode node) = Some mv
        \<and> view_group v g x = Some mv \<and> mgv_Config mv = Get st (ManagementGroupConfig (clusterID s) g x)
        \<and> mgv_Desired mv = Get st (Desired (clusterID s) g x)
        \<and> ensureDetails num (Get st (Actual (clusterID s) g x)) = Some (mgv_Actual mv)
        \<and> ensureDetails num (Get st (Health (clusterID s) g x)) = Some (mgv_Health mv)"
proof -
  let ?c = "clusterID s"
  have ids: "id_ok g" "id_ok x" "x \<noteq> ''_meta''" "\<not> isRootSystemKey g"
    using assms(4,5) by (auto simp: entity_ok_defs isRootSystemKey_def)
  have wf: "tree_wf (root st)" using assms(1) by (simp add: store_wf_def)
  note built = view_group_built [OF assms(2) [unfolded view_of_def] ids(4) assms(6) ids(3)]
  show ?thesis
  proof (cases "find_node [?c, ''cluster'', g, x] (root st)")
    case None
    then show ?thesis using built by (simp add: Snapshot_def find_node_clone [OF wf])
  next
    case (Some node)
    have config: "valueOf (find_node [?c, ''cluster'', ''config'', ''cluster_groups'', g, x] (Snapshot st))
        = Get st (ManagementGroupConfig ?c g x)"
      using entity_below [OF assms(1,3), of "EGroupConfig g x" "[]" _ "root st"] assms(4,5)
      by (simp add: Snapshot_def entity_segs_def)
    note below = entity_below [OF assms(1,3) _ _ Some]
    have docs: "valueOf (child (Some (cloneNode node)) ''desired'') = Get st (Desired ?c g x)"
        "valueOf (child (Some (cloneNode node)) ''actual'') = Get st (Actual ?c g x)"
        "valueOf (child (Some (cloneNode node)) ''health'') = Get st (Health ?c g x)"
      using below [of "EDesired g x" "[''desired'']"] below [of "EActual g x" "[''actual'']"]
        below [of "EHealth g x" "[''health'']"] assms(4,5) by (simp_all add: entity_segs_def child_Some)
    obtain m mv where mv: "buildManagementGroup num m (Get st (ManagementGroupConfig ?c g x)) x (cloneNode node) = Some mv"
        "view_group v g x = Some mv"
      using built unfolding config by (auto simp: Snapshot_def find_node_clone [OF wf] Some)
    have "mgv_Config mv = Get st (ManagementGroupConfig ?c g x)" "mgv_Desired mv = Get st (Desired ?c g x)"
        "ensureDetails num (Get st (Actual ?c g x)) = Some (mgv_Actual mv)"
        "ensureDetails num (Get st (Health ?c g x)) = Some (mgv_Health mv)"
      using mv(1) docs by (auto simp: buildManagementGroup_def split: bind_splits)
    then show ?thesis using mv by (auto simp: Some)
  qed
qed

lemma view_role_shown:
  assumes "store_wf st" and "view_of num s st = Some v" and "id_ok (clusterID s)" and "entity_strict (ERoleActual g x n r)"
    and "\<not> isManagementSystemKey x" and "n = x \<Longrightarrow> x \<notin> set (ListChildren st (ManagementGroup (clusterID s) g x))"
  shows "shown_role num (Get st (RoleActual (clusterID s) g x n r)) (Get st (RoleHealth (clusterID s) g x n r)) (view_role v g x n r)"
proof -
  let ?c = "clusterID s"
  have names: "group_ok g" "member_ok x" "id_ok n" "id_ok r" "\<not> isManagementSystemKey n" "\<not> isManagementSystemKey r"
      "entity_ok (ERoleActual g x n r)" "entity_ok (ERoleHealth g x n r)"
    using assms(4) by (auto simp: isManagementSystemKey_def)
  note shown = view_group_shown [OF assms(1-3) names(1,2) assms(5)]
  have absent: "Get st (entity_key ?c e) = None"
    if "find_node [?c, ''cluster'', g, x] (root st) = None" "e \<in> {ERoleActual g x n r, ERoleHealth g x n r}" for e
  proof -
    have "split (entity_key ?c e) = [?c, ''cluster'', g, x] @ drop 4 (entity_segs ?c e)"
      using entity.split_key [of "(?c, e)"] assms(3) names(7,8) that(2) by (auto simp: entity_segs_def)
    then show ?thesis
      using that(1) by (simp only: Get_def findLocked_def find_node_append) simp
  qed
  show ?thesis
  proof (cases "find_node [?c, ''cluster'', g, x] (root st)")
    case None
    have "view_group v g x = None" using shown by (simp add: None)
    then show ?thesis
      using absent [OF None, of "ERoleActual g x n r"] absent [OF None, of "ERoleHealth g x n r"] by (simp add: view_role_def)
  next
    case (Some node)
    obtain m mv where mv: "buildManagementGroup num m (Get st (ManagementGroupConfig ?c g x)) x (cloneNode node) = Some mv"
        "view_group v g x = Some mv" using shown by (auto simp: Some)
    have wf: "tree_wf node" using assms(1) find_node_wf [OF _ Some] by (simp add: store_wf_def)
    have "find_node [x] (cloneNode node) = None" if "n = x"
    proof -
      have "split (ManagementGroup ?c g x) = [?c, ''cluster'', g, x]"
        using names(1,2) assms(3) by (simp add: key_simps entity_ok_defs split_abs_path)
      then have "find_node ([?c, ''cluster'', g, x] @ [x]) (root st) = None"
        using assms(6) [OF that] by (simp add: in_ListChildren)
      then show ?thesis
        using Some find_node_append [of "[?c, ''cluster'', g, x]" "[x]" "root st"] by (simp add: find_node_clone [OF wf])
    qed
    from group_roles [OF mv(1) _ names(5,6) this] tree_wf_clone [OF wf]
    have "shown_role num (valueOf (find_node ((if x = n then [] else [n]) @ [r, ''actual'']) (cloneNode node)))
        (valueOf (find_node ((if x = n then [] else [n]) @ [r, ''health'']) (cloneNode node)))
        (Option.bind (map_of (mgv_Nodes mv) n) (\<lambda>nv. map_of (nv_Roles nv) r))" by blast
    moreover have "valueOf (find_node ((if x = n then [] else [n]) @ [r, ''actual'']) (cloneNode node)) = Get st (RoleActual ?c g x n r)"
      using entity_below [OF assms(1,3) names(7) _ Some] by (simp add: entity_segs_def)
    moreover have "valueOf (find_node ((if x = n then [] else [n]) @ [r, ''health'']) (cloneNode node)) = Get st (RoleHealth ?c g x n r)"
      using entity_below [OF assms(1,3) names(8) _ Some] by (simp add: entity_segs_def)
    ultimately show ?thesis by (simp add: view_role_def mv(2))
  qed
qed

section \<open>The streams\<close>

lemma view_of_notify [simp]: "view_of num s (st\<lparr>notify := b\<rparr>) = view_of num s st"
  by (simp add: view_of_def Snapshot_def)

lemma notify_Apply: "notify (Apply st e)"
  by (simp add: Apply_def Let_def)

text \<open>A client that waits while there is no token has been sent the view of the store.\<close>

definition stream_fresh :: "(json \<Rightarrow> json option) \<Rightarrow> Server \<Rightarrow> StateStore \<Rightarrow> Stream \<Rightarrow> bool" where
  "stream_fresh num s st c \<longleftrightarrow> sending c \<or> notify st \<or>
     (\<exists>v. view_of num s st = Some v \<and> (json_state_view v = None \<or> last_data c = json_state_view v))"

lemma single_stream:
  assumes "stream_reaches num s {i} st0 st cs"
  shows "(\<forall>j. j \<noteq> i \<longrightarrow> cs j = None) \<and> (\<forall>c. cs i = Some c \<longrightarrow> stream_fresh num s st c)"
  using assms
proof (induction rule: stream_reaches.induct)
  case (send st cs j c)
  have fresh: "stream_fresh num s st c'" if "send_view num s st c = Some c'" for c'
  proof -
    obtain view where "view_of num s st = Some view" "c' = (case json_state_view view of
        None \<Rightarrow> c\<lparr>sending := False\<rparr> | Some j \<Rightarrow> c\<lparr>sending := False, last_data := Some j\<rparr>)"
      using \<open>send_view num s st c = Some c'\<close> by (auto simp: send_view_def)
    then show ?thesis by (cases "json_state_view view") (simp_all add: stream_fresh_def)
  qed
  have "j = i" using send by (metis option.distinct(1))
  then show ?case using send fresh by (auto split: if_splits)
qed (auto simp: stream_fresh_def notify_Apply split: if_splits)

text \<open>
  With two clients this fails: the one token wakes one of them, and the other waits with the
  view of the store before the change.
\<close>

lemma second_stream_stale:
  assumes "view_of num s st = Some v" and "json_state_view v = Some old" and "\<not> notify st"
    and "view_of num s (Apply st e) = Some v'" and "json_state_view v' = Some new"
  shows "\<exists>st' cs. stream_reaches num s {0, 1} st st' cs \<and> \<not> notify st' \<and> view_of num s st' = Some v'
    \<and> cs 0 = Some \<lparr>sending = False, last_data = Some new\<rparr> \<and> cs 1 = Some \<lparr>sending = False, last_data = Some old\<rparr>"
proof -
  let ?run = "stream_reaches num s {0, 1} st"
  let ?old = "\<lparr>sending = False, last_data = Some old\<rparr>"
  have sent: "send_view num s st \<lparr>sending = True, last_data = None\<rparr> = Some ?old"
    using assms(1,2) by (simp add: send_view_def)
  have both: "?run st ((\<lambda>_. None)(0 \<mapsto> ?old, 1 \<mapsto> ?old))"
  proof -
    have "?run st ((\<lambda>_. None)(0 \<mapsto> \<lparr>sending = True, last_data = None\<rparr>))"
      by (rule stream_reaches.connect [OF stream_reaches.start]) simp_all
    from stream_reaches.send [where i = 0, OF this] have "?run st ((\<lambda>_. None)(0 \<mapsto> ?old))" by (simp add: sent)
    from stream_reaches.connect [where i = 1, OF this]
    have "?run st ((\<lambda>_. None)(0 \<mapsto> ?old, 1 \<mapsto> \<lparr>sending = True, last_data = None\<rparr>))" by simp
    from stream_reaches.send [where i = 1, OF this] show ?thesis by (simp add: sent)
  qed
  from stream_reaches.wake [where i = 0 and c = ?old, OF stream_reaches.change [OF both, of e]] notify_Apply
  have "?run (Apply st e\<lparr>notify := False\<rparr>) ((\<lambda>_. None)(0 \<mapsto> ?old\<lparr>sending := True\<rparr>, 1 \<mapsto> ?old))"
    by (simp add: fun_upd_twist)
  from stream_reaches.send [where i = 0 and c = "?old\<lparr>sending := True\<rparr>", OF this] assms(4,5)
  have "?run (Apply st e\<lparr>notify := False\<rparr>)
      ((\<lambda>_. None)(0 \<mapsto> \<lparr>sending = False, last_data = Some new\<rparr>, 1 \<mapsto> ?old))"
    by (simp add: send_view_def fun_upd_twist)
  then show ?thesis
    using assms(4) by (intro exI [of _ "Apply st e\<lparr>notify := False\<rparr>"] exI [of _ "(\<lambda>_. None)(0 \<mapsto> \<lparr>sending = False, last_data = Some new\<rparr>, 1 \<mapsto> ?old)"]) simp
qed

text \<open>A stored \<^verbatim>\<open>null\<close> where the view adds details: the handlers panic.\<close>

lemma null_document_panics:
  assumes "store_wf st" and "id_ok (clusterID s)" and "group_ok g" and "member_ok x" and "\<not> isManagementSystemKey x"
    and "Get st (Actual (clusterID s) g x) = Some (JSON JNull)"
  shows "handleState num s st = None"
proof (rule ccontr)
  assume "handleState num s st \<noteq> None"
  then obtain v where v: "view_of num s st = Some v" by (auto simp: handleState_def)
  have "find_node [clusterID s, ''cluster'', g, x] (root st) \<noteq> None"
  proof
    assume none: "find_node [clusterID s, ''cluster'', g, x] (root st) = None"
    have "split (Actual (clusterID s) g x) = [clusterID s, ''cluster'', g, x] @ [''actual'']"
      using entity.split_key [of "(clusterID s, EActual g x)"] assms(2-4) by (simp add: entity_segs_def)
    then have "Get st (Actual (clusterID s) g x) = None"
      using none by (simp only: Get_def findLocked_def find_node_append) simp
    then show False using assms(6) by simp
  qed
  with view_group_shown [OF assms(1) v assms(2-5)] assms(6) show False
    by (auto simp: ensureDetails_def)
qed

section \<open>The response is well formed\<close>

text \<open>The values of a tree: none, or JSON other than \<^verbatim>\<open>null\<close>. Every operation of the store keeps this.\<close>

definition fine_value :: "bytes \<Rightarrow> bool" where
  "fine_value v \<longleftrightarrow> v = no_bytes \<or> json_valid v \<and> v \<noteq> JSON JNull"

definition fine_tree :: "TreeNode \<Rightarrow> bool" where
  "fine_tree t \<longleftrightarrow> (\<forall>p. fine_value (value_at t p))"

lemma fine_normalized: "b \<noteq> JSON JNull \<Longrightarrow> fine_value (normalizeJSON b)"
  by (cases b) (simp_all add: fine_value_def)

lemma fine_tree_insertLocked: "b \<noteq> JSON JNull \<Longrightarrow> fine_tree (root s) \<Longrightarrow> fine_tree (root (insertLocked s k b))"
  by (simp add: fine_tree_def insertLocked_def value_at_insert fine_normalized)

lemma fine_tree_Apply:
  "ev_Type e = EventDelete \<or> ev_Value e \<noteq> JSON JNull \<Longrightarrow> fine_tree (root s) \<Longrightarrow> fine_tree (root (Apply s e))"
  by (cases "ev_Type e") (simp_all add: Apply_def Let_def fine_tree_insertLocked, simp add: fine_tree_def deleteLocked_def value_at_delete fine_value_def)

lemma fine_tree_LoadSnapshot:
  assumes "\<forall>b \<in> snd ` set items. b \<noteq> JSON JNull"
  shows "fine_tree (root (LoadSnapshot s items r))"
proof -
  have "fine_tree (root (for_each (\<lambda>(key, b) s. insertLocked s key b) items (s\<lparr>root := empty_root\<rparr>)))"
    by (rule for_each_invariant [where P = "\<lambda>s. fine_tree (root s)"])
      (use assms in \<open>auto simp: fine_tree_insertLocked\<close>, simp add: fine_tree_def empty_root_def fine_value_def)
  then show ?thesis by (simp add: LoadSnapshot_def Let_def)
qed

lemma value_at_clone: "tree_wf t \<Longrightarrow> value_at (cloneNode t) p = value_at t p"
  by (simp add: value_at_def find_node_clone split: option.splits)

lemma fine_tree_child: "fine_tree t \<Longrightarrow> child (Some t) x = Some c \<Longrightarrow> fine_tree c"
proof -
  assume "fine_tree t" and "child (Some t) x = Some c"
  then have "fine_value (value_at t (x # p))" and "find_node [x] t = Some c" for p
    by (simp_all add: fine_tree_def child_Some)
  then show "fine_tree c"
    using find_node_append [of "[x]" _ t] by (simp add: fine_tree_def value_at_def)
qed

text \<open>A raw message the encoder accepts.\<close>

definition raw_ok :: "bytes option \<Rightarrow> bool" where
  "raw_ok b \<longleftrightarrow> (case b of None \<Rightarrow> True | Some v \<Rightarrow> json_valid v)"

lemma raw_ok_json: "raw_ok b \<Longrightarrow> json_raw b \<noteq> None"
  by (auto simp: raw_ok_def json_raw_def split: option.splits bytes.splits)

lemma raw_ok_omit: "raw_ok b \<Longrightarrow> omit_raw name b \<noteq> None"
  by (auto simp: omit_raw_def dest: raw_ok_json)

lemma fine_valueOf: "fine_tree t \<Longrightarrow> raw_ok (valueOf (child (Some t) x)) \<and> valueOf (child (Some t) x) \<noteq> Some (JSON JNull)"
proof -
  assume "fine_tree t"
  then have "fine_value (value_at t [x])" by (simp add: fine_tree_def)
  then show ?thesis
    by (auto simp: child_Some valueOf_def value_at_def fine_value_def raw_ok_def split: option.splits)
qed

lemma fine_details: "raw_ok b \<Longrightarrow> b \<noteq> Some (JSON JNull) \<Longrightarrow> \<exists>d. ensureDetails num b = Some d \<and> raw_ok d"
  by (auto simp: ensureDetails_def raw_ok_def split: option.splits bytes.splits json.splits)

lemma in_entries: "(x, c) \<in> set (entries skip node) \<Longrightarrow> child node x = Some c"
  by (auto simp: entries_def split: option.splits)

text \<open>Loops over children that are well formed.\<close>

lemma build_all_fine:
  assumes "\<And>x c. (x, c) \<in> set xs \<Longrightarrow> \<exists>v. f x c = Some v \<and> P v"
  shows "\<exists>ys. build_all f xs = Some ys \<and> (\<forall>(x, v) \<in> set ys. P v)"
  using assms
proof (induction xs)
  case (Cons a xs)
  obtain x c where a: "a = (x, c)" by fastforce
  obtain v where "f x c = Some v" "P v" using Cons.prems [of x c] a by auto
  moreover obtain ys where "build_all f xs = Some ys" "\<forall>(x, v) \<in> set ys. P v" using Cons by auto
  ultimately show ?case by (simp add: build_all_def a)
qed (simp add: build_all_def)

lemma json_entries_fine: "\<forall>(x, v) \<in> set kvs. f v \<noteq> None \<Longrightarrow> json_entries f kvs \<noteq> None"
proof -
  have "\<forall>(x, v) \<in> set ys. f v \<noteq> None \<Longrightarrow> those (map (\<lambda>(k, v). map_option (Pair k) (f v)) ys) \<noteq> None" for ys
    by (induction ys) auto
  from this [of "sort_key fst kvs"] show "\<forall>(x, v) \<in> set kvs. f v \<noteq> None \<Longrightarrow> json_entries f kvs \<noteq> None"
    by (simp add: json_entries_def)
qed

lemma omit_entries_fine: "\<forall>(x, v) \<in> set kvs. f v \<noteq> None \<Longrightarrow> omit_entries name f kvs \<noteq> None"
  using json_entries_fine [of kvs f] by (simp add: omit_entries_def)

text \<open>The hierarchy of a well-formed tree, from the roles up: it is built, and it has a JSON.\<close>

lemma buildRole_fine:
  assumes "fine_tree t"
  shows "\<exists>v. buildRole num m r t = Some v \<and> json_role_view v \<noteq> None"
proof -
  obtain a h where "ensureDetails num (valueOf (child (Some t) ''actual'')) = Some a" "raw_ok a"
      "ensureDetails num (valueOf (child (Some t) ''health'')) = Some h" "raw_ok h"
    using fine_details fine_valueOf [OF assms] by metis
  then show ?thesis
    using raw_ok_omit [of a "''actual''"] raw_ok_omit [of h "''health''"] by (auto simp: buildRole_def json_role_view_def)
qed

lemma buildNode_fine:
  assumes "fine_tree t"
  shows "\<exists>v. buildNode num m n t = Some v \<and> json_node_view v \<noteq> None"
proof -
  have "\<exists>v. buildRole num m x c = Some v \<and> json_role_view v \<noteq> None"
    if "(x, c) \<in> set (entries isManagementSystemKey (Some t))" for x c
    by (rule buildRole_fine [OF fine_tree_child [OF assms in_entries [OF that]]])
  from build_all_fine [of _ "buildRole num m" "\<lambda>v. json_role_view v \<noteq> None", OF this] obtain roles where
    roles: "build_all (buildRole num m) (entries isManagementSystemKey (Some t)) = Some roles"
      "\<forall>(x, v) \<in> set roles. json_role_view v \<noteq> None" by blast
  then have "omit_entries ''roles'' json_role_view
      (filter (\<lambda>(name, r). rv_Actual r \<noteq> None \<or> rv_Health r \<noteq> None) roles) \<noteq> None"
    by (intro omit_entries_fine) auto
  then show ?thesis using roles(1) by (auto simp: buildNode_def json_node_view_def)
qed

lemma buildManagementGroup_fine:
  assumes "fine_tree t" and "raw_ok config"
  shows "\<exists>v. buildManagementGroup num m config mg t = Some v \<and> json_group_view v \<noteq> None"
proof -
  obtain a h where docs: "ensureDetails num (valueOf (child (Some t) ''actual'')) = Some a" "raw_ok a"
      "ensureDetails num (valueOf (child (Some t) ''health'')) = Some h" "raw_ok h" "raw_ok (valueOf (child (Some t) ''desired''))"
    using fine_details fine_valueOf [OF assms(1)] by metis
  let ?es = "filter (\<lambda>(name, node). looksLikeRoleContainer (Some node)) (entries isManagementSystemKey (Some t))"
  have "\<exists>v. buildNode num m x c = Some v \<and> json_node_view v \<noteq> None" if "(x, c) \<in> set ?es" for x c
    using that by (intro buildNode_fine fine_tree_child [OF assms(1), of x]) (auto dest: in_entries)
  from build_all_fine [of _ "buildNode num m" "\<lambda>v. json_node_view v \<noteq> None", OF this] obtain nodes where
    nodes: "build_all (buildNode num m) ?es = Some nodes" "\<forall>(x, v) \<in> set nodes. json_node_view v \<noteq> None" by blast
  obtain nv where nv: "buildNode num m mg t = Some nv" "json_node_view nv \<noteq> None" using buildNode_fine [OF assms(1)] by blast
  define nodes' where "nodes' = (if looksLikeRoleContainer (Some t) then AList.update mg nv nodes else nodes)"
  have "\<forall>(x, v) \<in> set nodes'. json_node_view v \<noteq> None"
    using nodes(2) nv(2) set_update_subset [of mg nv nodes] by (auto simp: nodes'_def split: if_splits)
  then have "omit_entries ''nodes'' json_node_view nodes' \<noteq> None" by (rule omit_entries_fine)
  moreover have "buildManagementGroup num m config mg t = Some \<lparr>mgv_ID = mg, mgv_Name = mg, mgv_Config = config,
      mgv_Desired = valueOf (child (Some t) ''desired''), mgv_Actual = a, mgv_Health = h, mgv_Nodes = nodes'\<rparr>"
    using docs nodes(1) nv(1) by (simp add: buildManagementGroup_def nodes'_def)
  ultimately show ?thesis
    using raw_ok_omit [OF assms(2), of "''config''"] raw_ok_omit [OF docs(5), of "''desired''"]
      raw_ok_omit [OF docs(2), of "''actual''"] raw_ok_omit [OF docs(4), of "''health''"]
    by (auto simp: json_group_view_def)
qed

lemma buildClusterGroup_fine:
  assumes "fine_tree t" and "\<forall>b \<in> snd ` set config. raw_ok b"
  shows "\<exists>v. buildClusterGroup num m config cg t = Some v \<and> json_cluster_group_view v \<noteq> None"
proof -
  have config: "raw_ok (go_index (map_of config) None mg)" for mg
    using assms(2) by (auto simp: go_index_def raw_ok_def split: option.splits dest!: map_of_SomeD)
  have "\<exists>v. buildManagementGroup num m (go_index (map_of config) None x) x c = Some v \<and> json_group_view v \<noteq> None"
    if "(x, c) \<in> set (entries isManagementSystemKey (Some t))" for x c
    by (rule buildManagementGroup_fine [OF fine_tree_child [OF assms(1) in_entries [OF that]] config])
  from build_all_fine [of _ "\<lambda>mg. buildManagementGroup num m (go_index (map_of config) None mg) mg"
      "\<lambda>v. json_group_view v \<noteq> None", OF this] obtain mgs where
    "build_all (\<lambda>mg. buildManagementGroup num m (go_index (map_of config) None mg) mg)
       (entries isManagementSystemKey (Some t)) = Some mgs" "\<forall>(x, v) \<in> set mgs. json_group_view v \<noteq> None" by blast
  then show ?thesis
    using json_entries_fine [of mgs json_group_view] by (auto simp: buildClusterGroup_def json_cluster_group_view_def)
qed

definition fine_node :: "TreeNode option \<Rightarrow> bool" where
  "fine_node node \<longleftrightarrow> (case node of None \<Rightarrow> True | Some t \<Rightarrow> fine_tree t)"

lemma fine_node_child: "fine_node node \<Longrightarrow> fine_node (child node x)"
  using fine_tree_child by (auto simp: fine_node_def child_def split: option.splits)

lemma fine_node_valueOf: "fine_node node \<Longrightarrow> raw_ok (valueOf (child node x))"
  using fine_valueOf by (cases node) (auto simp: fine_node_def child_def valueOf_def raw_ok_def)

lemma buildConfig_fine:
  assumes "fine_node c" and "(cg, m) \<in> set (buildConfig c)"
  shows "\<forall>b \<in> snd ` set m. raw_ok b"
proof -
  obtain node where node: "(cg, node) \<in> set (entries (\<lambda>_. False) (child c ''cluster_groups''))"
    and m: "m = map (\<lambda>mg. (mg, valueOf (child (Some node) mg))) (filter (\<lambda>mg. mg \<noteq> ''_meta'') (sortedChildNames (Some node)))"
    using assms(2) by (auto simp: buildConfig_def Let_def split: if_splits)
  have "fine_node (Some node)" using in_entries [OF node] fine_node_child [OF fine_node_child [OF assms(1)]] by metis
  then show ?thesis by (auto simp: m intro: fine_node_valueOf)
qed

lemma buildFlatValueMap_fine:
  assumes "fine_node node"
  shows "\<forall>(x, b) \<in> set (buildFlatValueMap node). json_raw (Some b) \<noteq> None"
proof -
  have "json_raw (Some b) \<noteq> None" if "(x, b) \<in> set (buildFlatValueMap node)" for x b
  proof -
    have "valueOf (child node x) = Some b" using that by (auto simp: buildFlatValueMap_def split: option.splits)
    then show ?thesis using raw_ok_json [OF fine_node_valueOf [OF assms, of x]] by simp
  qed
  then show ?thesis by blast
qed

lemma BuildStateView_fine:
  assumes "fine_tree t"
  shows "\<exists>v. BuildStateView num i rdy rv t = Some v \<and> json_state_view v \<noteq> None"
proof -
  have top: "fine_node (child (child (Some t) i) ''cluster'')"
    using assms by (intro fine_node_child) (simp add: fine_node_def)
  show ?thesis
  proof (cases "child (child (Some t) i) ''cluster''")
    case None
    then show ?thesis
      by (simp add: BuildStateView_def empty_cluster_def json_state_view_def json_cluster_view_def omit_raw_def omit_entries_def json_entries_def)
  next
    case (Some node)
    let ?config = "child (Some node) ''config''"
    have fine: "fine_node (Some node)" using top Some by simp
    then have "fine_tree node" by (simp add: fine_node_def)
    have config: "\<forall>b \<in> snd ` set m. raw_ok b" if "(cg, m) \<in> set (buildConfig ?config)" for cg m
      by (rule buildConfig_fine [OF fine_node_child [OF fine] that])
    have "\<forall>b \<in> snd ` set (go_index (map_of (buildConfig ?config)) [] cg). raw_ok b" for cg
    proof (cases "map_of (buildConfig ?config) cg")
      case (Some m)
      then show ?thesis using config [OF map_of_SomeD [OF Some]] by (simp add: go_index_def)
    qed (simp add: go_index_def)
    then have "\<exists>v. buildClusterGroup num (buildViewMeta ?config) (go_index (map_of (buildConfig ?config)) [] x) x c = Some v
        \<and> json_cluster_group_view v \<noteq> None" if "(x, c) \<in> set (entries isRootSystemKey (Some node))" for x c
      by (rule buildClusterGroup_fine [OF fine_tree_child [OF \<open>fine_tree node\<close> in_entries [OF that]]])
    from build_all_fine [of _ "\<lambda>cg. buildClusterGroup num (buildViewMeta ?config) (go_index (map_of (buildConfig ?config)) [] cg) cg"
        "\<lambda>v. json_cluster_group_view v \<noteq> None", OF this] obtain groups where
      groups: "build_all (\<lambda>cg. buildClusterGroup num (buildViewMeta ?config) (go_index (map_of (buildConfig ?config)) [] cg) cg)
         (entries isRootSystemKey (Some node)) = Some groups" "\<forall>(x, v) \<in> set groups. json_cluster_group_view v \<noteq> None" by blast
    have maps: "json_entries json_raw m \<noteq> None" if "(cg, m) \<in> set (buildConfig ?config)" for cg m
    proof (rule json_entries_fine)
      have "json_raw b \<noteq> None" if "(x, b) \<in> set m" for x b
        using config [OF \<open>(cg, m) \<in> _\<close>] that by (intro raw_ok_json) force
      then show "\<forall>(x, v) \<in> set m. json_raw v \<noteq> None" by blast
    qed
    then have "omit_entries ''config'' (json_entries json_raw) (buildConfig ?config) \<noteq> None"
      by (intro omit_entries_fine) blast
    moreover have "omit_entries ''registry'' (\<lambda>b. json_raw (Some b)) (buildFlatValueMap (child (Some node) ''registry'')) \<noteq> None"
        "omit_entries ''session'' (\<lambda>b. json_raw (Some b)) (buildFlatValueMap (child (Some node) ''session'')) \<noteq> None"
      by (intro omit_entries_fine buildFlatValueMap_fine fine_node_child fine)+
    moreover have "json_entries json_cluster_group_view groups \<noteq> None" by (rule json_entries_fine [OF groups(2)])
    moreover have "omit_raw ''leadership'' (valueOf (child (Some node) ''leadership'')) \<noteq> None"
      by (intro raw_ok_omit fine_node_valueOf fine)
    ultimately show ?thesis
      using groups(1) by (auto simp: BuildStateView_def Some Let_def json_state_view_def json_cluster_view_def)
  qed
qed

lemma fine_tree_clone: "store_wf st \<Longrightarrow> fine_tree (root st) \<Longrightarrow> fine_tree (Snapshot st)"
  by (simp add: fine_tree_def Snapshot_def store_wf_def value_at_clone)

lemma handleState_fine:
  assumes "store_wf st" and "fine_tree (root st)"
  shows "\<exists>j. handleState num s st = Some \<lparr>r_Status = 200, r_Headers = [(''Content-Type'', ''application/json'')], r_JSON = Some j\<rparr>"
  using BuildStateView_fine [OF fine_tree_clone [OF assms], of num "clusterID s" "ready st" "revision st"]
  by (auto simp: handleState_def view_of_def)

section \<open>Properties\<close>

definition view_server :: Server where
  "view_server = \<lparr>addr = '':5080'', clusterID = ''c'', token = ''t''\<rparr>"

lemma example_view: "view_of Some view_server (example_store example_items) \<noteq> None"
  by code_simp

lemma example_view_json: "Option.bind (view_of Some view_server (example_store example_items)) json_state_view \<noteq> None"
  by code_simp

text \<open>
  C17: the page shows the store. In the view of a store a management group is listed when the
  store lists it, with the stored configuration and desired document and, with details added,
  the stored actual and health documents; a role of a node is shown when it has a stored
  document, with its documents. Names of group documents are not the ids of groups, nodes or
  roles, and no node of a group that is named like the group is stored below it.
\<close>

theorem state_view_shows_store:
  assumes "store_wf st" and "view_of num s st = Some v" and "clusterID s = c" and "id_ok c"
    and "entity_strict (ERoleActual g x n r)" and "\<not> isManagementSystemKey x"
    and "n = x \<Longrightarrow> x \<notin> set (ListChildren st (ManagementGroup c g x))"
  shows "(case view_group v g x of
      None \<Rightarrow> x \<notin> set (ListChildren st (ClusterGroup c g))
    | Some mv \<Rightarrow> x \<in> set (ListChildren st (ClusterGroup c g))
        \<and> mgv_Config mv = Get st (ManagementGroupConfig c g x) \<and> mgv_Desired mv = Get st (Desired c g x)
        \<and> ensureDetails num (Get st (Actual c g x)) = Some (mgv_Actual mv)
        \<and> ensureDetails num (Get st (Health c g x)) = Some (mgv_Health mv))
    \<and> shown_role num (Get st (RoleActual c g x n r)) (Get st (RoleHealth c g x n r)) (view_role v g x n r)"
proof -
  have ids: "group_ok g" "member_ok x" using assms(5) by auto
  have "split (ClusterGroup c g) = [c, ''cluster'', g]"
    using ids(1) assms(4) by (simp add: key_simps entity_ok_defs split_abs_path)
  then have "x \<in> set (ListChildren st (ClusterGroup c g)) \<longleftrightarrow> find_node [c, ''cluster'', g, x] (root st) \<noteq> None"
    by (simp add: in_ListChildren)
  then show ?thesis
    using view_group_shown [OF assms(1,2) _ ids assms(6)] view_role_shown [OF assms(1,2) _ assms(5,6)] assms(3,4,7)
    by (auto split: option.splits)
qed

theorem state_view_shows_store_witness:
  "\<exists>v mv. view_of Some view_server (example_store example_items) = Some v \<and> view_group v ''g'' ''x'' = Some mv
    \<and> mgv_Desired mv = Some (desired_json ''active'' True)"
proof -
  obtain v where v: "view_of Some view_server (example_store example_items) = Some v" using example_view by auto
  have ok: "store_wf (example_store example_items)" by (rule store_wf_example)
  have strict: "entity_strict (ERoleActual ''g'' ''x'' ''n'' ''app'')" "\<not> isManagementSystemKey ''x''"
    by (simp_all add: entity_ok_defs isManagementSystemKey_def)
  have "''x'' \<in> set (ListChildren (example_store example_items) (ClusterGroup ''c'' ''g''))"
    "Get (example_store example_items) (Desired ''c'' ''g'' ''x'') = Some (desired_json ''active'' True)" by code_simp+
  with state_view_shows_store [OF ok v _ id_ok_c strict] show ?thesis
    using v by (auto simp: view_server_def split: option.splits)
qed

text \<open>
  C16: the state is always served. Unless etcd holds a bare \<^verbatim>\<open>null\<close>, the handler of the state
  answers every request, whatever else was stored and in whatever order keys came and went,
  with a body: it never panics and the view always has a JSON, because every value the store
  takes becomes JSON.
\<close>

theorem state_is_served:
  assumes "\<forall>b \<in> snd ` set items. b \<noteq> JSON JNull"
    and "\<forall>ev \<in> set evs. ev_Type ev = EventDelete \<or> ev_Value ev \<noteq> JSON JNull"
  shows "\<exists>j. handleState num s (fold (\<lambda>ev st. Apply st ev) evs (LoadSnapshot st items r)) =
    Some \<lparr>r_Status = 200, r_Headers = [(''Content-Type'', ''application/json'')], r_JSON = Some j\<rparr>"
proof -
  have "store_wf (fold (\<lambda>ev st. Apply st ev) evs st) \<and> fine_tree (root (fold (\<lambda>ev st. Apply st ev) evs st))"
    if "store_wf st" "fine_tree (root st)" for st
    using assms(2) that by (induction evs arbitrary: st) (simp_all add: store_wf_Apply fine_tree_Apply)
  then show ?thesis
    using handleState_fine store_wf_LoadSnapshot fine_tree_LoadSnapshot [OF assms(1)] by blast
qed

theorem state_is_served_witness:
  "\<exists>j. handleState Some view_server (fold (\<lambda>ev st. Apply st ev)
      [\<lparr>ev_Type = EventPut, ev_Key = ''/c/cluster/g/x/actual'', ev_Value = Text ''no json'', ev_Revision = 8\<rparr>,
       \<lparr>ev_Type = EventDelete, ev_Key = ''/c/cluster/g/x'', ev_Value = no_bytes, ev_Revision = 9\<rparr>]
      (LoadSnapshot new_store [(''/c/cluster/g'', Text ''?'')] 7)) =
    Some \<lparr>r_Status = 200, r_Headers = [(''Content-Type'', ''application/json'')], r_JSON = Some j\<rparr>"
  by (rule state_is_served) simp_all

text \<open>
  C34: a single stream is up to date. While only one client of the event stream is connected at a
  time, whatever the watch loop applies, a client that waits and has no notification to take
  was last sent the view of the store as it is.
\<close>

theorem single_stream_up_to_date:
  assumes "stream_reaches num s {i} st0 st cs" and "cs i = Some c" and "\<not> sending c" and "\<not> notify st"
    and "view_of num s st = Some v" and "json_state_view v = Some data"
  shows "last_data c = Some data"
  using single_stream [OF assms(1)] assms(2-6) by (auto simp: stream_fresh_def)

theorem single_stream_up_to_date_witness:
  "\<exists>st cs c v. stream_reaches Some view_server {0} (example_store example_items) st cs \<and> cs 0 = Some c
    \<and> view_of Some view_server st = Some v \<and> last_data c = json_state_view v"
proof -
  let ?st = "example_store example_items"
  let ?run = "stream_reaches Some view_server {0} ?st"
  obtain v data where v: "view_of Some view_server ?st = Some v" "json_state_view v = Some data"
    using example_view_json by (auto simp: bind_eq_Some_conv)
  let ?c = "\<lparr>sending = False, last_data = Some data\<rparr>"
  have sent: "send_view Some view_server st c = Some ?c" if "view_of Some view_server st = Some v" for st c
    using that v(2) by (simp add: send_view_def)
  have "?run ?st ((\<lambda>_. None)(0 \<mapsto> \<lparr>sending = True, last_data = None\<rparr>))"
    by (rule stream_reaches.connect [OF stream_reaches.start]) simp_all
  from stream_reaches.send [where i = 0, OF this] have "?run ?st ((\<lambda>_. None)(0 \<mapsto> ?c))" by (simp add: sent v(1))
  from stream_reaches.wake [where i = 0 and c = ?c, OF this]
  have "?run (?st\<lparr>notify := False\<rparr>) ((\<lambda>_. None)(0 \<mapsto> ?c\<lparr>sending := True\<rparr>))"
    by (simp add: example_store_def LoadSnapshot_def Let_def)
  from stream_reaches.send [where i = 0, OF this]
  have run: "?run (?st\<lparr>notify := False\<rparr>) ((\<lambda>_. None)(0 \<mapsto> ?c))" by (simp add: sent v(1))
  from single_stream_up_to_date [OF this, of ?c v data] v
  show ?thesis using run by (intro exI [of _ "?st\<lparr>notify := False\<rparr>"] exI [of _ "(\<lambda>_. None)(0 \<mapsto> ?c)"] exI [of _ ?c] exI [of _ v]) simp
qed

end
