(* ===== verification/Routing.thy ===== *)
theory Routing
  imports View
begin

text \<open>
  \<^verbatim>\<open>Server.Run\<close> of \<^verbatim>\<open>internal/api/server.go\<close> and the handlers of \<^verbatim>\<open>internal/web/page.go\<close>: which handler
  answers a path. The multiplexer is the \<^verbatim>\<open>ServeMux\<close> of Go 1.23 for the patterns that \<^verbatim>\<open>Run\<close>
  registers. The page and the assets have no content here; the files are a parameter.
\<close>

section \<open>The multiplexer\<close>

text \<open>\<^verbatim>\<open>cleanPath\<close>.\<close>

definition clean_path :: "string \<Rightarrow> string" where
  "clean_path p =
     (if p = [] then [slash]
      else
        let np = path_clean (if hd p = slash then p else slash # p)
        in if last p = slash \<and> np \<noteq> [slash] then np @ [slash] else np)"

text \<open>\<^verbatim>\<open>url.PathUnescape\<close>; \<open>None\<close> is its error.\<close>

definition unhex :: "char \<Rightarrow> nat option" where
  "unhex c =
     (let b = byte c
      in if 48 \<le> b \<and> b \<le> 57 then Some (b - 48)
         else if 97 \<le> b \<and> b \<le> 102 then Some (b - 87)
         else if 65 \<le> b \<and> b \<le> 70 then Some (b - 55) else None)"

fun unescape :: "string \<Rightarrow> string option" where
  "unescape [] = Some []"
| "unescape (c # s) =
     (if c \<noteq> CHR ''%'' then map_option ((#) c) (unescape s)
      else (case s of
          a # b # s' \<Rightarrow>
            (case (unhex a, unhex b) of
               (Some x, Some y) \<Rightarrow> map_option ((#) (char_of (16 * x + y))) (unescape s')
             | _ \<Rightarrow> None)
        | _ \<Rightarrow> None))"

definition segment :: "string \<Rightarrow> string" where
  "segment x = (case unescape x of None \<Rightarrow> x | Some y \<Rightarrow> y)"

datatype handler = AssetsFiles | WebPage | StateHandler | StreamHandler | CommandsHandler

text \<open>The handler of a path. Only the empty path has none, and only \<^verbatim>\<open>CONNECT\<close> keeps it.\<close>

definition match_path :: "string \<Rightarrow> handler option" where
  "match_path p =
     (if p = [] then None
      else
        let segs = map segment (split_slash (tl p))
        in if segs = [''api'', ''v1'', ''state''] then Some StateHandler
           else if segs = [''api'', ''v1'', ''stream''] then Some StreamHandler
           else if segs = [''api'', ''v1'', ''commands''] then Some CommandsHandler
           else if 2 \<le> length segs \<and> hd segs = ''assets'' then Some AssetsFiles
           else Some WebPage)"

text \<open>
  A request for \<^verbatim>\<open>/assets\<close> is sent to the subtree, and any other path to its clean form.
\<close>

datatype routed = Handler handler | Redirect string | NoHandler

definition route :: "string \<Rightarrow> string \<Rightarrow> routed" where
  "route meth path =
     (let p = (if meth = ''CONNECT'' then path else clean_path path)
      in if p \<noteq> [] \<and> map segment (split_slash (tl p)) = [''assets''] then Redirect (p @ [slash])
         else if p \<noteq> path then Redirect p
         else case match_path p of None \<Rightarrow> NoHandler | Some h \<Rightarrow> Handler h)"

section \<open>The handlers\<close>

definition redirect_to :: "string \<Rightarrow> http_response" where
  "redirect_to p = \<lparr>r_Status = 301, r_Headers = [(''Location'', p)], r_JSON = None\<rparr>"

text \<open>A handler that panics leaves the connection without a response; its status here is 0.\<close>

definition aborted :: http_response where "aborted = bare 0"

definition PageHandler :: http_response where
  "PageHandler = \<lparr>r_Status = 200, r_Headers = [(''Content-Type'', ''text/html; charset=utf-8'')], r_JSON = None\<rparr>"

text \<open>\<^verbatim>\<open>AssetsHandler\<close> strips its prefix and serves the embedded files; the prefix is compared unescaped.\<close>

definition AssetsHandler :: "(string \<Rightarrow> http_response) \<Rightarrow> string \<Rightarrow> http_response" where
  "AssetsHandler files path =
     (let p = segment path
      in if has_prefix ''/assets/'' p then files (trim_prefix ''/assets/'' p) else bare 404)"

text \<open>How \<^verbatim>\<open>handleStream\<close> answers; what it then sends is in \<open>stream_reaches\<close>.\<close>

definition open_stream :: "(json \<Rightarrow> json option) \<Rightarrow> Server \<Rightarrow> StateStore \<Rightarrow> http_response" where
  "open_stream num s st =
     (case send_view num s st \<lparr>sending = True, last_data = None\<rparr> of
        None \<Rightarrow> aborted
      | Some c \<Rightarrow> \<lparr>r_Status = 200, r_Headers = [(''Content-Type'', ''text/event-stream''),
          (''Cache-Control'', ''no-cache''), (''Connection'', ''keep-alive'')], r_JSON = None\<rparr>)"

definition serve :: "(string \<Rightarrow> http_response) \<Rightarrow> (json \<Rightarrow> json option) \<Rightarrow> Server \<Rightarrow> 'e Putter \<Rightarrow>
    ((string \<times> bool \<times> ActualState) list \<Rightarrow> (string \<times> bool \<times> ActualState) list) \<Rightarrow> StateStore \<Rightarrow>
    string \<Rightarrow> http_request \<Rightarrow> 'e world \<Rightarrow> http_response \<times> 'e world" where
  "serve files num s put ord st path r w =
     (if path = ''*'' then (bare StatusBadRequest, w)
      else case route (r_Method r) path of
        NoHandler \<Rightarrow> (bare 404, w)
      | Redirect p \<Rightarrow> (redirect_to p, w)
      | Handler AssetsFiles \<Rightarrow> (AssetsHandler files path, w)
      | Handler WebPage \<Rightarrow> (PageHandler, w)
      | Handler StateHandler \<Rightarrow>
          requireAuth s (\<lambda>r w. (case handleState num s st of None \<Rightarrow> aborted | Some resp \<Rightarrow> resp, w)) r w
      | Handler StreamHandler \<Rightarrow> requireAuth s (\<lambda>r w. (open_stream num s st, w)) r w
      | Handler CommandsHandler \<Rightarrow> requireAuth s (handleCommands s put ord st) r w)"

section \<open>Properties\<close>

text \<open>
  The page of an agent with a token shows nothing: its \<^verbatim>\<open>EventSource\<close> cannot send the header.
\<close>

lemma page_stream_refused:
  assumes "token s \<noteq> []" and "r_Authorization r = []" and "r_Method r = ''GET''"
  shows "r_Status (fst (serve files num s put ord st ''/api/v1/stream'' r w)) = StatusUnauthorized"
proof -
  have "route ''GET'' ''/api/v1/stream'' = Handler StreamHandler" by code_simp
  then show ?thesis using assms by (simp add: serve_def requireAuth_iff authorized_def)
qed

text \<open>
  C26: the token guards the API. Whatever path a client asks for and however it spells it, a
  client without the token changes nothing and learns nothing: the answer would be the same over
  any other store and any other etcd. With the token, only a \<^verbatim>\<open>POST\<close> to the command endpoint
  changes anything; every other answer leaves the world as it was.
\<close>

theorem token_guards_api:
  fixes w :: "'e world"
  assumes "serve files num s put ord st path r w = (resp, w')"
  shows "(authorized s r \<or> (\<forall>num' put' ord' st' (u :: 'e world). serve files num' s put' ord' st' path r u = (resp, u)))
    \<and> (w' = w \<or> authorized s r \<and> r_Method r = ''POST'' \<and> route ''POST'' path = Handler CommandsHandler)"
proof -
  have idle: "snd (handleCommands s put ord st r w) = w" if "r_Method r \<noteq> ''POST''"
    using that by (simp add: handleCommands_def)
  show ?thesis
    using assms idle by (cases "r_Method r = ''POST''")
      (auto simp: serve_def requireAuth_iff split: routed.splits handler.splits if_splits)
qed

theorem token_guards_api_witness:
  "snd (serve (\<lambda>f. bare 404) Some example_server (apiPutter_Put mem_service) (\<lambda>xs. xs) (example_store queue_items)
       ''/api/v1/commands'' (promote_request\<lparr>r_Authorization := []\<rparr>) (example_world queue_items)) = example_world queue_items"
proof -
  let ?serve = "serve (\<lambda>f. bare 404) Some example_server (apiPutter_Put mem_service) (\<lambda>xs. xs) (example_store queue_items)
       ''/api/v1/commands'' (promote_request\<lparr>r_Authorization := []\<rparr>) (example_world queue_items)"
  have run: "?serve = (fst ?serve, snd ?serve)" by simp
  have "\<not> authorized example_server (promote_request\<lparr>r_Authorization := []\<rparr>)"
    by (simp add: authorized_def example_server_def)
  then show ?thesis using conjunct2 [OF token_guards_api [OF run]] by blast
qed

end
