(* ===== verification/Page.thy ===== *)
theory Page
  imports Routing "HOL-Library.Sublist"
begin

text \<open>
  The script of the page in \<^verbatim>\<open>internal/web/page.go\<close>, as the browser runs it on what the event stream
  sends: the values of JavaScript it handles, the panels it renders, and its event handlers. A
  \<^verbatim>\<open>TypeError\<close> is \<open>None\<close>. How JavaScript writes a number is a parameter for the literals with a
  fraction or an exponent and for integers that a double does not hold.
\<close>

section \<open>Values\<close>

text \<open>
  What a property read gives: no value, a property every object inherits from \<^verbatim>\<open>Object.prototype\<close>
  (a function, or for \<^verbatim>\<open>__proto__\<close> the prototype), or a value that came out of \<^verbatim>\<open>JSON.parse\<close>.
\<close>

datatype js = Undef | Inherited string | Val json

abbreviation js_str :: "string \<Rightarrow> js" where "js_str s \<equiv> Val (JStr s)"

definition object_prototype :: "string list" where
  "object_prototype = [''constructor'', ''__defineGetter__'', ''__defineSetter__'', ''hasOwnProperty'', ''__lookupGetter__'',
     ''__lookupSetter__'', ''isPrototypeOf'', ''propertyIsEnumerable'', ''toString'', ''valueOf'', ''__proto__'', ''toLocaleString'']"

definition function_name :: "string \<Rightarrow> string" where
  "function_name k = (if k = ''constructor'' then ''Object'' else k)"

text \<open>The last of several members with one key counts.\<close>

definition own :: "(string \<times> json) list \<Rightarrow> string \<Rightarrow> json option" where
  "own kvs = map_of (rev kvs)"

text \<open>An array index, written as JavaScript does.\<close>

definition index_of :: "string \<Rightarrow> nat option" where
  "index_of k =
     (let n = foldl (\<lambda>n c. 10 * n + (byte c - 48)) 0 k
      in if decimal_nat n = k \<and> n < 2 ^ 32 - 1 then Some n else None)"

text \<open>
  Reading a property: of \<^verbatim>\<open>undefined\<close> or \<^verbatim>\<open>null\<close> it throws. The length of a string is only compared
  with 0, and the properties that arrays and strings inherit are not read.
\<close>

fun js_field :: "js \<Rightarrow> string \<Rightarrow> js" where
  "js_field (Val (JObj kvs)) k = (case own kvs k of Some v \<Rightarrow> Val v | None \<Rightarrow> if k \<in> set object_prototype then Inherited k else Undef)"
| "js_field (Val (JArr vs)) k =
     (if k = ''length'' then Val (JInt (int (length vs)))
      else case index_of k of Some i \<Rightarrow> if i < length vs then Val (vs ! i) else Undef | None \<Rightarrow> Undef)"
| "js_field (Val (JStr s)) k = (if k = ''length'' then Val (JInt (int (length s))) else Undef)"
| "js_field (Inherited p) k = (if k = ''name'' \<and> p \<noteq> ''__proto__'' then js_str (function_name p) else Undef)"
| "js_field _ k = Undef"

definition js_get :: "js \<Rightarrow> string \<Rightarrow> js option" where
  "js_get v k = (if v = Undef \<or> v = Val JNull then None else Some (js_field v k))"

text \<open>The text of a number: an integer below \<open>2^53\<close> is exact.\<close>

type_synonym number_text = "json \<Rightarrow> string"

fun js_number :: "number_text \<Rightarrow> json \<Rightarrow> string" where
  "js_number num (JInt i) = (if \<bar>i\<bar> \<le> 2 ^ 53 then decimal i else num (JInt i))"
| "js_number num j = num j"

text \<open>The values that count as false; a number does when it is zero.\<close>

fun truthy :: "number_text \<Rightarrow> js \<Rightarrow> bool" where
  "truthy num Undef = False"
| "truthy num (Inherited p) = True"
| "truthy num (Val JNull) = False"
| "truthy num (Val (JBool b)) = b"
| "truthy num (Val (JInt i)) = (i \<noteq> 0)"
| "truthy num (Val (JReal r)) = (num (JReal r) \<noteq> ''0'')"
| "truthy num (Val (JStr s)) = (s \<noteq> [])"
| "truthy num (Val (JArr vs)) = True"
| "truthy num (Val (JObj kvs)) = True"

definition js_or :: "number_text \<Rightarrow> js \<Rightarrow> js \<Rightarrow> js" where
  "js_or num a b = (if truthy num a then a else b)"

text \<open>
  \<^verbatim>\<open>String(v)\<close>, and what \<^verbatim>\<open>+\<close> appends to a string. An object with a member \<^verbatim>\<open>toString\<close> has nothing
  to call and throws; an array joins its elements.
\<close>

fun js_text :: "number_text \<Rightarrow> json \<Rightarrow> string option" where
  "js_text num JNull = Some ''null''"
| "js_text num (JBool b) = Some (if b then ''true'' else ''false'')"
| "js_text num (JInt i) = Some (js_number num (JInt i))"
| "js_text num (JReal r) = Some (js_number num (JReal r))"
| "js_text num (JStr s) = Some s"
| "js_text num (JArr vs) = map_option (join '','') (those (map (\<lambda>v. if v = JNull then Some [] else js_text num v) vs))"
| "js_text num (JObj kvs) = (if own kvs ''toString'' = None then Some ''[object Object]'' else None)"

fun js_string :: "number_text \<Rightarrow> js \<Rightarrow> string option" where
  "js_string num Undef = Some ''undefined''"
| "js_string num (Inherited p) = Some (if p = ''__proto__'' then ''[object Object]'' else ''function '' @ function_name p @ ''() { [native code] }'')"
| "js_string num (Val j) = js_text num j"

text \<open>\<^verbatim>\<open>===\<close>; two objects of a parsed text are never the same object.\<close>

fun js_same :: "number_text \<Rightarrow> js \<Rightarrow> js \<Rightarrow> bool" where
  "js_same num Undef w = (w = Undef)"
| "js_same num (Inherited p) w = (w = Inherited p)"
| "js_same num (Val JNull) w = (w = Val JNull)"
| "js_same num (Val (JBool b)) w = (w = Val (JBool b))"
| "js_same num (Val (JStr s)) w = (w = js_str s)"
| "js_same num (Val (JInt i)) (Val (JInt j)) = (js_number num (JInt i) = js_number num (JInt j))"
| "js_same num (Val (JInt i)) (Val (JReal r)) = (js_number num (JInt i) = num (JReal r))"
| "js_same num (Val (JReal r)) (Val (JInt i)) = (num (JReal r) = js_number num (JInt i))"
| "js_same num (Val (JReal r)) (Val (JReal s)) = (num (JReal r) = num (JReal s))"
| "js_same num _ _ = False"

text \<open>
  \<^verbatim>\<open>Object.keys\<close>: first the array indices in order, then the other keys as they were added. It is
  applied to members of the view that are objects, never to a string.
\<close>

definition object_keys :: "(string \<times> json) list \<Rightarrow> string list" where
  "object_keys kvs =
     (let ks = rev (remdups (rev (map fst kvs)))
      in sort_key (\<lambda>k. the (index_of k)) (filter (\<lambda>k. index_of k \<noteq> None) ks) @ filter (\<lambda>k. index_of k = None) ks)"

fun js_keys :: "js \<Rightarrow> string list" where
  "js_keys (Val (JObj kvs)) = object_keys kvs"
| "js_keys (Val (JArr vs)) = map decimal_nat [0..<length vs]"
| "js_keys _ = []"

text \<open>\<^verbatim>\<open>JSON.stringify(v, null, 2)\<close>.\<close>

definition stringify_string :: "string \<Rightarrow> string" where
  "stringify_string s =
     CHR 0x22 # concat (map (\<lambda>c. if c \<in> {CHR ''<'', CHR ''>'', CHR ''&''} then [c] else escape_ascii c) s) @ [CHR 0x22]"

definition newline :: "nat \<Rightarrow> string" where
  "newline indent = CHR 0x0A # replicate indent (CHR '' '')"

fun stringify :: "number_text \<Rightarrow> nat \<Rightarrow> json \<Rightarrow> string" where
  "stringify num n JNull = ''null''"
| "stringify num n (JBool b) = (if b then ''true'' else ''false'')"
| "stringify num n (JInt i) = js_number num (JInt i)"
| "stringify num n (JReal r) = (if num (JReal r) \<in> {''Infinity'', ''-Infinity''} then ''null'' else num (JReal r))"
| "stringify num n (JStr s) = stringify_string s"
| "stringify num n (JArr vs) =
     (if vs = [] then ''[]''
      else ''['' @ newline (n + 2) @ join ('','' @ newline (n + 2)) (map (stringify num (n + 2)) vs) @ newline n @ '']'')"
| "stringify num n (JObj kvs) =
     (if kvs = [] then ''{}''
      else let texts = map (\<lambda>(k, v). (k, stringify num (n + 2) v)) kvs
        in ''{'' @ newline (n + 2)
           @ join ('','' @ newline (n + 2)) (map (\<lambda>k. stringify_string k @ '': '' @ the (map_of (rev texts) k)) (object_keys kvs))
           @ newline n @ ''}'')"

section \<open>Pieces of HTML\<close>

text \<open>The replacements run one after the other, the ampersand first.\<close>

definition replaceAll :: "char \<Rightarrow> string \<Rightarrow> string \<Rightarrow> string" where
  "replaceAll c t s = concat (map (\<lambda>d. if d = c then t else [d]) s)"

definition escape_text :: "string \<Rightarrow> string" where
  "escape_text s = replaceAll (CHR 0x22) ''&quot;'' (replaceAll (CHR ''>'') ''&gt;'' (replaceAll (CHR ''<'') ''&lt;'' (replaceAll (CHR ''&'') ''&amp;'' s)))"

definition escapeHtml :: "number_text \<Rightarrow> js \<Rightarrow> string option" where
  "escapeHtml num v = map_option escape_text (js_string num v)"

definition displayName :: "number_text \<Rightarrow> js \<Rightarrow> js \<Rightarrow> js" where
  "displayName num obj fallback =
     (if truthy num obj \<and> truthy num (js_field obj ''name'') then js_field obj ''name'' else js_or num fallback (js_str []))"

definition secondaryID :: "number_text \<Rightarrow> js \<Rightarrow> js \<Rightarrow> js" where
  "secondaryID num obj fallback =
     (let i = (if truthy num obj \<and> truthy num (js_field obj ''id'') then js_field obj ''id'' else fallback);
          name = displayName num obj fallback
      in if \<not> truthy num i \<or> js_same num i name then js_str [] else i)"

definition titleWithID :: "number_text \<Rightarrow> js \<Rightarrow> js \<Rightarrow> string option" where
  "titleWithID num obj fallback =
     do { name \<leftarrow> escapeHtml num (displayName num obj fallback);
          let i = secondaryID num obj fallback;
          if \<not> truthy num i then Some name
          else do { i \<leftarrow> escapeHtml num i; Some (name @ ''<div class=\"muted\">'' @ i @ ''</div>'') } }"

definition badge :: "number_text \<Rightarrow> string \<Rightarrow> js \<Rightarrow> string \<Rightarrow> string option" where
  "badge num label value kind =
     (let safe = js_or num value (js_str ''unknown'')
      in do { s \<leftarrow> js_string num safe; e \<leftarrow> escapeHtml num safe;
              Some (''<span class=\"badge '' @ kind @ ''-'' @ s @ ''\">'' @ label @ '': '' @ e @ ''</span>'') })"

definition docState :: "number_text \<Rightarrow> js \<Rightarrow> js" where
  "docState num doc = (if truthy num doc \<and> truthy num (js_field doc ''state'') then js_field doc ''state'' else js_str [])"

definition docStatus :: "number_text \<Rightarrow> js \<Rightarrow> js" where
  "docStatus num doc = (if truthy num doc \<and> truthy num (js_field doc ''status'') then js_field doc ''status'' else js_str [])"

definition em_dash :: string where "em_dash = [CHR 0xE2, CHR 0x80, CHR 0x94]"

definition middle_dot :: string where "middle_dot = [CHR 0xC2, CHR 0xB7]"

definition jsonBlock :: "number_text \<Rightarrow> js \<Rightarrow> string" where
  "jsonBlock num obj =
     (if \<not> truthy num obj then ''<span class=\"muted\">'' @ em_dash @ ''</span>''
      else ''<pre>'' @ escape_text (case obj of Val j \<Rightarrow> stringify num 0 j | _ \<Rightarrow> ''undefined'') @ ''</pre>'')"

section \<open>Panels\<close>

text \<open>The variables of the script and what the elements of the page hold.\<close>

record Page =
  p_state :: js
  p_selected :: "(string \<times> string) option"
  p_cluster :: string
  p_revision :: string
  p_leader :: string
  p_ready :: string
  p_groups :: string
  p_details :: string
  p_registry :: string

definition new_page :: Page where
  "new_page = \<lparr>p_state = Val JNull, p_selected = None, p_cluster = [], p_revision = [], p_leader = [], p_ready = [],
     p_groups = [], p_details = [], p_registry = []\<rparr>"

text \<open>
  A statement of the script says whether it ended without throwing; what it did to the page
  before stays. A loop over names with an early return, and a loop that appends.
\<close>

type_synonym script = "Page \<Rightarrow> bool \<times> Page"

definition then_run :: "script \<Rightarrow> script \<Rightarrow> script" where
  "then_run f g p = (case f p of (True, p) \<Rightarrow> g p | (False, p) \<Rightarrow> (False, p))"

definition show_in :: "(string \<Rightarrow> Page \<Rightarrow> Page) \<Rightarrow> (Page \<Rightarrow> string option) \<Rightarrow> script" where
  "show_in put text_of p = (case text_of p of None \<Rightarrow> (False, p) | Some s \<Rightarrow> (True, put s p))"

primrec search :: "('a \<Rightarrow> 'b option option) \<Rightarrow> 'a list \<Rightarrow> 'b option option" where
  "search f [] = Some None"
| "search f (x # xs) = do { r \<leftarrow> f x; if r = None then search f xs else Some r }"

definition append_all :: "('a \<Rightarrow> string option) \<Rightarrow> 'a list \<Rightarrow> string option" where
  "append_all f xs = map_option concat (those (map f xs))"

definition or_empty :: "number_text \<Rightarrow> js option \<Rightarrow> js option" where
  "or_empty num = map_option (\<lambda>v. js_or num v (Val (JObj [])))"

definition cluster_groups :: "number_text \<Rightarrow> js \<Rightarrow> js option" where
  "cluster_groups num st = or_empty num (do { c \<leftarrow> js_get st ''cluster''; js_get c ''groups'' })"

definition group_members :: "number_text \<Rightarrow> js \<Rightarrow> string \<Rightarrow> js option" where
  "group_members num gs g = or_empty num (js_get (js_field gs g) ''management_groups'')"

definition findNodeMeta :: "number_text \<Rightarrow> js \<Rightarrow> string \<Rightarrow> js option" where
  "findNodeMeta num st nodeName =
     do { gs \<leftarrow> cluster_groups num st;
          r \<leftarrow> search (\<lambda>g. do { mgs \<leftarrow> group_members num gs g;
                 search (\<lambda>m. do { nodes \<leftarrow> or_empty num (js_get (js_field mgs m) ''nodes'');
                     let n = js_field nodes nodeName;
                     Some (if truthy num n then Some n else None) }) (js_keys mgs) }) (js_keys gs);
          Some (case r of Some n \<Rightarrow> n | None \<Rightarrow> Val (JObj [(''id'', JStr nodeName), (''name'', JStr nodeName)])) }"

definition loadDefaultSelection :: "number_text \<Rightarrow> script" where
  "loadDefaultSelection num p =
     (case do { gs \<leftarrow> cluster_groups num (p_state p);
                search (\<lambda>g. do { mgs \<leftarrow> group_members num gs g;
                  Some (case js_keys mgs of [] \<Rightarrow> None | m # _ \<Rightarrow> Some (g, m)) }) (js_keys gs) } of
        None \<Rightarrow> (False, p)
      | Some None \<Rightarrow> (True, p)
      | Some (Some sel) \<Rightarrow> (True, p\<lparr>p_selected := Some sel\<rparr>))"

definition renderMeta :: "number_text \<Rightarrow> script" where
  "renderMeta num =
     then_run (show_in (\<lambda>s. p_cluster_update (\<lambda>_. s)) (\<lambda>p.
       do { c \<leftarrow> js_get (p_state p) ''cluster''; i \<leftarrow> js_get c ''id'';
            s \<leftarrow> js_string num (displayName num c (js_or num i (js_str em_dash))); Some (''Cluster: '' @ s) }))
     (then_run (show_in (\<lambda>s. p_revision_update (\<lambda>_. s)) (\<lambda>p.
       do { r \<leftarrow> js_get (p_state p) ''revision''; s \<leftarrow> js_string num r; Some (''Revision: '' @ s) }))
     (then_run (show_in (\<lambda>s. p_ready_update (\<lambda>_. s)) (\<lambda>p.
       do { r \<leftarrow> js_get (p_state p) ''ready''; Some (if truthy num r then ''Ready'' else ''Not ready'') }))
     (show_in (\<lambda>s. p_leader_update (\<lambda>_. s)) (\<lambda>p.
       do { c \<leftarrow> js_get (p_state p) ''cluster''; l \<leftarrow> js_get c ''leadership'';
            s \<leftarrow> js_string num (if truthy num l \<and> truthy num (js_field l ''owner_node_id'') then js_field l ''owner_node_id'' else js_str em_dash);
            Some (''Leader: '' @ s) }))))"

definition unmanaged :: "number_text \<Rightarrow> js \<Rightarrow> bool" where
  "unmanaged num desired \<longleftrightarrow> truthy num desired \<and> \<not> truthy num (js_field desired ''managed'')"

definition priority_badge :: "number_text \<Rightarrow> js \<Rightarrow> string option" where
  "priority_badge num cfg =
     (if truthy num cfg \<and> truthy num (js_field cfg ''priority'')
      then map_option (\<lambda>t. ''<span class=\"badge\">priority: '' @ t @ ''</span>'') (escapeHtml num (js_field cfg ''priority''))
      else Some [])"

definition managed_badge :: "bool \<Rightarrow> string" where
  "managed_badge off = ''<span class=\"badge ctrl-badge-'' @ (if off then ''disabled'' else ''enabled'') @ ''\">managed: ''
     @ (if off then ''false'' else ''true'') @ ''</span>''"

definition group_item :: "number_text \<Rightarrow> (string \<times> string) option \<Rightarrow> string \<Rightarrow> string \<Rightarrow> js \<Rightarrow> string option" where
  "group_item num sel g m mg =
     do { desired \<leftarrow> js_get mg ''desired'';
          let off = unmanaged num desired;
          title \<leftarrow> titleWithID num mg (js_str m);
          d \<leftarrow> badge num ''desired'' (docState num desired) ''state'';
          a \<leftarrow> badge num ''actual'' (docState num (js_field mg ''actual'')) ''state'';
          h \<leftarrow> badge num ''health'' (docStatus num (js_field mg ''health'')) ''health'';
          prio \<leftarrow> priority_badge num (js_field mg ''config'');
          Some (''<div class=\"mg-item'' @ (if sel = Some (g, m) then '' selected'' else []) @ (if off then '' disabled-control'' else [])
            @ ''\" onclick=\"selectMG('' @ [CHR 0x27] @ escape_text g @ [CHR 0x27] @ '', '' @ [CHR 0x27] @ escape_text m @ [CHR 0x27] @ '')\">''
            @ ''<div class=\"mg-name\">'' @ title @ ''</div>'' @ ''<div class=\"badges\">'' @ d @ a @ h @ prio
            @ managed_badge off @ ''</div>'' @ ''</div>'') }"

definition group_items :: "number_text \<Rightarrow> (string \<times> string) option \<Rightarrow> js \<Rightarrow> string \<Rightarrow> string option" where
  "group_items num sel gs g =
     do { title \<leftarrow> titleWithID num (js_field gs g) (js_str g);
          mgs \<leftarrow> group_members num gs g;
          items \<leftarrow> append_all (\<lambda>m. group_item num sel g m (js_field mgs m)) (js_keys mgs);
          Some (''<div class=\"group-title\">'' @ title @ ''</div>'' @ items) }"

definition renderGroups :: "number_text \<Rightarrow> script" where
  "renderGroups num = show_in (\<lambda>s. p_groups_update (\<lambda>_. s)) (\<lambda>p.
     do { gs \<leftarrow> cluster_groups num (p_state p);
          html \<leftarrow> append_all (group_items num (p_selected p) gs) (js_keys gs);
          Some (if html = [] then ''<div class=\"empty\">No groups</div>'' else html) })"

definition role_row :: "number_text \<Rightarrow> js \<Rightarrow> string \<Rightarrow> string option" where
  "role_row num roles r =
     do { title \<leftarrow> titleWithID num (js_field roles r) (js_str r);
          actual \<leftarrow> js_get (js_field roles r) ''actual''; health \<leftarrow> js_get (js_field roles r) ''health'';
          a \<leftarrow> badge num ''actual'' (docState num actual) ''state'';
          h \<leftarrow> badge num ''health'' (docStatus num health) ''health'';
          Some (''<div class=\"role-row\">'' @ ''<div class=\"role-name\">'' @ title @ ''</div>'' @ ''<div class=\"badges\">'' @ a @ h
            @ ''</div>'' @ ''</div>'') }"

definition node_card :: "number_text \<Rightarrow> js \<Rightarrow> string \<Rightarrow> string option" where
  "node_card num nodes n =
     do { title \<leftarrow> titleWithID num (js_field nodes n) (js_str n);
          roles \<leftarrow> or_empty num (js_get (js_field nodes n) ''roles'');
          rows \<leftarrow> append_all (role_row num roles) (js_keys roles);
          Some (''<div class=\"node-card\">'' @ ''<div class=\"node-header\">'' @ title @ ''</div>''
            @ (if js_keys roles = [] then ''<div class=\"empty\">No roles</div>'' else []) @ rows @ ''</div>'') }"

definition summary_row :: "number_text \<Rightarrow> string \<Rightarrow> js \<Rightarrow> string" where
  "summary_row num label doc =
     ''<div class=\"kv\"><div class=\"kv-key\">'' @ label @ ''</div><div>'' @ jsonBlock num doc @ ''</div></div>''"

definition details :: "number_text \<Rightarrow> js \<Rightarrow> string \<Rightarrow> string \<Rightarrow> string option" where
  "details num st g m =
     do { c \<leftarrow> js_get st ''cluster''; gs \<leftarrow> js_get c ''groups''; grp \<leftarrow> js_get gs g;
          mgs \<leftarrow> js_get grp ''management_groups''; mg \<leftarrow> js_get mgs m; desired \<leftarrow> js_get mg ''desired'';
          gtitle \<leftarrow> titleWithID num grp (js_str g); mtitle \<leftarrow> titleWithID num mg (js_str m);
          let nodes = js_or num (js_field mg ''nodes'') (Val (JObj []));
          cards \<leftarrow> append_all (node_card num nodes) (js_keys nodes);
          Some (''<div'' @ (if unmanaged num desired then '' class=\"disabled-control\"'' else []) @ ''>''
            @ ''<div class=\"details-title\">'' @ gtitle @ '' / '' @ mtitle @ ''</div>''
            @ ''<div class=\"section\">'' @ ''<div class=\"section-title\">Summary</div>''
            @ summary_row num ''Config'' (js_field mg ''config'') @ summary_row num ''Desired'' desired
            @ summary_row num ''Actual'' (js_field mg ''actual'') @ summary_row num ''Health'' (js_field mg ''health'') @ ''</div>''
            @ ''<div class=\"section\">'' @ ''<div class=\"section-title\">Nodes / Roles</div>''
            @ (if js_keys nodes = [] then ''<div class=\"empty\">No nodes</div>'' else []) @ cards @ ''</div>'' @ ''</div>'') }"

definition renderDetails :: "number_text \<Rightarrow> script" where
  "renderDetails num = show_in (\<lambda>s. p_details_update (\<lambda>_. s)) (\<lambda>p.
     case p_selected p of None \<Rightarrow> Some ''<div class=\"empty\">No management group selected</div>''
     | Some (g, m) \<Rightarrow> details num (p_state p) g m)"

text \<open>
  Iterating a string gives its characters, and only an array has a method \<^verbatim>\<open>join\<close>.
\<close>

function (sequential) runes :: "string \<Rightarrow> string list" where
  "runes [] = []"
| "runes (c # cs) = (let n = max 1 (rune_len (c # cs)) in take n (c # cs) # runes (drop n (c # cs)))"
  by pat_completeness auto
termination by (relation "measure length") (auto simp: max_def)

fun js_iterate :: "js \<Rightarrow> js list option" where
  "js_iterate (Val (JArr vs)) = Some (map Val vs)"
| "js_iterate (Val (JStr s)) = Some (map js_str (runes s))"
| "js_iterate _ = None"

fun join_roles :: "number_text \<Rightarrow> js \<Rightarrow> string option" where
  "join_roles num (Val (JArr vs)) = map_option (join '', '') (those (map (\<lambda>v. if v = JNull then Some [] else js_text num v) vs))"
| "join_roles num _ = None"

definition membership_line :: "number_text \<Rightarrow> js \<Rightarrow> string option" where
  "membership_line num m =
     do { cg \<leftarrow> js_get m ''cluster_group'';
          cg \<leftarrow> escapeHtml num cg; mg \<leftarrow> escapeHtml num (js_field m ''management_group'');
          prio \<leftarrow> (if truthy num (js_field m ''priority'')
            then map_option (\<lambda>t. '' '' @ middle_dot @ '' priority '' @ t) (escapeHtml num (js_field m ''priority'')) else Some []);
          let rs = js_field m ''roles'';
          roles \<leftarrow> (if truthy num rs \<and> truthy num (js_field rs ''length'')
            then map_option (\<lambda>t. ''<br/>roles: '' @ escape_text t) (join_roles num rs) else Some []);
          Some (''<div class=\"agent-membership\">'' @ cg @ '' / '' @ mg @ prio @ roles @ ''</div>'') }"

definition agent_card :: "number_text \<Rightarrow> js \<Rightarrow> js \<Rightarrow> js \<Rightarrow> string \<Rightarrow> string option" where
  "agent_card num st registry sessions n =
     do { let reg = js_field registry n; let dot = (if truthy num (js_field sessions n) then ''online'' else ''offline'');
          node \<leftarrow> findNodeMeta num st n;
          title \<leftarrow> titleWithID num node (js_str n);
          lines \<leftarrow> (if truthy num reg \<and> truthy num (js_field reg ''memberships'')
            then do { ms \<leftarrow> js_iterate (js_field reg ''memberships''); append_all (membership_line num) ms } else Some []);
          Some (''<div class=\"agent-card\">'' @ ''<div class=\"agent-head\">'' @ ''<div class=\"agent-name\">'' @ title @ ''</div>''
            @ ''<div class=\"status-dot '' @ dot @ ''\" title=\"'' @ dot @ ''\"></div>'' @ ''</div>'' @ lines @ ''</div>'') }"

definition renderRegistry :: "number_text \<Rightarrow> script" where
  "renderRegistry num = show_in (\<lambda>s. p_registry_update (\<lambda>_. s)) (\<lambda>p.
     do { c \<leftarrow> js_get (p_state p) ''cluster'';
          registry \<leftarrow> or_empty num (js_get c ''registry''); sessions \<leftarrow> or_empty num (js_get c ''session'');
          if js_keys registry = [] then Some ''<div class=\"empty\">No registered agents</div>''
          else append_all (agent_card num (p_state p) registry sessions) (js_keys registry) })"

section \<open>Events\<close>

definition render :: "number_text \<Rightarrow> js \<Rightarrow> script" where
  "render num data p =
     (let p = p\<lparr>p_state := data\<rparr>
      in then_run (\<lambda>p. if p_selected p = None then loadDefaultSelection num p else (True, p))
         (then_run (renderMeta num) (then_run (renderGroups num) (then_run (renderDetails num) (renderRegistry num)))) p)"

text \<open>A text that does not parse and an error of \<^verbatim>\<open>render\<close> are only logged.\<close>

definition onmessage :: "number_text \<Rightarrow> bytes \<Rightarrow> Page \<Rightarrow> Page" where
  "onmessage num data p = (case data of JSON j \<Rightarrow> snd (render num (Val j) p) | Text s \<Rightarrow> p)"

definition onerror :: "Page \<Rightarrow> Page" where
  "onerror p = p\<lparr>p_ready := ''Disconnected''\<rparr>"

definition selectMG :: "number_text \<Rightarrow> string \<Rightarrow> string \<Rightarrow> script" where
  "selectMG num g m p = then_run (renderGroups num) (renderDetails num) (p\<lparr>p_selected := Some (g, m)\<rparr>)"

section \<open>Members of objects\<close>

lemma own_append: "own (a @ b) k = (case own b k of Some v \<Rightarrow> Some v | None \<Rightarrow> own a k)"
  by (simp add: own_def map_add_def split: option.split)

lemma own_Nil [simp]: "own [] k = None"
  by (simp add: own_def)

lemma own_single [simp]: "own [(k, v)] k' = (if k' = k then Some v else None)"
  by (simp add: own_def)

lemma own_Cons: "own ((k, v) # kvs) k' = (case own kvs k' of Some w \<Rightarrow> Some w | None \<Rightarrow> if k' = k then Some v else None)"
  using own_append [of "[(k, v)]" kvs k'] by (simp split: option.split)

lemma own_None: "own kvs k = None \<longleftrightarrow> k \<notin> fst ` set kvs"
  by (simp add: own_def map_of_eq_None_iff)

lemma own_distinct:
  assumes "distinct (map fst kvs)"
  shows "own kvs = map_of kvs"
proof -
  have "distinct (map fst (rev kvs))" using assms by (simp flip: rev_map)
  then show ?thesis unfolding own_def using assms by (subst map_of_inject_set) simp_all
qed

lemma own_omit_raw: "omit_raw n b = Some l \<Longrightarrow> own l k = (if k = n \<and> b \<noteq> None then json_raw b else None)"
  by (auto simp: omit_raw_def split: if_splits)

lemma own_omit_entries: "omit_entries n f kvs = Some l \<Longrightarrow> k \<noteq> n \<Longrightarrow> own l k = None"
  by (auto simp: omit_entries_def split: if_splits)

lemma own_json_entries:
  assumes "json_entries f kvs = Some j" and "distinct (map fst kvs)"
  obtains js where "j = JObj js" "\<And>k. own js k = Option.bind (map_of kvs k) f" "fst ` set js = fst ` set kvs" "distinct (map fst js)"
proof -
  have entries: "map fst js = map fst xs \<and> (\<forall>k. map_of js k = Option.bind (map_of xs k) f)"
    if "those (map (\<lambda>(k, v). map_option (Pair k) (f v)) xs) = Some js" for xs js
    using that by (induction xs arbitrary: js) (auto split: option.splits)
  obtain js where js: "those (map (\<lambda>(k, v). map_option (Pair k) (f v)) (sort_key fst kvs)) = Some js" "j = JObj js"
    using assms(1) by (auto simp: json_entries_def)
  have sorted: "distinct (map fst (sort_key fst kvs))"
    using assms(2) by (simp add: distinct_map)
  then have "map_of (sort_key fst kvs) = map_of kvs" using assms(2) by (subst map_of_inject_set) simp_all
  moreover have keys: "map fst js = map fst (sort_key fst kvs)" "distinct (map fst js)" using entries [OF js(1)] sorted by simp_all
  moreover have "fst ` set js = fst ` set kvs" using keys(1) by (metis set_map set_sort)
  ultimately show ?thesis using that [OF js(2)] entries [OF js(1)] own_distinct [OF keys(2)] by simp
qed

lemma view_keys_distinct:
  assumes "store_wf st" and "view_of num s st = Some v"
  shows "distinct (map fst (cv_Groups (sv_Cluster v)))"
    and "map_of (cv_Groups (sv_Cluster v)) g = Some gv \<Longrightarrow> distinct (map fst (cgv_ManagementGroups gv))"
proof -
  have wf: "tree_wf (Snapshot st)"
    using assms(1) by (simp add: store_wf_def Snapshot_def tree_wf_clone)
  have child_wf: "tree_wf t" if "child node x = Some t" "\<And>u. node = Some u \<Longrightarrow> tree_wf u" for node x t
    using that by (cases node; cases "the node") (auto simp: child_def dest: map_of_SomeD)
  have "distinct (map fst (cv_Groups (sv_Cluster v)))
      \<and> (map_of (cv_Groups (sv_Cluster v)) g = Some gv \<longrightarrow> distinct (map fst (cgv_ManagementGroups gv)))"
  proof (cases "child (child (Some (Snapshot st)) (clusterID s)) ''cluster''")
    case None
    then show ?thesis using assms(2) by (auto simp: view_of_def BuildStateView_def empty_cluster_def)
  next
    case (Some node)
    then have node: "tree_wf node" using child_wf wf by (metis option.inject)
    then have keys: "distinct (map fst (entries isRootSystemKey (Some node)))" by (intro distinct_entries) simp
    obtain groups m config where groups: "build_all (\<lambda>cg. buildClusterGroup num m (go_index (map_of config) [] cg) cg)
        (entries isRootSystemKey (Some node)) = Some groups" "cv_Groups (sv_Cluster v) = groups"
      using assms(2) Some by (auto simp: view_of_def BuildStateView_def Let_def bind_eq_Some_conv)
    note built = build_all_Some [OF groups(1)]
    have "distinct (map fst (cgv_ManagementGroups gv))" if gv: "map_of groups g = Some gv"
    proof -
      obtain t where t: "map_of (entries isRootSystemKey (Some node)) g = Some t" using built(3) [of g] gv by fastforce
      then have "child (Some node) g = Some t" by (simp add: map_of_entries split: if_splits)
      then have wf_t: "tree_wf t" using child_wf node by (metis option.inject)
      have "buildClusterGroup num m (go_index (map_of config) [] g) g t = Some gv" using built(2) [OF t] gv by simp
      then obtain mgs where mgs: "build_all (\<lambda>mg. buildManagementGroup num m (go_index (map_of (go_index (map_of config) [] g)) None mg) mg)
          (entries isManagementSystemKey (Some t)) = Some mgs" "cgv_ManagementGroups gv = mgs"
        by (auto simp: buildClusterGroup_def bind_eq_Some_conv)
      show ?thesis using build_all_Some(1) [OF mgs(1)] distinct_entries [of "Some t"] wf_t mgs(2) by simp
    qed
    then show ?thesis using keys built(1) groups(2) by simp
  qed
  then show "distinct (map fst (cv_Groups (sv_Cluster v)))"
    and "map_of (cv_Groups (sv_Cluster v)) g = Some gv \<Longrightarrow> distinct (map fst (cgv_ManagementGroups gv))" by blast+
qed

section \<open>The view as the script reads it\<close>

definition doc_of :: "bytes option \<Rightarrow> js" where
  "doc_of b = (case b of Some (JSON j) \<Rightarrow> Val j | _ \<Rightarrow> Undef)"

lemma js_field_raw:
  assumes "omit_raw n b = Some l" and "own obj n = (if b \<noteq> None then json_raw b else None)" and "n \<notin> set object_prototype"
  shows "js_field (Val (JObj obj)) n = doc_of b"
  using assms by (auto simp: doc_of_def omit_raw_def json_raw_def split: if_splits option.splits bytes.splits)

lemma view_json:
  assumes "json_state_view v = Some data" and "distinct (map fst (cv_Groups (sv_Cluster v)))"
  obtains c gs where "js_get (Val data) ''cluster'' = Some (Val (JObj c))"
    and "js_field (Val data) ''revision'' = Val (JInt (sv_Revision v))" and "js_field (Val data) ''ready'' = Val (JBool (sv_Ready v))"
    and "js_field (Val (JObj c)) ''id'' = js_str (cv_ID (sv_Cluster v))" and "js_field (Val (JObj c)) ''name'' = js_str (cv_Name (sv_Cluster v))"
    and "js_field (Val (JObj c)) ''leadership'' = doc_of (cv_Leadership (sv_Cluster v))"
    and "js_field (Val (JObj c)) ''groups'' = Val (JObj gs)"
    and "\<And>k. own gs k = Option.bind (map_of (cv_Groups (sv_Cluster v)) k) json_cluster_group_view"
    and "fst ` set gs = fst ` set (cv_Groups (sv_Cluster v))"
proof -
  let ?c = "sv_Cluster v"
  obtain l cs rs ss groups where parts: "omit_raw ''leadership'' (cv_Leadership ?c) = Some l"
      "omit_entries ''config'' (json_entries json_raw) (cv_Config ?c) = Some cs"
      "omit_entries ''registry'' (\<lambda>b. json_raw (Some b)) (cv_Registry ?c) = Some rs"
      "omit_entries ''session'' (\<lambda>b. json_raw (Some b)) (cv_Session ?c) = Some ss"
      "json_entries json_cluster_group_view (cv_Groups ?c) = Some groups"
    and data: "data = JObj [(''ready'', JBool (sv_Ready v)), (''revision'', JInt (sv_Revision v)),
      (''cluster'', JObj ([(''id'', JStr (cv_ID ?c)), (''name'', JStr (cv_Name ?c))] @ l @ cs @ rs @ ss @ [(''groups'', groups)]))]"
    using assms(1) by (auto simp: json_state_view_def json_cluster_view_def bind_eq_Some_conv)
  obtain gs where gs: "groups = JObj gs" "\<And>k. own gs k = Option.bind (map_of (cv_Groups ?c) k) json_cluster_group_view"
      "fst ` set gs = fst ` set (cv_Groups ?c)"
    using own_json_entries [OF parts(5) assms(2)] by metis
  note members = own_append own_Cons own_omit_raw [OF parts(1)] own_omit_entries [OF parts(2)] own_omit_entries [OF parts(3)]
    own_omit_entries [OF parts(4)]
  let ?obj = "[(''id'', JStr (cv_ID ?c)), (''name'', JStr (cv_Name ?c))] @ l @ cs @ rs @ ss @ [(''groups'', groups)]"
  have lead: "own ?obj ''leadership'' = (if cv_Leadership ?c \<noteq> None then json_raw (cv_Leadership ?c) else None)"
    by (simp add: members split: option.split)
  have "js_field (Val (JObj ?obj)) ''leadership'' = doc_of (cv_Leadership ?c)"
    by (rule js_field_raw [OF parts(1) lead]) (simp add: object_prototype_def)
  moreover have "own ?obj ''id'' = Some (JStr (cv_ID ?c))" "own ?obj ''name'' = Some (JStr (cv_Name ?c))" "own ?obj ''groups'' = Some (JObj gs)"
    by (simp_all add: members gs(1))
  ultimately show ?thesis using that [of ?obj gs] gs(2,3) by (simp add: data js_get_def own_Cons)
qed

lemma cluster_group_json:
  assumes "json_cluster_group_view gv = Some j" and "distinct (map fst (cgv_ManagementGroups gv))"
  obtains mgs where "j = JObj [(''id'', JStr (cgv_ID gv)), (''name'', JStr (cgv_Name gv)), (''management_groups'', JObj mgs)]"
    and "\<And>k. own mgs k = Option.bind (map_of (cgv_ManagementGroups gv) k) json_group_view"
    and "fst ` set mgs = fst ` set (cgv_ManagementGroups gv)"
  using assms(1) own_json_entries [OF _ assms(2)] by (auto simp: json_cluster_group_view_def bind_eq_Some_conv) metis

lemma group_json:
  assumes "json_group_view mv = Some j"
  obtains kvs where "j = JObj kvs" and "js_field (Val j) ''id'' = js_str (mgv_ID mv)" and "js_field (Val j) ''name'' = js_str (mgv_Name mv)"
    and "js_field (Val j) ''config'' = doc_of (mgv_Config mv)" and "js_field (Val j) ''desired'' = doc_of (mgv_Desired mv)"
    and "js_field (Val j) ''actual'' = doc_of (mgv_Actual mv)" and "js_field (Val j) ''health'' = doc_of (mgv_Health mv)"
proof -
  obtain c d a h ns where parts: "omit_raw ''config'' (mgv_Config mv) = Some c" "omit_raw ''desired'' (mgv_Desired mv) = Some d"
      "omit_raw ''actual'' (mgv_Actual mv) = Some a" "omit_raw ''health'' (mgv_Health mv) = Some h"
      "omit_entries ''nodes'' json_node_view (mgv_Nodes mv) = Some ns"
    and j: "j = JObj ([(''id'', JStr (mgv_ID mv)), (''name'', JStr (mgv_Name mv))] @ c @ d @ a @ h @ ns)"
    using assms by (auto simp: json_group_view_def bind_eq_Some_conv)
  let ?obj = "[(''id'', JStr (mgv_ID mv)), (''name'', JStr (mgv_Name mv))] @ c @ d @ a @ h @ ns"
  note members = own_append own_Cons own_omit_raw [OF parts(1)] own_omit_raw [OF parts(2)] own_omit_raw [OF parts(3)]
    own_omit_raw [OF parts(4)] own_omit_entries [OF parts(5)]
  have "own ?obj ''config'' = (if mgv_Config mv \<noteq> None then json_raw (mgv_Config mv) else None)"
      "own ?obj ''desired'' = (if mgv_Desired mv \<noteq> None then json_raw (mgv_Desired mv) else None)"
      "own ?obj ''actual'' = (if mgv_Actual mv \<noteq> None then json_raw (mgv_Actual mv) else None)"
      "own ?obj ''health'' = (if mgv_Health mv \<noteq> None then json_raw (mgv_Health mv) else None)"
      "own ?obj ''id'' = Some (JStr (mgv_ID mv))" "own ?obj ''name'' = Some (JStr (mgv_Name mv))"
    by (simp_all add: members split: option.split)
  with parts(1-4) [THEN js_field_raw] show ?thesis
    using that j by (simp add: object_prototype_def)
qed

section \<open>What the panels keep and show\<close>

lemma then_run_cases:
  "then_run f g p = (if fst (f p) then g (snd (f p)) else (False, snd (f p)))"
  by (cases "f p") (simp add: then_run_def split: bool.split)

lemma show_in_cases: "show_in put text_of p = (case text_of p of None \<Rightarrow> (False, p) | Some s \<Rightarrow> (True, put s p))"
  by (simp add: show_in_def)

lemma renderMeta_keeps:
  "p_state (snd (renderMeta num p)) = p_state p \<and> p_selected (snd (renderMeta num p)) = p_selected p
    \<and> p_groups (snd (renderMeta num p)) = p_groups p \<and> p_details (snd (renderMeta num p)) = p_details p
    \<and> p_registry (snd (renderMeta num p)) = p_registry p"
  by (simp add: renderMeta_def then_run_cases show_in_cases split: option.split)

lemma renderGroups_keeps:
  "p_state (snd (renderGroups num p)) = p_state p \<and> p_selected (snd (renderGroups num p)) = p_selected p
    \<and> p_details (snd (renderGroups num p)) = p_details p \<and> p_registry (snd (renderGroups num p)) = p_registry p"
  by (simp add: renderGroups_def show_in_cases split: option.split)

lemma renderDetails_keeps: "p_groups (snd (renderDetails num p)) = p_groups p"
  by (simp add: renderDetails_def show_in_cases split: option.split)

lemma renderRegistry_keeps: "p_groups (snd (renderRegistry num p)) = p_groups p"
  by (simp add: renderRegistry_def show_in_cases split: option.split)

text \<open>Once the details throw, the panels behind them are not reached.\<close>

lemma details_throw:
  assumes "p_selected p = Some (g, m)" and "details num (Val j) g m = None"
  shows "p_selected (onmessage num (JSON j) p) = Some (g, m) \<and> p_details (onmessage num (JSON j) p) = p_details p
    \<and> p_registry (onmessage num (JSON j) p) = p_registry p"
proof -
  have stop: "renderDetails num q = (False, q)" if "p_selected q = Some (g, m)" "p_state q = Val j" for q
    using that assms(2) by (simp add: renderDetails_def show_in_def)
  let ?p = "p\<lparr>p_state := Val j\<rparr>"
  show ?thesis
    using renderMeta_keeps [of num ?p] renderGroups_keeps [of num "snd (renderMeta num ?p)"] assms(1)
    by (simp add: onmessage_def render_def Let_def then_run_cases stop)
qed

lemma details_gone:
  assumes "store_wf st" and "view_of num s st = Some v" and "json_state_view v = Some data"
    and "view_group v g m = None" and "m \<notin> set object_prototype"
  shows "details js (Val data) g m = None"
proof -
  note distinct = view_keys_distinct [OF assms(1,2)]
  obtain c gs where c: "js_get (Val data) ''cluster'' = Some (Val (JObj c))" "js_field (Val (JObj c)) ''groups'' = Val (JObj gs)"
      "\<And>k. own gs k = Option.bind (map_of (cv_Groups (sv_Cluster v)) k) json_cluster_group_view"
    using view_json [OF assms(3) distinct(1)] by metis
  show ?thesis
  proof (cases "own gs g")
    case None
    then show ?thesis using c(1,2) by (simp add: details_def js_get_def)
  next
    case (Some j)
    then obtain gv where gv: "map_of (cv_Groups (sv_Cluster v)) g = Some gv" "json_cluster_group_view gv = Some j"
      by (auto simp: c(3) bind_eq_Some_conv)
    obtain mgs where mgs: "j = JObj [(''id'', JStr (cgv_ID gv)), (''name'', JStr (cgv_Name gv)), (''management_groups'', JObj mgs)]"
        "\<And>k. own mgs k = Option.bind (map_of (cgv_ManagementGroups gv) k) json_group_view"
      using cluster_group_json [OF gv(2) distinct(2) [OF gv(1)]] by metis
    have "own mgs m = None" using assms(4) gv(1) by (simp add: mgs(2) view_group_def)
    then show ?thesis using c(1,2) Some mgs(1) assms(5) by (simp add: details_def js_get_def own_Cons)
  qed
qed

section \<open>Escaping\<close>

lemma escape_text_Cons:
  "escape_text (c # s) =
     (if c = CHR ''&'' then ''&amp;'' else if c = CHR ''<'' then ''&lt;'' else if c = CHR ''>'' then ''&gt;''
      else if c = CHR 0x22 then ''&quot;'' else [c]) @ escape_text s"
  by (simp add: escape_text_def replaceAll_def)

lemma escape_text_Nil [simp]: "escape_text [] = []"
  by (simp add: escape_text_def replaceAll_def)

lemma escape_text_inert: "set (escape_text s) \<inter> {CHR ''<'', CHR ''>'', CHR 0x22} = {}"
  by (induction s) (auto simp: escape_text_Cons)

text \<open>What a browser reads back: the four entities of \<^verbatim>\<open>escapeHtml\<close>.\<close>

fun html_text :: "string \<Rightarrow> string" where
  "html_text [] = []"
| "html_text (c # s) =
     (if c \<noteq> CHR ''&'' then c # html_text s
      else if take 4 s = ''amp;'' then CHR ''&'' # html_text (drop 4 s)
      else if take 3 s = ''lt;'' then CHR ''<'' # html_text (drop 3 s)
      else if take 3 s = ''gt;'' then CHR ''>'' # html_text (drop 3 s)
      else if take 5 s = ''quot;'' then CHR 0x22 # html_text (drop 5 s)
      else c # html_text s)"

lemma html_text_escape: "html_text (escape_text s) = s"
  by (induction s) (simp_all add: escape_text_Cons)

section \<open>The groups panel\<close>

lemma append_all_total: "\<forall>x \<in> set xs. f x \<noteq> None \<Longrightarrow> append_all f xs \<noteq> None"
  unfolding append_all_def by (induction xs) auto

lemma append_all_part:
  assumes "append_all f xs = Some html" and "x \<in> set xs"
  shows "\<exists>t. f x = Some t \<and> sublist t html"
proof -
  obtain ts where ts: "those (map f xs) = Some ts" "html = concat ts" using assms(1) by (auto simp: append_all_def)
  have "\<exists>t. f x = Some t \<and> t \<in> set ts" using ts(1) assms(2) by (induction xs arbitrary: ts) (auto split: option.splits)
  moreover have "sublist t html" if "t \<in> set ts" for t
    using split_list [OF that] unfolding ts(2) sublist_def by (metis concat.simps(2) concat_append)
  ultimately show ?thesis by blast
qed

lemma set_object_keys: "set (object_keys kvs) = fst ` set kvs"
  by (auto simp: object_keys_def Let_def)

text \<open>A document whose fields have a text; the documents of the program are such.\<close>

definition plain_doc :: "number_text \<Rightarrow> js \<Rightarrow> bool" where
  "plain_doc num d \<longleftrightarrow> (\<forall>k \<in> {''state'', ''status'', ''priority'', ''owner_node_id''}. js_string num (js_field d k) \<noteq> None)"

definition plain_view :: "number_text \<Rightarrow> StateView \<Rightarrow> bool" where
  "plain_view num v \<longleftrightarrow> plain_doc num (doc_of (cv_Leadership (sv_Cluster v)))
     \<and> (\<forall>(g, gv) \<in> set (cv_Groups (sv_Cluster v)). \<forall>(m, mv) \<in> set (cgv_ManagementGroups gv).
          \<forall>b \<in> {mgv_Config mv, mgv_Desired mv, mgv_Actual mv, mgv_Health mv}. plain_doc num (doc_of b))"

lemma badge_total: "js_string num v \<noteq> None \<Longrightarrow> badge num label v kind \<noteq> None"
  by (auto simp: badge_def js_or_def escapeHtml_def Let_def)

lemma docState_plain: "plain_doc num d \<Longrightarrow> js_string num (docState num d) \<noteq> None"
  and docStatus_plain: "plain_doc num d \<Longrightarrow> js_string num (docStatus num d) \<noteq> None"
  by (auto simp: docState_def docStatus_def plain_doc_def)

lemma priority_badge_total: "plain_doc num d \<Longrightarrow> priority_badge num d \<noteq> None"
  by (auto simp: priority_badge_def plain_doc_def escapeHtml_def)

lemma titleWithID_total:
  assumes "js_field obj ''name'' = js_str n" and "js_field obj ''id'' = js_str i"
  shows "titleWithID num obj (js_str f) \<noteq> None"
  using assms by (simp add: titleWithID_def displayName_def secondaryID_def escapeHtml_def js_or_def Let_def)

lemma sublist_later: "sublist t r \<Longrightarrow> sublist t (l @ r)"
  by (meson sublist_append_leftI sublist_order.order_trans)

lemma group_item_shows:
  assumes "json_group_view mv = Some j"
    and "\<forall>b \<in> {mgv_Config mv, mgv_Desired mv, mgv_Actual mv, mgv_Health mv}. plain_doc num (doc_of b)"
  shows "\<exists>item d a h. group_item num sel g m (Val j) = Some item
    \<and> badge num ''desired'' (docState num (doc_of (mgv_Desired mv))) ''state'' = Some d \<and> sublist d item
    \<and> badge num ''actual'' (docState num (doc_of (mgv_Actual mv))) ''state'' = Some a \<and> sublist a item
    \<and> badge num ''health'' (docStatus num (doc_of (mgv_Health mv))) ''health'' = Some h \<and> sublist h item
    \<and> sublist (managed_badge (unmanaged num (doc_of (mgv_Desired mv)))) item"
proof -
  obtain kvs where j: "j = JObj kvs" and fields: "js_field (Val j) ''id'' = js_str (mgv_ID mv)" "js_field (Val j) ''name'' = js_str (mgv_Name mv)"
      "js_field (Val j) ''config'' = doc_of (mgv_Config mv)" "js_field (Val j) ''desired'' = doc_of (mgv_Desired mv)"
      "js_field (Val j) ''actual'' = doc_of (mgv_Actual mv)" "js_field (Val j) ''health'' = doc_of (mgv_Health mv)"
    using group_json [OF assms(1)] by metis
  have desired: "js_get (Val j) ''desired'' = Some (doc_of (mgv_Desired mv))" using fields(4) by (simp add: js_get_def j)
  obtain t where t: "titleWithID num (Val j) (js_str m) = Some t" using titleWithID_total [OF fields(2,1)] by blast
  obtain d where d: "badge num ''desired'' (docState num (doc_of (mgv_Desired mv))) ''state'' = Some d"
    using assms(2) badge_total [OF docState_plain] by blast
  obtain a where a: "badge num ''actual'' (docState num (doc_of (mgv_Actual mv))) ''state'' = Some a"
    using assms(2) badge_total [OF docState_plain] by blast
  obtain h where h: "badge num ''health'' (docStatus num (doc_of (mgv_Health mv))) ''health'' = Some h"
    using assms(2) badge_total [OF docStatus_plain] by blast
  obtain prio where prio: "priority_badge num (doc_of (mgv_Config mv)) = Some prio"
    using assms(2) priority_badge_total by blast
  obtain item where item: "group_item num sel g m (Val j) = Some item" by (simp add: group_item_def desired Let_def fields t d a h prio)
  have parts: "sublist d item" "sublist a item" "sublist h item" "sublist (managed_badge (unmanaged num (doc_of (mgv_Desired mv)))) item"
    using item unfolding group_item_def desired Let_def bind.bind_lunit fields(3,5,6) t d a h prio option.inject
    by - (elim subst, (rule sublist_append_rightI | rule sublist_later)+)+
  then show ?thesis using item d a h by blast
qed

text \<open>A whole cluster group, and the panel of a view.\<close>

lemma group_items_show:
  assumes "own gs g = Some j" and "json_cluster_group_view gv = Some j" and "distinct (map fst (cgv_ManagementGroups gv))"
    and "\<forall>(m, mv) \<in> set (cgv_ManagementGroups gv). \<forall>b \<in> {mgv_Config mv, mgv_Desired mv, mgv_Actual mv, mgv_Health mv}. plain_doc num (doc_of b)"
  shows "group_members num (Val (JObj gs)) g \<noteq> None
    \<and> (\<exists>html. group_items num sel (Val (JObj gs)) g = Some html
        \<and> (\<forall>m mv. map_of (cgv_ManagementGroups gv) m = Some mv \<longrightarrow>
             (\<exists>mj item. json_group_view mv = Some mj \<and> group_item num sel g m (Val mj) = Some item \<and> sublist item html)))"
proof -
  obtain mgs where mgs: "j = JObj [(''id'', JStr (cgv_ID gv)), (''name'', JStr (cgv_Name gv)), (''management_groups'', JObj mgs)]"
      "\<And>k. own mgs k = Option.bind (map_of (cgv_ManagementGroups gv) k) json_group_view"
      "fst ` set mgs = fst ` set (cgv_ManagementGroups gv)"
    using cluster_group_json [OF assms(2,3)] by metis
  have members: "group_members num (Val (JObj gs)) g = Some (Val (JObj mgs))"
    by (simp add: group_members_def or_empty_def js_or_def js_get_def assms(1) mgs(1) own_Cons)
  obtain title where title: "titleWithID num (js_field (Val (JObj gs)) g) (js_str g) = Some title"
    using titleWithID_total [of "Val j" "cgv_Name gv" "cgv_ID gv"] by (auto simp: assms(1) mgs(1) own_Cons)
  have item: "\<exists>mv mj item. map_of (cgv_ManagementGroups gv) m = Some mv \<and> own mgs m = Some mj \<and> json_group_view mv = Some mj
      \<and> group_item num sel g m (js_field (Val (JObj mgs)) m) = Some item"
    if key: "m \<in> set (js_keys (Val (JObj mgs)))" for m
  proof -
    obtain mj where mj: "own mgs m = Some mj" using key own_None [of mgs m] by (auto simp: set_object_keys)
    then obtain mv where mv: "map_of (cgv_ManagementGroups gv) m = Some mv" "json_group_view mv = Some mj"
      by (auto simp: mgs(2) bind_eq_Some_conv)
    have "\<forall>b \<in> {mgv_Config mv, mgv_Desired mv, mgv_Actual mv, mgv_Health mv}. plain_doc num (doc_of b)"
      using assms(4) map_of_SomeD [OF mv(1)] by blast
    from group_item_shows [OF mv(2) this] mj mv show ?thesis by fastforce
  qed
  have "\<forall>m \<in> set (js_keys (Val (JObj mgs))). group_item num sel g m (js_field (Val (JObj mgs)) m) \<noteq> None"
    using item by blast
  from append_all_total [OF this] obtain items where
    items: "append_all (\<lambda>m. group_item num sel g m (js_field (Val (JObj mgs)) m)) (js_keys (Val (JObj mgs))) = Some items" by blast
  have "\<exists>mj item. json_group_view mv = Some mj \<and> group_item num sel g m (Val mj) = Some item \<and> sublist item items"
    if mv: "map_of (cgv_ManagementGroups gv) m = Some mv" for m mv
  proof -
    have key: "m \<in> set (js_keys (Val (JObj mgs)))" using map_of_SomeD [OF mv] mgs(3) by (force simp: set_object_keys)
    from item [OF key] append_all_part [OF items key] show ?thesis using mv by auto
  qed
  moreover have "group_items num sel (Val (JObj gs)) g = Some (''<div class=\"group-title\">'' @ title @ ''</div>'' @ items)"
    unfolding group_items_def title bind.bind_lunit members items by (rule refl)
  moreover have "sublist t (''<div class=\"group-title\">'' @ title @ ''</div>'' @ items)" if "sublist t items" for t
    using that by (intro sublist_later)
  ultimately show ?thesis using members by blast
qed

lemma search_total: "\<forall>x \<in> set xs. f x \<noteq> None \<Longrightarrow> search f xs \<noteq> None"
  by (induction xs) (auto split: bind_split)

lemma loadDefaultSelection_ok:
  assumes "cluster_groups num (p_state p) = Some gs" and "\<forall>g \<in> set (js_keys gs). group_members num gs g \<noteq> None"
  shows "fst (loadDefaultSelection num p) \<and> p_state (snd (loadDefaultSelection num p)) = p_state p"
proof -
  have "\<forall>g \<in> set (js_keys gs). do { mgs \<leftarrow> group_members num gs g;
      Some (case js_keys mgs of [] \<Rightarrow> None | m # _ \<Rightarrow> Some (g, m)) } \<noteq> None"
    using assms(2) by auto
  from search_total [OF this] show ?thesis
    unfolding loadDefaultSelection_def assms(1) bind.bind_lunit by (auto split: option.split)
qed

lemma show_in_ok: "fst (show_in put text_of p) \<longleftrightarrow> text_of p \<noteq> None"
  by (simp add: show_in_def split: option.split)

lemma snd_show_in: "snd (show_in put text_of p) = (case text_of p of None \<Rightarrow> p | Some s \<Rightarrow> put s p)"
  by (simp add: show_in_def split: option.split)

lemma fst_then_run: "fst (then_run f g p) \<longleftrightarrow> fst (f p) \<and> fst (g (snd (f p)))"
  by (simp add: then_run_cases)

lemma js_string_choice: "js_string num x \<noteq> None \<Longrightarrow> \<exists>t. js_string num (if b then x else js_str s) = Some t"
  by (cases b) auto

lemma renderMeta_ok:
  assumes "p_state q = Val data" and "js_get (Val data) ''cluster'' = Some (Val (JObj c))"
    and "js_field (Val (JObj c)) ''id'' = js_str i" and "js_field (Val (JObj c)) ''name'' = js_str n"
    and "js_field (Val data) ''revision'' = Val (JInt rv)" and "plain_doc num (js_field (Val (JObj c)) ''leadership'')"
  shows "fst (renderMeta num q)"
proof -
  let ?c = "Val (JObj c)"
  have get: "js_get (Val data) k = Some (js_field (Val data) k)" "js_get ?c k = Some (js_field ?c k)" for k
    using assms(2) by (simp_all add: js_get_def split: if_splits)
  have cluster: "js_field (Val data) ''cluster'' = ?c" using assms(2) get(1) by (simp del: js_field.simps)
  obtain name where name: "js_string num (displayName num ?c (js_or num (js_str i) (js_str em_dash))) = Some name"
    unfolding displayName_def assms(4) by (cases "n = []"; cases "i = []") (auto simp: js_or_def em_dash_def)
  obtain rev where rev: "js_string num (Val (JInt rv)) = Some rev" by simp
  let ?l = "js_field ?c ''leadership''"
  have "js_string num (js_field ?l ''owner_node_id'') \<noteq> None" using assms(6) by (simp add: plain_doc_def del: js_field.simps)
  then obtain owner where owner: "js_string num (if truthy num ?l \<and> truthy num (js_field ?l ''owner_node_id'')
      then js_field ?l ''owner_node_id'' else js_str em_dash) = Some owner"
    using js_string_choice by blast
  show ?thesis
    unfolding renderMeta_def
    by (simp add: fst_then_run show_in_ok snd_show_in assms(1,3,5) get cluster name rev owner del: js_string.simps js_field.simps)
qed

lemma view_renders:
  assumes "store_wf st" and "view_of num s st = Some v" and "json_state_view v = Some data" and "plain_view js v"
    and "view_group v g m = Some mv"
  shows "\<exists>mj item. json_group_view mv = Some mj \<and> sublist item (p_groups (onmessage js (JSON data) p))
    \<and> group_item js (p_selected (onmessage js (JSON data) p)) g m (Val mj) = Some item"
proof -
  note distinct = view_keys_distinct [OF assms(1,2)]
  obtain c gs where view: "js_get (Val data) ''cluster'' = Some (Val (JObj c))"
      "js_field (Val data) ''revision'' = Val (JInt (sv_Revision v))" "js_field (Val data) ''ready'' = Val (JBool (sv_Ready v))"
      "js_field (Val (JObj c)) ''id'' = js_str (cv_ID (sv_Cluster v))" "js_field (Val (JObj c)) ''name'' = js_str (cv_Name (sv_Cluster v))"
      "js_field (Val (JObj c)) ''leadership'' = doc_of (cv_Leadership (sv_Cluster v))" "js_field (Val (JObj c)) ''groups'' = Val (JObj gs)"
      "\<And>k. own gs k = Option.bind (map_of (cv_Groups (sv_Cluster v)) k) json_cluster_group_view"
      "fst ` set gs = fst ` set (cv_Groups (sv_Cluster v))"
    using view_json [OF assms(3) distinct(1)] by metis
  have items: "group_members js (Val (JObj gs)) g \<noteq> None \<and> (\<exists>html. group_items js sel (Val (JObj gs)) g = Some html
        \<and> (\<forall>m mv. map_of (cgv_ManagementGroups gv) m = Some mv \<longrightarrow>
             (\<exists>mj item. json_group_view mv = Some mj \<and> group_item js sel g m (Val mj) = Some item \<and> sublist item html)))"
    if "map_of (cv_Groups (sv_Cluster v)) g = Some gv" and "own gs g \<noteq> None" for g gv sel
    using group_items_show [OF _ _ distinct(2) [OF that(1)], of gs g _ js sel] that(2) assms(4) map_of_SomeD [OF that(1)]
    by (auto simp: view(8) that(1) plain_view_def)
  have members: "\<exists>gv. map_of (cv_Groups (sv_Cluster v)) g = Some gv \<and> own gs g \<noteq> None" if "g \<in> set (js_keys (Val (JObj gs)))" for g
    using that own_None [of gs g] by (auto simp: set_object_keys view(8) bind_eq_None_conv split: bind_splits)
  have groups: "cluster_groups js (Val data) = Some (Val (JObj gs))"
    unfolding cluster_groups_def view(1) bind.bind_lunit unfolding js_get_def view(7) by (simp add: or_empty_def js_or_def)
  have ok: "\<forall>g \<in> set (js_keys (Val (JObj gs))). group_members js (Val (JObj gs)) g \<noteq> None"
    "\<forall>g \<in> set (js_keys (Val (JObj gs))). group_items js sel (Val (JObj gs)) g \<noteq> None" for sel
    using items members by (metis option.distinct(1))+
  have meta: "fst (renderMeta js q)" if "p_state q = Val data" for q
    using renderMeta_ok [OF that view(1,4,5,2)] assms(4) unfolding view(6) by (simp add: plain_view_def)
  let ?start = "\<lambda>q. if p_selected q = None then loadDefaultSelection js q else (True, q)"
  let ?p0 = "p\<lparr>p_state := Val data\<rparr>"
  have start: "fst (?start ?p0) \<and> p_state (snd (?start ?p0)) = Val data"
    using loadDefaultSelection_ok [of js ?p0, OF _ ok(1)] groups by simp
  let ?p1 = "snd (renderMeta js (snd (?start ?p0)))"
  obtain html where html: "append_all (group_items js (p_selected ?p1) (Val (JObj gs))) (js_keys (Val (JObj gs))) = Some html"
    using append_all_total [OF ok(2)] by blast
  have p1: "p_state ?p1 = Val data" using renderMeta_keeps start by metis
  let ?p2 = "snd (renderGroups js ?p1)"
  have p2: "fst (renderGroups js ?p1)" "p_groups ?p2 = (if html = [] then ''<div class=\"empty\">No groups</div>'' else html)"
    unfolding renderGroups_def show_in_ok snd_show_in p1 groups html bind.bind_lunit by simp_all
  let ?q = "onmessage js (JSON data) p"
  have q: "?q = snd (then_run (renderDetails js) (renderRegistry js) ?p2)"
    using start meta [of "snd (?start ?p0)"] p2(1) by (simp add: onmessage_def render_def Let_def then_run_cases [of _ _ "_ :: Page"])
  have tail: "p_groups (snd (then_run (renderDetails js) (renderRegistry js) r)) = p_groups r
      \<and> p_selected (snd (then_run (renderDetails js) (renderRegistry js) r)) = p_selected r" for r
    by (simp add: then_run_cases renderDetails_def renderRegistry_def show_in_cases split: option.split)
  have sel: "p_selected ?q = p_selected ?p1" using tail renderGroups_keeps q by metis
  obtain gv where gv: "map_of (cv_Groups (sv_Cluster v)) g = Some gv" "map_of (cgv_ManagementGroups gv) m = Some mv"
    using assms(5) by (auto simp: view_group_def bind_eq_Some_conv)
  have key: "g \<in> set (js_keys (Val (JObj gs)))" using map_of_SomeD [OF gv(1)] view(9) by (force simp: set_object_keys)
  obtain part where part: "group_items js (p_selected ?p1) (Val (JObj gs)) g = Some part" "sublist part html"
    using append_all_part [OF html key] by blast
  have "own gs g \<noteq> None" using members [OF key] by blast
  from items [OF gv(1) this, of "p_selected ?p1"] obtain part' where "group_items js (p_selected ?p1) (Val (JObj gs)) g = Some part'"
      "\<exists>mj item. json_group_view mv = Some mj \<and> group_item js (p_selected ?p1) g m (Val mj) = Some item \<and> sublist item part'"
    using gv(2) by blast
  then obtain mj item where
    item: "json_group_view mv = Some mj" "group_item js (p_selected ?p1) g m (Val mj) = Some item" "sublist item part"
    using part(1) by (metis option.inject)
  have "sublist item html" using item(3) part(2) by (rule sublist_order.order_trans)
  moreover have "item \<noteq> []" using item(2) by (auto simp: group_item_def bind_eq_Some_conv Let_def)
  ultimately have "sublist item (p_groups ?p2)" unfolding p2(2) by auto
  then show ?thesis using item(1,2) q tail sel by metis
qed

section \<open>Properties\<close>

lemma stored_group_in_view:
  assumes "store_wf st" and "view_of num s st = Some v" and "clusterID s = c" and "id_ok c" and "group_ok g" and "member_ok m"
    and "\<not> isManagementSystemKey m" and "Get st (Desired c g m) = Some b"
  shows "\<exists>mv. view_group v g m = Some mv \<and> mgv_Desired mv = Some b"
proof -
  have "split (Desired c g m) = [c, ''cluster'', g, m] @ [''desired'']"
    using assms(4-6) by (simp add: key_simps entity_ok_defs split_abs_path)
  then have "find_node [c, ''cluster'', g, m] (root st) \<noteq> None"
    using assms(8) by (auto simp: Get_def findLocked_def find_node_append bind_eq_Some_conv simp del: append.simps split: option.splits)
  then show ?thesis
    using view_group_shown [OF assms(1,2) _ assms(5-7)] assms(3,4,8) by (auto split: option.splits)
qed

lemma unmanaged_doc: "own kvs ''managed'' = Some (JBool b) \<Longrightarrow> unmanaged js (Val (JObj kvs)) = (\<not> b)"
  by (simp add: unmanaged_def)

lemma state_badge:
  assumes "own kvs ''state'' = Some (JStr state)" and "state \<noteq> []"
  shows "badge js label (docState js (Val (JObj kvs))) kind =
    Some (''<span class=\"badge '' @ kind @ ''-'' @ state @ ''\">'' @ label @ '': '' @ escape_text state @ ''</span>'')"
  using assms by (simp add: badge_def docState_def js_or_def escapeHtml_def Let_def)

text \<open>
  C18: the page shows the store. When the browser has handled the view that a server sends, the
  panel of groups has an item for every group with a desired document in the store, whose badges
  show the stored state, escaped, and whether the group is managed; the documents have fields
  that can be written. Nothing else that the view holds can stop this panel.
\<close>

theorem page_shows_store:
  assumes "store_wf st" and "view_of num s st = Some v" and "clusterID s = c" and "id_ok c" and "group_ok g" and "member_ok m"
    and "\<not> isManagementSystemKey m" and "json_state_view v = Some data" and "plain_view js v"
    and "Get st (Desired c g m) = Some (JSON (JObj kvs))" and "own kvs ''state'' = Some (JStr state)" and "state \<noteq> []"
    and "own kvs ''managed'' = Some (JBool b)"
  shows "let q = onmessage js (JSON data) p in \<exists>mj item. group_item js (p_selected q) g m mj = Some item
    \<and> sublist item (p_groups q) \<and> sublist (''<span class=\"badge state-'' @ state @ ''\">desired: '' @ escape_text state @ ''</span>'') item
    \<and> sublist (managed_badge (\<not> b)) item"
proof -
  obtain mv where mv: "view_group v g m = Some mv" "mgv_Desired mv = Some (JSON (JObj kvs))"
    using stored_group_in_view [OF assms(1-7,10)] by blast
  then have desired: "doc_of (mgv_Desired mv) = Val (JObj kvs)" by (simp add: doc_of_def)
  have plain: "\<forall>b \<in> {mgv_Config mv, mgv_Desired mv, mgv_Actual mv, mgv_Health mv}. plain_doc js (doc_of b)"
    using assms(9) mv(1) by (fastforce simp: plain_view_def view_group_def bind_eq_Some_conv dest: map_of_SomeD)
  let ?q = "onmessage js (JSON data) p"
  obtain mj item where item: "json_group_view mv = Some mj" "sublist item (p_groups ?q)" "group_item js (p_selected ?q) g m (Val mj) = Some item"
    using view_renders [OF assms(1,2,8,9) mv(1), of p] by blast
  have "badge js ''desired'' (docState js (Val (JObj kvs))) ''state'' =
      Some (''<span class=\"badge state-'' @ state @ ''\">desired: '' @ escape_text state @ ''</span>'')"
    using state_badge [OF assms(11,12)] by simp
  then show ?thesis
    using group_item_shows [OF item(1) plain, of "p_selected ?q" g m] item unfolding Let_def desired unmanaged_doc [OF assms(13)]
    by (metis option.inject)
qed

text \<open>The example store as a page shows it; numbers need no text there.\<close>

definition no_numbers :: number_text where "no_numbers j = ''0''"

definition example_page :: "(StateView \<times> json \<times> Page) option" where
  "example_page = do { v \<leftarrow> view_of Some view_server (example_store example_items); data \<leftarrow> json_state_view v;
     Some (v, data, onmessage no_numbers (JSON data) (new_page\<lparr>p_selected := Some (''g'', ''x'')\<rparr>)) }"

lemma onmessage_keeps_selection: "p_selected p = Some sel \<Longrightarrow> p_selected (onmessage num data p) = Some sel"
  using renderMeta_keeps renderGroups_keeps
  by (auto simp: onmessage_def render_def Let_def then_run_cases renderDetails_def renderRegistry_def show_in_cases
      split: option.split bytes.split)

lemma example_view_plain:
  "case view_of Some view_server (example_store example_items) of None \<Rightarrow> False | Some v \<Rightarrow> plain_view no_numbers v"
  by code_simp

lemma example_page_view: "\<exists>v data q. example_page = Some (v, data, q) \<and> plain_view no_numbers v \<and> p_selected q = Some (''g'', ''x'')"
  using example_view_plain example_view_json onmessage_keeps_selection
  by (fastforce simp: example_page_def bind_eq_Some_conv split: option.splits)

theorem page_shows_store_witness:
  "\<exists>v data q item mj. example_page = Some (v, data, q) \<and> group_item no_numbers (p_selected q) ''g'' ''x'' mj = Some item
    \<and> sublist item (p_groups q) \<and> sublist ''<span class=\"badge state-active\">desired: active</span>'' item"
proof -
  let ?st = "example_store example_items"
  obtain v data q where page: "example_page = Some (v, data, q)" "plain_view no_numbers v"
    using example_page_view by auto
  let ?start = "new_page\<lparr>p_selected := Some (''g'', ''x'')\<rparr>"
  have v: "view_of Some view_server ?st = Some v" "json_state_view v = Some data" "q = onmessage no_numbers (JSON data) ?start"
    using page(1) by (auto simp: example_page_def bind_eq_Some_conv)
  have names: "clusterID view_server = ''c''" "group_ok ''g''" "member_ok ''x''" "\<not> isManagementSystemKey ''x''"
    by (simp_all add: view_server_def entity_ok_defs isManagementSystemKey_def)
  have stored: "Get ?st (Desired ''c'' ''g'' ''x'') = Some (JSON (JObj [(''state'', JStr ''active''), (''managed'', JBool True)]))" by code_simp
  have fields: "own [(''state'', JStr ''active''), (''managed'', JBool True)] ''state'' = Some (JStr ''active'')"
      "own [(''state'', JStr ''active''), (''managed'', JBool True)] ''managed'' = Some (JBool True)" by (simp_all add: own_def)
  have shown: "''<span class=\"badge state-'' @ ''active'' @ ''\">desired: '' @ escape_text ''active'' @ ''</span>''
      = ''<span class=\"badge state-active\">desired: active</span>''" by code_simp
  from page_shows_store [OF store_wf_example v(1) names(1) id_ok_c names(2-4) v(2) page(2) stored fields(1) _ fields(2), of ?start, unfolded shown]
  show ?thesis unfolding Let_def v(3) [symmetric] using page(1) by blast
qed

text \<open>
  A page can freeze. When the selected management group is in none of the views that follow,
  every view is rendered up to the details, which throw: the panel of details keeps showing the
  group that is gone, and the panel of agents shows the agents of that moment, whatever is sent.
\<close>

theorem removed_selection_freezes_page:
  assumes "p_selected p = Some (g, m)" and "m \<notin> set object_prototype"
    and "\<forall>data \<in> set ds. \<exists>num s st v. store_wf st \<and> view_of num s st = Some v \<and> json_state_view v = Some data \<and> view_group v g m = None"
  shows "let q = fold (\<lambda>data. onmessage js (JSON data)) ds p in
    p_selected q = Some (g, m) \<and> p_details q = p_details p \<and> p_registry q = p_registry p"
  using assms(1,3)
proof (induction ds arbitrary: p)
  case (Cons data ds)
  then have "details js (Val data) g m = None" using details_gone assms(2) by (metis list.set_intros(1))
  from details_throw [OF Cons.prems(1) this] Cons.IH [of "onmessage js (JSON data) p"] Cons.prems show ?case by (simp add: Let_def)
qed simp

theorem removed_selection_freezes_page_witness:
  "\<exists>v data q data'. example_page = Some (v, data, q) \<and> Option.bind (view_of Some view_server new_store) json_state_view = Some data'
    \<and> p_registry (onmessage no_numbers (JSON data') (onmessage no_numbers (JSON data') q)) = p_registry q"
proof -
  obtain v data q where page: "example_page = Some (v, data, q)" "p_selected q = Some (''g'', ''x'')"
    using example_page_view by auto
  have "case view_of Some view_server new_store of None \<Rightarrow> False | Some v \<Rightarrow> json_state_view v \<noteq> None \<and> view_group v ''g'' ''x'' = None"
    by code_simp
  then obtain v' data' where gone: "view_of Some view_server new_store = Some v'" "json_state_view v' = Some data'" "view_group v' ''g'' ''x'' = None"
    by (auto split: option.splits)
  have "let q' = fold (\<lambda>data. onmessage no_numbers (JSON data)) [data', data'] q in
      p_selected q' = Some (''g'', ''x'') \<and> p_details q' = p_details q \<and> p_registry q' = p_registry q"
    by (rule removed_selection_freezes_page [OF page(2)])
      (use gone store_ok_new in \<open>auto simp: object_prototype_def store_ok_def\<close>)
  moreover have "Option.bind (view_of Some view_server new_store) json_state_view = Some data'" using gone(1,2) by simp
  ultimately show ?thesis using page(1) by (metis (no_types) fold_simps)
qed

text \<open>
  What is not escaped: the value of a badge in its class (\<open>state_badge\<close>), and an apostrophe in a
  name that the item of its group puts into JavaScript. A node named like a member of
  \<^verbatim>\<open>Object.prototype\<close> has a session in every view.
\<close>

lemma apostrophe_kept: "escape_text [CHR 0x27] = [CHR 0x27]"
  by code_simp

lemma inherited_name_online: "k \<in> set object_prototype \<Longrightarrow> own sessions k = None \<Longrightarrow> truthy num (js_field (Val (JObj sessions)) k)"
  by simp

text \<open>Text shown is the text sent: a browser reads the escaped text back, and it holds no markup.\<close>

lemma escaped_text_shown: "html_text (escape_text s) = s \<and> set (escape_text s) \<inter> {CHR ''<'', CHR ''>'', CHR 0x22} = {}"
  using html_text_escape escape_text_inert by blast

end
