(* ===== verification/Bootstrap.thy ===== *)
theory Bootstrap
  imports ConfigDocs Example
begin

text \<open>
  \<^verbatim>\<open>internal/bootstrap/bootstrap.go\<close>: what an agent writes to etcd when it starts. Shared keys are
  created if they are absent; the node writes its own configuration document.
\<close>

section \<open>The documents\<close>

definition cluster_doc :: "Config \<Rightarrow> int \<Rightarrow> ClusterConfigDocument" where
  "cluster_doc cfg t = (let cl = Cluster cfg in
     \<lparr>ccd_ID = cl_ID cl, ccd_Name = cl_Name cl, ccd_FailoverMode = FailoverMode cl,
      ccd_LeaderTTL = duration_text (LeaderTTL cl), ccd_LeaderRenewInterval = duration_text (LeaderRenewInterval cl),
      ccd_SessionTTL = duration_text (SessionTTL cl), ccd_UpdatedAt = t\<rparr>)"

definition group_doc :: "string \<Rightarrow> ClusterGroupConfig \<Rightarrow> int \<Rightarrow> ClusterGroupConfigDocument" where
  "group_doc groupID groupCfg t = \<lparr>cgd_ID = groupID, cgd_Name = cgc_Name groupCfg, cgd_UpdatedAt = t\<rparr>"

definition role_doc :: "string \<Rightarrow> RoleConfig \<Rightarrow> int \<Rightarrow> RoleConfigDocument" where
  "role_doc roleID roleCfg t = (let o' = Timeouts roleCfg in
     \<lparr>rcd_ID = roleID, rcd_Name = rc_Name roleCfg, rcd_Actors = Actors roleCfg,
      rcd_Timeouts = \<lparr>rtd_Exec = duration_text (Exec o'), rtd_Converge = duration_text (Converge o'),
        rtd_RetryInterval = duration_text (rt_RetryInterval o'), rtd_CheckInterval = duration_text (CheckInterval o'),
        rtd_DetailsMaxSize = DetailsMaxSize o'\<rparr>,
      rcd_UpdatedAt = t\<rparr>)"

definition node_doc :: "Config \<Rightarrow> int \<Rightarrow> NodeConfigDocument" where
  "node_doc cfg t = (let n = NodeCfg cfg in
     \<lparr>ncd_ID = NodeID n, ncd_Name = nc_Name n,
      ncd_Memberships = map (\<lambda>m. \<lparr>ref_ClusterGroup = mc_ClusterGroup m, ref_ManagementGroup = mc_ManagementGroup m\<rparr>) (Memberships n),
      ncd_UpdatedAt = t\<rparr>)"

definition mg_doc :: "Config \<Rightarrow> MembershipConfig \<Rightarrow> int \<Rightarrow> ManagementGroupConfigDocument" where
  "mg_doc cfg m t = (let conf = mg_conf cfg (mc_ClusterGroup m) (mc_ManagementGroup m) in
     \<lparr>mgc_Priority = mg_Priority conf, mgc_Roles = mg_Roles conf, mgc_UpdatedAt = t\<rparr>)"

definition seed_desired :: "int \<Rightarrow> DesiredDocument" where
  "seed_desired t = \<lparr>d_State = DesiredPassive, d_Managed = False, d_UpdatedAt = t, d_Details = ''bootstrap''\<rparr>"

section \<open>The steps\<close>

definition seed :: "'e etcd_service \<Rightarrow> string \<Rightarrow> bytes option \<Rightarrow> 'e world \<Rightarrow> error option \<times> 'e world" where
  "seed svc key doc w =
     (case doc of
        None \<Rightarrow> (Some json_error, w)
      | Some data \<Rightarrow> (case TryPutIfAbsent svc key data w of
            (Inl err, w) \<Rightarrow> (Some err, w)
          | (Inr created, w) \<Rightarrow> (None, w)))"

definition ensureClusterConfig :: "Config \<Rightarrow> 'e etcd_service \<Rightarrow> 'e world \<Rightarrow> error option \<times> 'e world" where
  "ensureClusterConfig cfg svc w =
     (let (t, w) = now w in seed svc (ConfigMeta (cl_ID (Cluster cfg))) (marshal_clusterconfig (cluster_doc cfg t)) w)"

definition ensureClusterGroup :: "Config \<Rightarrow> 'e etcd_service \<Rightarrow> string \<times> ClusterGroupConfig \<Rightarrow> 'e world \<Rightarrow>
    error option \<times> 'e world" where
  "ensureClusterGroup cfg svc g w = (case g of (groupID, groupCfg) \<Rightarrow>
     (let (t, w) = now w
      in seed svc (ConfigClusterGroupMeta (cl_ID (Cluster cfg)) groupID) (marshal_groupconfig (group_doc groupID groupCfg t)) w))"

definition ensureRole :: "Config \<Rightarrow> 'e etcd_service \<Rightarrow> string \<times> RoleConfig \<Rightarrow> 'e world \<Rightarrow> error option \<times> 'e world" where
  "ensureRole cfg svc r w = (case r of (roleID, roleCfg) \<Rightarrow>
     (let (t, w) = now w
      in seed svc (ConfigRole (cl_ID (Cluster cfg)) roleID) (marshal_roleconfig (role_doc roleID roleCfg t)) w))"

definition ensureNode :: "Config \<Rightarrow> 'e etcd_service \<Rightarrow> 'e world \<Rightarrow> error option \<times> 'e world" where
  "ensureNode cfg svc w =
     (let (t, w) = now w
      in case marshal_nodeconfig (node_doc cfg t) of
           None \<Rightarrow> (Some json_error, w)
         | Some data \<Rightarrow> Put svc (ConfigNode (cl_ID (Cluster cfg)) (NodeID (NodeCfg cfg))) data 0 w)"

definition ensureMembership :: "Config \<Rightarrow> 'e etcd_service \<Rightarrow> MembershipConfig \<Rightarrow> 'e world \<Rightarrow> error option \<times> 'e world" where
  "ensureMembership cfg svc m w =
     (let (t, w) = now w; c = cl_ID (Cluster cfg)
      in case seed svc (ManagementGroupConfig c (mc_ClusterGroup m) (mc_ManagementGroup m)) (marshal_mgconfig (mg_doc cfg m t)) w of
           (Some err, w) \<Rightarrow> (Some err, w)
         | (None, w) \<Rightarrow> seed svc (Desired c (mc_ClusterGroup m) (mc_ManagementGroup m)) (marshal_desired (seed_desired t)) w)"

text \<open>The maps of the configuration are listed in the order the loop visits them.\<close>

definition Ensure :: "Config \<Rightarrow> 'e etcd_service \<Rightarrow> 'e world \<Rightarrow> error option \<times> 'e world" where
  "Ensure cfg svc w =
     (case ensureClusterConfig cfg svc w of
        (Some err, w) \<Rightarrow> (Some err, w)
      | (None, w) \<Rightarrow>
          (case for_err (ensureClusterGroup cfg svc) (cl_Groups (Cluster cfg)) w of
             (Some err, w) \<Rightarrow> (Some err, w)
           | (None, w) \<Rightarrow>
               (case for_err (ensureRole cfg svc) (Roles cfg) w of
                  (Some err, w) \<Rightarrow> (Some err, w)
                | (None, w) \<Rightarrow>
                    (case ensureNode cfg svc w of
                       (Some err, w) \<Rightarrow> (Some err, w)
                     | (None, w) \<Rightarrow> for_err (ensureMembership cfg svc) (Memberships (NodeCfg cfg)) w))))"

section \<open>What may be seeded\<close>

text \<open>The entries \<open>Ensure\<close> creates if they are absent, with the document of a time stamp.\<close>

definition seeds :: "Config \<Rightarrow> int \<Rightarrow> (entity \<times> bytes option) list" where
  "seeds cfg t =
     (EConfigMeta, marshal_clusterconfig (cluster_doc cfg t))
     # map (\<lambda>(g, c). (EConfigGroup g, marshal_groupconfig (group_doc g c t))) (cl_Groups (Cluster cfg))
     @ map (\<lambda>(r, c). (EConfigRole r, marshal_roleconfig (role_doc r c t))) (Roles cfg)
     @ map (\<lambda>m. (EGroupConfig (mc_ClusterGroup m) (mc_ManagementGroup m), marshal_mgconfig (mg_doc cfg m t))) (Memberships (NodeCfg cfg))
     @ map (\<lambda>m. (EDesired (mc_ClusterGroup m) (mc_ManagementGroup m), marshal_desired (seed_desired t))) (Memberships (NodeCfg cfg))"

definition own_node :: "Config \<Rightarrow> entity" where
  "own_node cfg = EConfigNode (NodeID (NodeCfg cfg))"

text \<open>
  The contract of the steps: a relation that holds for a reading of the clock, for seeding an
  entry of the list and for writing the node's document holds for \<open>Ensure\<close>.
\<close>

locale bootstrap_steps =
  fixes R :: "'e world \<Rightarrow> 'e world \<Rightarrow> bool" and svc :: "'e etcd_service" and cfg :: Config
  assumes refl: "R w w"
    and trans: "R u v \<Longrightarrow> R v w \<Longrightarrow> R u w"
    and now_step: "R w (snd (now w))"
    and create_step: "(e, Some b) \<in> set (seeds cfg t) \<Longrightarrow>
      R w (snd (TryPutIfAbsent svc (entity_key (cl_ID (Cluster cfg)) e) b w))"
    and node_step: "marshal_nodeconfig (node_doc cfg t) = Some b \<Longrightarrow>
      R w (snd (Put svc (entity_key (cl_ID (Cluster cfg)) (own_node cfg)) b 0 w))"
begin

lemma seed_step: "(e, doc) \<in> set (seeds cfg t) \<Longrightarrow> R w (snd (seed svc (entity_key (cl_ID (Cluster cfg)) e) doc w))"
  using refl create_step [of e _ t w] by (auto simp: seed_def split: option.splits prod.splits sum.splits) (metis snd_conv)+

lemma now_seed_step:
  "(e, doc) \<in> set (seeds cfg t) \<Longrightarrow> R w (snd (seed svc (entity_key (cl_ID (Cluster cfg)) e) doc (snd (now w))))"
  by (rule trans [OF now_step seed_step])

lemma group_step: "g \<in> set (cl_Groups (Cluster cfg)) \<Longrightarrow> R w (snd (ensureClusterGroup cfg svc g w))"
  using now_seed_step [of "EConfigGroup (fst g)" "marshal_groupconfig (group_doc (fst g) (snd g) (fst (now w)))" "fst (now w)" w]
  by (force simp: ensureClusterGroup_def seeds_def case_prod_beta)

lemma role_step: "r \<in> set (Roles cfg) \<Longrightarrow> R w (snd (ensureRole cfg svc r w))"
  using now_seed_step [of "EConfigRole (fst r)" "marshal_roleconfig (role_doc (fst r) (snd r) (fst (now w)))" "fst (now w)" w]
  by (force simp: ensureRole_def seeds_def case_prod_beta)

lemma own_node_step: "R w (snd (ensureNode cfg svc w))"
  using now_step trans [OF now_step node_step]
  by (auto simp: ensureNode_def own_node_def case_prod_beta split: option.splits)

lemma membership_step:
  assumes "m \<in> set (Memberships (NodeCfg cfg))"
  shows "R w (snd (ensureMembership cfg svc m w))"
proof -
  let ?t = "fst (now w)" and ?c = "cl_ID (Cluster cfg)"
  let ?g = "EGroupConfig (mc_ClusterGroup m) (mc_ManagementGroup m)" and ?d = "EDesired (mc_ClusterGroup m) (mc_ManagementGroup m)"
  have in_seeds: "(?g, marshal_mgconfig (mg_doc cfg m ?t)) \<in> set (seeds cfg ?t)" "(?d, marshal_desired (seed_desired ?t)) \<in> set (seeds cfg ?t)"
    using assms by (auto simp: seeds_def)
  obtain err w1 where w1: "seed svc (entity_key ?c ?g) (marshal_mgconfig (mg_doc cfg m ?t)) (snd (now w)) = (err, w1)" by fastforce
  have "R w w1" using now_seed_step [OF in_seeds(1), of w] w1 by (metis snd_conv)
  moreover have "R w1 (snd (seed svc (entity_key ?c ?d) (marshal_desired (seed_desired ?t)) w1))"
    by (rule seed_step [OF in_seeds(2)])
  moreover have "snd (ensureMembership cfg svc m w) =
      (if err = None then snd (seed svc (entity_key ?c ?d) (marshal_desired (seed_desired ?t)) w1) else w1)"
    using w1 by (simp add: ensureMembership_def case_prod_beta Let_def split: option.split)
  ultimately show ?thesis using trans by auto
qed

lemma loop_step:
  assumes "\<And>x w. x \<in> set xs \<Longrightarrow> R w (snd (f x w))" and "R w0 w"
  shows "R w0 (snd (for_err f xs w))"
  by (rule for_err_invariant) (use assms trans in blast)+

text \<open>A loop without an error has done every step, and \<open>R\<close> leads from there to its end.\<close>

lemma loop_done:
  assumes "\<And>x w. x \<in> set xs \<Longrightarrow> R w (snd (f x w))" and "for_err f xs w = (None, w')" and "x \<in> set xs"
  shows "\<exists>u v. f x u = (None, v) \<and> R v w'"
  using assms
proof (induction xs arbitrary: w)
  case (Cons y ys)
  obtain v where v: "f y w = (None, v)" "for_err f ys v = (None, w')"
    using Cons.prems(2) by (auto split: prod.splits option.splits)
  have "R v w'" using loop_step [of ys f v v] Cons.prems(1) refl v(2) by (metis list.set_intros(2) snd_conv)
  then show ?case using Cons v by auto
qed simp

lemma Ensure_steps: "R w (snd (Ensure cfg svc w))"
proof -
  obtain e1 w1 where 1: "ensureClusterConfig cfg svc w = (e1, w1)" by fastforce
  obtain e2 w2 where 2: "for_err (ensureClusterGroup cfg svc) (cl_Groups (Cluster cfg)) w1 = (e2, w2)" by fastforce
  obtain e3 w3 where 3: "for_err (ensureRole cfg svc) (Roles cfg) w2 = (e3, w3)" by fastforce
  obtain e4 w4 where 4: "ensureNode cfg svc w3 = (e4, w4)" by fastforce
  have "R w (snd (ensureClusterConfig cfg svc w))"
    unfolding ensureClusterConfig_def case_prod_beta Let_def
    by (rule now_seed_step [of EConfigMeta _ "fst (now w)", unfolded entity_key.simps]) (simp add: seeds_def)
  then have "R w w1" using 1 by simp
  moreover have "R w (snd (for_err (ensureClusterGroup cfg svc) (cl_Groups (Cluster cfg)) w1))"
    by (rule loop_step [OF group_step \<open>R w w1\<close>])
  then have "R w w2" unfolding 2 snd_conv .
  moreover have "R w (snd (for_err (ensureRole cfg svc) (Roles cfg) w2))"
    by (rule loop_step [OF role_step \<open>R w w2\<close>])
  then have "R w w3" unfolding 3 snd_conv .
  moreover have "R w w4" using trans [OF \<open>R w w3\<close> own_node_step] unfolding 4 snd_conv .
  moreover have "R w (snd (for_err (ensureMembership cfg svc) (Memberships (NodeCfg cfg)) w4))"
    by (rule loop_step [OF membership_step \<open>R w w4\<close>])
  ultimately show ?thesis by (simp add: Ensure_def 1 2 3 4 split: option.splits)
qed

end

text \<open>Instances: the requests it sends, and what it does to the keys.\<close>

definition boot_request :: "Config \<Rightarrow> request \<Rightarrow> bool" where
  "boot_request cfg r \<longleftrightarrow> (\<exists>e b t. (e, Some b) \<in> set (seeds cfg t) \<and> r = ReqCreate (entity_key (cl_ID (Cluster cfg)) e) b 0)
     \<or> (\<exists>b. r = ReqPut (entity_key (cl_ID (Cluster cfg)) (own_node cfg)) b 0)"

interpretation boot_sends: bootstrap_steps "adds (boot_request cfg)" svc cfg for svc :: "'e etcd_service" and cfg
  by unfold_locales
    (auto simp: boot_request_def TryPutIfAbsent_def adds_def case_prod_beta intro: adds_trans adds_Put)

definition seed_pair :: "Config \<Rightarrow> string \<Rightarrow> bytes \<Rightarrow> bool" where
  "seed_pair cfg k b \<longleftrightarrow> (\<exists>e t. (e, Some b) \<in> set ((own_node cfg, marshal_nodeconfig (node_doc cfg t)) # seeds cfg t)
     \<and> k = entity_key (cl_ID (Cluster cfg)) e)"

definition only_seeds :: "('e \<Rightarrow> string \<rightharpoonup> bytes) \<Rightarrow> Config \<Rightarrow> 'e world \<Rightarrow> 'e world \<Rightarrow> bool" where
  "only_seeds kv cfg w w' \<longleftrightarrow> (\<forall>k. kv (service_state w') k = kv (service_state w) k
     \<or> (kv (service_state w) k = None \<or> k = entity_key (cl_ID (Cluster cfg)) (own_node cfg))
        \<and> (\<exists>b. kv (service_state w') k = Some b \<and> seed_pair cfg k b))"

sublocale etcd_kv \<subseteq> boot_keeps: bootstrap_steps "only_seeds kv cfg" svc cfg for cfg
proof
  fix u v w assume uv: "only_seeds kv cfg u v" and vw: "only_seeds kv cfg v w"
  show "only_seeds kv cfg u w"
    unfolding only_seeds_def
  proof (intro allI)
    fix k
    show "kv (service_state w) k = kv (service_state u) k
      \<or> (kv (service_state u) k = None \<or> k = entity_key (cl_ID (Cluster cfg)) (own_node cfg))
         \<and> (\<exists>b. kv (service_state w) k = Some b \<and> seed_pair cfg k b)"
      using uv [unfolded only_seeds_def, rule_format, of k] vw [unfolded only_seeds_def, rule_format, of k] by auto
  qed
next
  fix e b t and w :: "'e world" assume "(e, Some b) \<in> set (seeds cfg t)"
  then have p: "seed_pair cfg (entity_key (cl_ID (Cluster cfg)) e) b" by (auto simp: seed_pair_def)
  obtain r e' where r: "svc_create svc (service_state w) (entity_key (cl_ID (Cluster cfg)) e) b 0 = (r, e')" by fastforce
  show "only_seeds kv cfg w (snd (TryPutIfAbsent svc (entity_key (cl_ID (Cluster cfg)) e) b w))"
    using r p create_yes [of "service_state w" "entity_key (cl_ID (Cluster cfg)) e" b 0 e']
      create_no [of "service_state w" "entity_key (cl_ID (Cluster cfg)) e" b 0 e']
      create_err [of "service_state w" "entity_key (cl_ID (Cluster cfg)) e" b 0 _ e']
    by (cases r; cases "r = Inr True") (auto simp: only_seeds_def TryPutIfAbsent_def split: if_splits)
next
  fix t b and w :: "'e world" assume "marshal_nodeconfig (node_doc cfg t) = Some b"
  then have p: "seed_pair cfg (entity_key (cl_ID (Cluster cfg)) (own_node cfg)) b"
    unfolding seed_pair_def by (intro exI [of _ "own_node cfg"] exI [of _ t]) simp
  obtain r e' where r: "svc_put svc (service_state w) (entity_key (cl_ID (Cluster cfg)) (own_node cfg)) b 0 = (r, e')" by fastforce
  show "only_seeds kv cfg w (snd (Put svc (entity_key (cl_ID (Cluster cfg)) (own_node cfg)) b 0 w))"
    using r p put_ok [of "service_state w" "entity_key (cl_ID (Cluster cfg)) (own_node cfg)" b 0 e']
      put_err [of "service_state w" "entity_key (cl_ID (Cluster cfg)) (own_node cfg)" b 0 _ e']
    by (cases r) (auto simp: only_seeds_def Put_def)
qed (auto simp: only_seeds_def)

section \<open>Properties\<close>

text \<open>Ids of the configuration that give keys of their own.\<close>

definition bootable :: "Config \<Rightarrow> bool" where
  "bootable cfg \<longleftrightarrow> id_ok (cl_ID (Cluster cfg)) \<and> id_ok (NodeID (NodeCfg cfg))
     \<and> (\<forall>(g, c) \<in> set (cl_Groups (Cluster cfg)). group_ok g) \<and> (\<forall>(r, c) \<in> set (Roles cfg). id_ok r)
     \<and> (\<forall>m \<in> set (Memberships (NodeCfg cfg)). group_ok (mc_ClusterGroup m) \<and> member_ok (mc_ManagementGroup m))"

lemma bootable_entity:
  "bootable cfg \<Longrightarrow> (e, doc) \<in> set ((own_node cfg, d) # seeds cfg t) \<Longrightarrow> entity_ok e"
  by (auto simp: bootable_def seeds_def own_node_def)

lemma seed_pair_desired:
  assumes "bootable cfg" and "entity_ok (EDesired g m)" and "seed_pair cfg (entity_key (cl_ID (Cluster cfg)) (EDesired g m)) b"
  shows "\<exists>doc. unmarshal_desired b = Some doc \<and> d_State doc = DesiredPassive \<and> \<not> d_Managed doc"
proof -
  obtain e t where e: "(e, Some b) \<in> set ((own_node cfg, marshal_nodeconfig (node_doc cfg t)) # seeds cfg t)"
      "entity_key (cl_ID (Cluster cfg)) (EDesired g m) = entity_key (cl_ID (Cluster cfg)) e"
    using assms(3) unfolding seed_pair_def by blast
  have "id_ok (cl_ID (Cluster cfg))" using assms(1) by (simp add: bootable_def)
  then have "e = EDesired g m"
    using e entity_key_inject assms(2) bootable_entity [OF assms(1) e(1)] by metis
  then have "marshal_desired (seed_desired t) = Some b" using e(1) by (auto simp: seeds_def own_node_def)
  then show ?thesis using desired.roundtrip by (fastforce simp: seed_desired_def)
qed

context etcd_kv
begin

lemma seed_present:
  assumes "seed svc k doc w = (None, w')"
  shows "kv (service_state w') k \<noteq> None"
proof -
  obtain b created e where b: "svc_create svc (service_state w) k b 0 = (Inr created, e)" "service_state w' = e"
    using assms by (auto simp: seed_def TryPutIfAbsent_def split: option.splits prod.splits sum.splits)
  show ?thesis
    using b create_yes [of "service_state w" k b 0 e] create_no [of "service_state w" k b 0 e] by (cases created) auto
qed

lemma boot_only_seeds: "only_seeds kv cfg w (snd (Ensure cfg svc w))"
  by (rule boot_keeps.Ensure_steps)

lemma only_seeds_present:
  "only_seeds kv cfg w w' \<Longrightarrow> kv (service_state w) k \<noteq> None \<Longrightarrow> kv (service_state w') k \<noteq> None"
  unfolding only_seeds_def by (metis option.distinct(1))

lemma Ensure_membership_present:
  assumes "Ensure cfg svc w = (None, w')" and "m \<in> set (Memberships (NodeCfg cfg))"
  shows "kv (service_state w') (Desired (cl_ID (Cluster cfg)) (mc_ClusterGroup m) (mc_ManagementGroup m)) \<noteq> None
    \<and> kv (service_state w') (ManagementGroupConfig (cl_ID (Cluster cfg)) (mc_ClusterGroup m) (mc_ManagementGroup m)) \<noteq> None"
proof -
  obtain w4 where "for_err (ensureMembership cfg svc) (Memberships (NodeCfg cfg)) w4 = (None, w')"
    using assms(1) by (auto simp: Ensure_def split: prod.splits option.splits)
  from boot_keeps.loop_done [OF boot_keeps.membership_step this assms(2)]
  obtain u v where uv: "ensureMembership cfg svc m u = (None, v)" "only_seeds kv cfg v w'" by blast
  obtain err w1 where w1: "seed svc (ManagementGroupConfig (cl_ID (Cluster cfg)) (mc_ClusterGroup m) (mc_ManagementGroup m))
      (marshal_mgconfig (mg_doc cfg m (fst (now u)))) (snd (now u)) = (err, w1)" by fastforce
  have none: "err = None" and v: "seed svc (Desired (cl_ID (Cluster cfg)) (mc_ClusterGroup m) (mc_ManagementGroup m))
      (marshal_desired (seed_desired (fst (now u)))) w1 = (None, v)"
    using uv(1) w1 by (auto simp: ensureMembership_def case_prod_beta Let_def split: option.splits)
  have "only_seeds kv cfg w1 (snd (seed svc (entity_key (cl_ID (Cluster cfg)) (EDesired (mc_ClusterGroup m) (mc_ManagementGroup m)))
      (marshal_desired (seed_desired (fst (now u)))) w1))"
    by (rule boot_keeps.seed_step [of _ _ _ "fst (now u)"]) (use assms(2) in \<open>auto simp: seeds_def\<close>)
  then have "only_seeds kv cfg w1 v" using v by simp
  then show ?thesis
    using seed_present [OF v] seed_present [OF w1 [unfolded none]] only_seeds_present uv(2) by blast
qed

end

text \<open>
  C35: starting an agent overwrites nothing. Whatever \<^verbatim>\<open>Ensure\<close> answers and wherever it stops, every
  key that existed is unchanged, except the configuration document of the node itself, and a key
  that changed holds the document of the local configuration it stands for; \<^verbatim>\<open>Ensure\<close> sends only
  creating transactions for these documents and puts of the node's document.
\<close>

theorem bootstrap_overwrites_nothing:
  assumes "etcd_kv svc kv"
  shows "(\<forall>k. kv (service_state (snd (Ensure cfg svc w))) k = kv (service_state w) k
      \<or> (kv (service_state w) k = None \<or> k = ConfigNode (cl_ID (Cluster cfg)) (NodeID (NodeCfg cfg)))
         \<and> (\<exists>b. kv (service_state (snd (Ensure cfg svc w))) k = Some b \<and> seed_pair cfg k b))
    \<and> adds (boot_request cfg) w (snd (Ensure cfg svc w))"
proof (rule conjI)
  show "\<forall>k. kv (service_state (snd (Ensure cfg svc w))) k = kv (service_state w) k
      \<or> (kv (service_state w) k = None \<or> k = ConfigNode (cl_ID (Cluster cfg)) (NodeID (NodeCfg cfg)))
         \<and> (\<exists>b. kv (service_state (snd (Ensure cfg svc w))) k = Some b \<and> seed_pair cfg k b)"
    using etcd_kv.boot_only_seeds [OF assms, of cfg w]
    unfolding only_seeds_def own_node_def entity_key.simps .
qed (rule boot_sends.Ensure_steps)

theorem bootstrap_overwrites_nothing_witness:
  "map_of (fst (service_state (snd (Ensure (example_cfg ''manual'') mem_service
      (example_world [(EDesired ''g'' ''x'', desired_json ''active'' True)]))))) (Desired ''c'' ''g'' ''x'')
    = Some (desired_json ''active'' True)"
proof -
  let ?w = "example_world [(EDesired ''g'' ''x'', desired_json ''active'' True)]"
  have "map_of (fst (service_state ?w)) (Desired ''c'' ''g'' ''x'') = Some (desired_json ''active'' True)"
    by (simp add: example_world_def)
  moreover have "Desired ''c'' ''g'' ''x'' \<noteq> ConfigNode ''c'' ''n''" by code_simp
  moreover have "ConfigNode (cl_ID (Cluster (example_cfg ''manual''))) (NodeID (NodeCfg (example_cfg ''manual''))) = ConfigNode ''c'' ''n''"
    by (simp add: example_cfg_def)
  ultimately show ?thesis
    using bootstrap_overwrites_nothing [OF mem.etcd_kv_axioms, of "example_cfg ''manual''" ?w] by (metis option.distinct(1))
qed

text \<open>
  C36: a group starts passive and unmanaged. When \<^verbatim>\<open>Ensure\<close> answers without error, every
  management group of the node has a configuration document and a desired document, and where
  no desired document existed it is passive and outside the authority of the controller.
\<close>

theorem bootstrap_starts_passive:
  assumes "etcd_kv svc kv" and "bootable cfg" and "Ensure cfg svc w = (None, w')" and "m \<in> set (Memberships (NodeCfg cfg))"
    and "k = Desired (cl_ID (Cluster cfg)) (mc_ClusterGroup m) (mc_ManagementGroup m)"
  shows "kv (service_state w') k \<noteq> None
    \<and> kv (service_state w') (ManagementGroupConfig (cl_ID (Cluster cfg)) (mc_ClusterGroup m) (mc_ManagementGroup m)) \<noteq> None
    \<and> (kv (service_state w) k = None \<longrightarrow> (\<exists>b doc. kv (service_state w') k = Some b
         \<and> unmarshal_desired b = Some doc \<and> d_State doc = DesiredPassive \<and> \<not> d_Managed doc))"
proof (intro conjI impI)
  let ?c = "cl_ID (Cluster cfg)"
  show "kv (service_state w') k \<noteq> None"
    and "kv (service_state w') (ManagementGroupConfig ?c (mc_ClusterGroup m) (mc_ManagementGroup m)) \<noteq> None"
    using etcd_kv.Ensure_membership_present [OF assms(1,3,4)] assms(5) by blast+
  assume none: "kv (service_state w) k = None"
  have ok: "entity_ok (EDesired (mc_ClusterGroup m) (mc_ManagementGroup m))" using assms(2,4) by (simp add: bootable_def)
  have "only_seeds kv cfg w w'" using etcd_kv.boot_only_seeds [OF assms(1), of cfg w] assms(3) by simp
  then obtain b where "kv (service_state w') k = Some b" "seed_pair cfg k b"
    using none \<open>kv (service_state w') k \<noteq> None\<close> unfolding only_seeds_def by metis
  then show "\<exists>b doc. kv (service_state w') k = Some b \<and> unmarshal_desired b = Some doc
      \<and> d_State doc = DesiredPassive \<and> \<not> d_Managed doc"
    using seed_pair_desired [OF assms(2) ok] assms(5) by auto
qed

theorem bootstrap_starts_passive_witness:
  "\<exists>b doc. map_of (fst (service_state (snd (Ensure (example_cfg ''manual'') mem_service (example_world []))))) (Desired ''c'' ''g'' ''x'') = Some b
     \<and> unmarshal_desired b = Some doc \<and> d_State doc = DesiredPassive \<and> \<not> d_Managed doc"
proof -
  let ?cfg = "example_cfg ''manual''" and ?m = "\<lparr>mc_ClusterGroup = ''g'', mc_ManagementGroup = ''x''\<rparr>"
  have "fst (Ensure ?cfg mem_service (example_world [])) = None" by code_simp
  then have run: "Ensure ?cfg mem_service (example_world []) = (None, snd (Ensure ?cfg mem_service (example_world [])))"
    by (simp add: prod_eq_iff)
  have "bootable ?cfg" by code_simp
  moreover have "?m \<in> set (Memberships (NodeCfg ?cfg))" by (simp add: example_cfg_def)
  moreover have "Desired ''c'' ''g'' ''x'' = Desired (cl_ID (Cluster ?cfg)) (mc_ClusterGroup ?m) (mc_ManagementGroup ?m)"
    by (simp add: example_cfg_def)
  ultimately show ?thesis
    using bootstrap_starts_passive [OF mem.etcd_kv_axioms _ run, of ?m "Desired ''c'' ''g'' ''x''"]
    by (simp add: example_world_def)
qed

end
