(* ===== verification/Seeding.thy ===== *)
theory Seeding
  imports Bootstrap
begin

text \<open>
  The way of a configuration through etcd: what an agent seeds when it starts
  (\<^verbatim>\<open>bootstrap.go\<close>), the watcher reads (\<^verbatim>\<open>loadSnapshot\<close>) and \<^verbatim>\<open>Merge\<close> puts over the local
  configuration, with the texts of durations and JSON in between.
\<close>

section \<open>A document that agrees with the configuration\<close>

definition agrees :: "Config \<Rightarrow> EtcdSnapshot \<Rightarrow> bool" where
  "agrees cfg snap \<longleftrightarrow>
     (\<forall>c. sn_Cluster snap = Some c \<longrightarrow> merge_cluster (Some c) (Cluster cfg) = Cluster cfg)
     \<and> (\<forall>x \<in> set (sn_ClusterGroups snap). merge_group x (cl_Groups (Cluster cfg)) = cl_Groups (Cluster cfg))
     \<and> (\<forall>x \<in> set (sn_Roles snap). merge_role x (Roles cfg) = Roles cfg)
     \<and> (\<forall>(cg, docs) \<in> set (sn_ManagementGroups snap). \<exists>mgs. map_of (ManagementGroups cfg) cg = Some mgs
          \<and> (\<forall>x \<in> set docs. merge_mg x mgs = mgs))
     \<and> (\<forall>n. sn_Node snap = Some n \<longrightarrow> merge_node (Some n) (NodeCfg cfg) = NodeCfg cfg)"

lemma for_each_same: "\<forall>x \<in> set xs. f x s = s \<Longrightarrow> for_each f xs s = s"
  by (induction xs) auto

lemma update_same: "map_of m k = Some v \<Longrightarrow> AList.update k v m = m"
  by (induction m) (auto split: if_splits)

lemma Merge_agrees:
  assumes "agrees cfg snap"
  shows "Merge cfg (Some snap) = cfg"
proof -
  have cl: "merge_cluster (sn_Cluster snap) (Cluster cfg) = Cluster cfg"
    using assms by (cases "sn_Cluster snap") (auto simp: agrees_def merge_cluster_def)
  have node: "merge_node (sn_Node snap) (NodeCfg cfg) = NodeCfg cfg"
    using assms by (cases "sn_Node snap") (auto simp: agrees_def merge_node_def)
  have "merge_mgs x (ManagementGroups cfg) = ManagementGroups cfg" if "x \<in> set (sn_ManagementGroups snap)" for x
  proof -
    obtain cg docs mgs where x: "x = (cg, docs)" "map_of (ManagementGroups cfg) cg = Some mgs" "\<forall>d \<in> set docs. merge_mg d mgs = mgs"
      using assms \<open>x \<in> set (sn_ManagementGroups snap)\<close> by (fastforce simp: agrees_def)
    then show ?thesis by (simp add: merge_mgs_def go_index_def for_each_same update_same)
  qed
  then show ?thesis
    using assms cl node by (simp add: Merge_def agrees_def for_each_same Let_def)
qed

lemma merge_dur_same: "int64 d \<Longrightarrow> merge_dur (duration_text d) d = d"
  by (simp add: merge_dur_def parse_duration_text)

lemma merge_str_same [simp]: "merge_str s s = s"
  by (simp add: merge_str_def)

text \<open>What is needed of the local configuration: numbers that fit, maps without duplicates.\<close>

definition timeouts_fit :: "RoleTimeouts \<Rightarrow> bool" where
  "timeouts_fit t \<longleftrightarrow> int64 (Exec t) \<and> int64 (Converge t) \<and> int64 (rt_RetryInterval t) \<and> int64 (CheckInterval t)
     \<and> int64 (DetailsMaxSize t)"

definition mergeable :: "Config \<Rightarrow> bool" where
  "mergeable cfg \<longleftrightarrow>
     int64 (LeaderTTL (Cluster cfg)) \<and> int64 (LeaderRenewInterval (Cluster cfg)) \<and> int64 (SessionTTL (Cluster cfg))
     \<and> distinct (map fst (cl_Groups (Cluster cfg))) \<and> distinct (map fst (Roles cfg))
     \<and> (\<forall>(r, c) \<in> set (Roles cfg). timeouts_fit (Timeouts c) \<and> distinct (map fst (Actors c)) \<and> sort_key fst (Actors c) = Actors c)
     \<and> (\<forall>m \<in> set (Memberships (NodeCfg cfg)). case map_of (ManagementGroups cfg) (mc_ClusterGroup m) of None \<Rightarrow> False
          | Some mgs \<Rightarrow> (case map_of mgs (mc_ManagementGroup m) of None \<Rightarrow> False | Some conf \<Rightarrow> int64 (mg_Priority conf)))"

lemma cluster_doc_agrees:
  "mergeable cfg \<Longrightarrow> merge_cluster (Some (cluster_doc cfg t)) (Cluster cfg) = Cluster cfg"
  by (simp add: merge_cluster_def cluster_doc_def mergeable_def merge_dur_same Let_def)

lemma group_doc_agrees:
  assumes "mergeable cfg" and "(g, c) \<in> set (cl_Groups (Cluster cfg))"
  shows "merge_group (g, group_doc g c t) (cl_Groups (Cluster cfg)) = cl_Groups (Cluster cfg)"
proof -
  have "map_of (cl_Groups (Cluster cfg)) g = Some c" using assms by (simp add: mergeable_def map_of_is_SomeI)
  then show ?thesis by (simp add: merge_group_def group_doc_def go_index_def update_same)
qed

lemma role_doc_agrees:
  assumes "mergeable cfg" and "(r, c) \<in> set (Roles cfg)"
  shows "merge_role (r, role_doc r c t) (Roles cfg) = Roles cfg"
proof -
  have "map_of (Roles cfg) r = Some c" using assms by (simp add: mergeable_def map_of_is_SomeI)
  moreover have "timeouts_fit (Timeouts c)" using assms by (auto simp: mergeable_def)
  ultimately show ?thesis
    by (simp add: merge_role_def role_doc_def go_index_def update_same Let_def merge_dur_same timeouts_fit_def)
qed

lemma mg_doc_agrees:
  assumes "mergeable cfg" and "m \<in> set (Memberships (NodeCfg cfg))"
  shows "\<exists>mgs. map_of (ManagementGroups cfg) (mc_ClusterGroup m) = Some mgs
    \<and> merge_mg (mc_ManagementGroup m, mg_doc cfg m t) mgs = mgs \<and> int64 (mgc_Priority (mg_doc cfg m t))"
  using assms by (fastforce simp: mergeable_def merge_mg_def mg_doc_def mg_conf_def go_index_def update_same Let_def
      split: option.splits)

lemma node_doc_agrees: "merge_node (Some (node_doc cfg t)) (NodeCfg cfg) = NodeCfg cfg"
proof -
  have "(\<lambda>x. \<lparr>mc_ClusterGroup = mc_ClusterGroup x, mc_ManagementGroup = mc_ManagementGroup x\<rparr>) = (\<lambda>x :: MembershipConfig. x)"
    by (rule ext) simp
  then show ?thesis by (simp add: merge_node_def node_doc_def comp_def Let_def)
qed

section \<open>Sorting the keys\<close>

lemma split_slash_join_append:
  "\<forall>s \<in> set xs. slash \<notin> set s \<Longrightarrow> xs \<noteq> [] \<Longrightarrow> split_slash (join [slash] xs @ slash # r) = xs @ split_slash r"
  by (induction xs rule: induct_list012) (simp_all add: split_slash_cons)

lemma has_prefix_abs_path:
  assumes "\<forall>s \<in> set xs. id_ok s" and "\<forall>s \<in> set ys. id_ok s" and "xs \<noteq> []" and "ys \<noteq> []"
  shows "has_prefix (abs_path xs @ ''/'') (abs_path ys) \<longleftrightarrow> (\<exists>zs. zs \<noteq> [] \<and> ys = xs @ zs)"
proof
  assume "has_prefix (abs_path xs @ ''/'') (abs_path ys)"
  then obtain r where "join [slash] ys = join [slash] xs @ slash # r" by (auto simp: has_prefix_iff abs_path_def)
  moreover have "split_slash (join [slash] ys) = ys" using assms(2,4) by (intro split_slash_join) (auto simp: id_ok_def)
  moreover have "split_slash (join [slash] xs @ slash # r) = xs @ split_slash r"
    using assms(1,3) by (intro split_slash_join_append) (auto simp: id_ok_def)
  ultimately have "ys = xs @ split_slash r" by simp
  then show "\<exists>zs. zs \<noteq> [] \<and> ys = xs @ zs" using split_slash_nonempty by blast
next
  assume "\<exists>zs. zs \<noteq> [] \<and> ys = xs @ zs"
  then obtain zs where "zs \<noteq> []" "ys = xs @ zs" by blast
  then show "has_prefix (abs_path xs @ ''/'') (abs_path ys)"
    using assms(3) by (auto simp: has_prefix_iff abs_path_def join_append)
qed

lemma cut_slash_append: "slash \<notin> set g \<Longrightarrow> cut_slash (g @ slash # s) = Some (g, s)"
  by (induction g) auto

text \<open>What one item of the answer adds to the snapshot, by what it is about.\<close>

lemma sort_item_entity:
  fixes cfg :: Config
  defines "c \<equiv> cl_ID (Cluster cfg)"
  assumes "id_ok c" and "id_ok (NodeID (NodeCfg cfg))" and "entity_ok e"
  shows "sort_item cfg (entity_key c e, raw) snap =
    (case e of
       EConfigMeta \<Rightarrow> (case unmarshal_clusterconfig raw of Some doc \<Rightarrow> snap\<lparr>sn_Cluster := Some doc\<rparr> | None \<Rightarrow> snap)
     | EConfigNode n \<Rightarrow> if n = NodeID (NodeCfg cfg)
         then (case unmarshal_nodeconfig raw of Some doc \<Rightarrow> snap\<lparr>sn_Node := Some doc\<rparr> | None \<Rightarrow> snap) else snap
     | EConfigRole r \<Rightarrow> (case unmarshal_roleconfig raw of
           Some doc \<Rightarrow> if rcd_ID doc = [] then snap else snap\<lparr>sn_Roles := AList.update (rcd_ID doc) doc (sn_Roles snap)\<rparr>
         | None \<Rightarrow> snap)
     | EConfigGroup g \<Rightarrow> (case unmarshal_groupconfig raw of
           Some doc \<Rightarrow> if cgd_ID doc = [] then snap else snap\<lparr>sn_ClusterGroups := AList.update g doc (sn_ClusterGroups snap)\<rparr>
         | None \<Rightarrow> snap)
     | EGroupConfig g m \<Rightarrow> (case unmarshal_mgconfig raw of
           Some doc \<Rightarrow> snap\<lparr>sn_ManagementGroups := AList.update g
             (AList.update m doc (go_index (map_of (sn_ManagementGroups snap)) [] g)) (sn_ManagementGroups snap)\<rparr>
         | None \<Rightarrow> snap)
     | _ \<Rightarrow> snap)"
proof -
  have meta: "entity_key c e = ConfigMeta c \<longleftrightarrow> e = EConfigMeta"
    using entity_key_inject [OF assms(2,4), of EConfigMeta] by simp
  have node: "entity_key c e = ConfigNode c (NodeID (NodeCfg cfg)) \<longleftrightarrow> e = EConfigNode (NodeID (NodeCfg cfg))"
    using entity_key_inject [OF assms(2,4), of "EConfigNode (NodeID (NodeCfg cfg))"] assms(3) by simp
  have below: "has_prefix (abs_path [c, ''cluster'', ''config'', x] @ ''/'') (entity_key c e)
      \<longleftrightarrow> take 2 (entity_tail e) = [''config'', x] \<and> length (entity_tail e) > 2" if "id_ok x" for x
  proof -
    have "has_prefix (abs_path [c, ''cluster'', ''config'', x] @ ''/'') (entity_key c e)
        \<longleftrightarrow> (\<exists>zs. zs \<noteq> [] \<and> entity_tail e = [''config'', x] @ zs)"
      using has_prefix_abs_path [of "[c, ''cluster'', ''config'', x]" "entity_segs c e"] that assms(2) entity_segs_ok [OF assms(2,4)]
      by (simp add: entity_key_path [OF assms(2,4)] entity_segs_def)
    also have "\<dots> \<longleftrightarrow> take 2 (entity_tail e) = [''config'', x] \<and> length (entity_tail e) > 2"
      by (cases "entity_tail e" rule: remdups_adj.cases) auto
    finally show ?thesis .
  qed
  note nodes = below [OF id_ok_literals(7)] and roles = below [OF id_ok_literals(8)] and groups = below [OF id_ok_literals(9)]
  have roots: "ConfigNodeRoot c = abs_path [c, ''cluster'', ''config'', ''nodes'']"
      "ConfigRoleRoot c = abs_path [c, ''cluster'', ''config'', ''roles'']"
      "ConfigClusterGroupRoot c = abs_path [c, ''cluster'', ''config'', ''cluster_groups'']"
    using assms(2) by (simp_all add: config_keys)
  have rel: "cut_slash (trim_prefix (abs_path [c, ''cluster'', ''config'', ''cluster_groups''] @ ''/'') (entity_key c e)) = Some (g, m)"
    if "entity_tail e = [''config'', ''cluster_groups'', g, m]" for g m
  proof -
    have "entity_key c e = (abs_path [c, ''cluster'', ''config'', ''cluster_groups''] @ ''/'') @ (g @ slash # m)"
      by (simp add: entity_key_path [OF assms(2,4)] entity_segs_def that abs_path_def)
    moreover have "slash \<notin> set g" using entity_segs_ok [OF assms(2,4)] that by (simp add: entity_segs_def id_ok_def)
    ultimately show ?thesis using cut_slash_append by (simp only: trim_prefix_append)
  qed
  show ?thesis
    unfolding sort_item_def Let_def prod.case c_def [symmetric] meta node roots nodes roles groups
    using assms(4) rel by (cases e) (simp_all add: entity_ok_defs)
qed

lemma agrees_update:
  "\<forall>x \<in> set m. P x \<Longrightarrow> P (k, v) \<Longrightarrow> \<forall>x \<in> set (AList.update k v m). P x"
  using set_update_subset by fastforce

lemma agrees_add_mg:
  assumes "agrees cfg snap" and "map_of (ManagementGroups cfg) g = Some mgs" and "merge_mg (m, doc) mgs = mgs"
  shows "agrees cfg (snap\<lparr>sn_ManagementGroups := AList.update g
    (AList.update m doc (go_index (map_of (sn_ManagementGroups snap)) [] g)) (sn_ManagementGroups snap)\<rparr>)"
proof -
  let ?docs = "go_index (map_of (sn_ManagementGroups snap)) [] g"
  let ?P = "\<lambda>(cg, docs). \<exists>mgs. map_of (ManagementGroups cfg) cg = Some mgs \<and> (\<forall>x \<in> set docs. merge_mg x mgs = mgs)"
  have old: "\<forall>x \<in> set (sn_ManagementGroups snap). ?P x" using assms(1) unfolding agrees_def by blast
  have "\<forall>x \<in> set ?docs. merge_mg x mgs = mgs"
  proof (cases "map_of (sn_ManagementGroups snap) g")
    case (Some docs)
    then have "?P (g, docs)" using old map_of_SomeD by fast
    then show ?thesis using Some assms(2) by (simp add: go_index_def)
  qed (simp add: go_index_def)
  from agrees_update [where P = "\<lambda>x. merge_mg x mgs = mgs", OF this assms(3)]
  have "\<forall>x \<in> set (AList.update m doc ?docs). merge_mg x mgs = mgs" .
  then have "?P (g, AList.update m doc ?docs)" using assms(2) by simp
  from agrees_update [where P = ?P, OF old this] have "\<forall>x \<in> set (AList.update g (AList.update m doc ?docs) (sn_ManagementGroups snap)). ?P x" .
  then show ?thesis using assms(1) unfolding agrees_def by simp
qed

lemma sort_seed_agrees:
  assumes "bootable cfg" and "mergeable cfg" and "seed_pair cfg k b" and "agrees cfg snap"
  shows "agrees cfg (sort_item cfg (k, b) snap)"
proof -
  let ?c = "cl_ID (Cluster cfg)"
  obtain e t where e: "(e, Some b) \<in> set ((own_node cfg, marshal_nodeconfig (node_doc cfg t)) # seeds cfg t)" "k = entity_key ?c e"
    using assms(3) unfolding seed_pair_def by blast
  have ok: "id_ok ?c" "id_ok (NodeID (NodeCfg cfg))" using assms(1) by (simp_all add: bootable_def)
  note item = sort_item_entity [OF ok bootable_entity [OF assms(1) e(1)], of b snap, folded e(2)]
  from e(1) consider
      "e = own_node cfg" "marshal_nodeconfig (node_doc cfg t) = Some b"
    | "e = EConfigMeta" "marshal_clusterconfig (cluster_doc cfg t) = Some b"
    | g c where "(g, c) \<in> set (cl_Groups (Cluster cfg))" "e = EConfigGroup g" "marshal_groupconfig (group_doc g c t) = Some b"
    | r c where "(r, c) \<in> set (Roles cfg)" "e = EConfigRole r" "marshal_roleconfig (role_doc r c t) = Some b"
    | m where "m \<in> set (Memberships (NodeCfg cfg))" "e = EGroupConfig (mc_ClusterGroup m) (mc_ManagementGroup m)"
        "marshal_mgconfig (mg_doc cfg m t) = Some b"
    | m where "m \<in> set (Memberships (NodeCfg cfg))" "e = EDesired (mc_ClusterGroup m) (mc_ManagementGroup m)"
    unfolding seeds_def by force
  then show ?thesis
  proof cases
    case 1
    then show ?thesis
      using item assms(4) nodeconfig.roundtrip [OF 1(2)] node_doc_agrees by (simp add: own_node_def agrees_def)
  next
    case 2
    then show ?thesis
      using item assms(4) clusterconfig.roundtrip [OF 2(2)] cluster_doc_agrees [OF assms(2)] by (simp add: agrees_def)
  next
    case (3 g c)
    have "cgd_ID (group_doc g c t) = g" "g \<noteq> []"
      using 3(1) assms(1) by (auto simp: group_doc_def bootable_def group_ok_def id_ok_def)
    then show ?thesis
      using 3 item assms(4) groupconfig.roundtrip [OF 3(3)] group_doc_agrees [OF assms(2) 3(1), of t]
      by (auto simp: agrees_def dest: agrees_update [of "sn_ClusterGroups snap" _ g])
  next
    case (4 r c)
    have "rcd_ID (role_doc r c t) = r" "r \<noteq> []"
      using 4(1) assms(1) by (auto simp: role_doc_def bootable_def id_ok_def Let_def)
    moreover have "unmarshal_roleconfig b = Some (role_doc r c t)"
      using roleconfig.roundtrip [OF 4(3)] assms(2) 4(1) by (auto simp: mergeable_def role_doc_def timeouts_fit_def Let_def)
    ultimately show ?thesis
      using 4(2) item assms(4) role_doc_agrees [OF assms(2) 4(1), of t]
      by (auto simp: agrees_def dest: agrees_update [of "sn_Roles snap" _ r])
  next
    case (5 m)
    let ?g = "mc_ClusterGroup m" and ?m = "mc_ManagementGroup m"
    obtain mgs where mgs: "map_of (ManagementGroups cfg) ?g = Some mgs" "merge_mg (?m, mg_doc cfg m t) mgs = mgs"
        "int64 (mgc_Priority (mg_doc cfg m t))"
      using mg_doc_agrees [OF assms(2) 5(1)] by blast
    have "sort_item cfg (k, b) snap = snap\<lparr>sn_ManagementGroups := AList.update ?g
        (AList.update ?m (mg_doc cfg m t) (go_index (map_of (sn_ManagementGroups snap)) [] ?g)) (sn_ManagementGroups snap)\<rparr>"
      using item mgconfig.roundtrip [OF 5(3) mgs(3)] unfolding 5(2) by simp
    then show ?thesis using agrees_add_mg [OF assms(4) mgs(1,2)] by simp
  next
    case (6 m)
    then show ?thesis using item assms(4) by simp
  qed
qed

lemma has_prefix_append: "has_prefix (p @ q) k \<Longrightarrow> has_prefix p k"
  by (auto simp: has_prefix_iff)

lemma sort_item_outside:
  assumes "id_ok (cl_ID (Cluster cfg))" and "id_ok (NodeID (NodeCfg cfg))" and "\<not> has_prefix (ConfigRoot (cl_ID (Cluster cfg))) k"
  shows "sort_item cfg (k, b) snap = snap"
proof -
  let ?c = "cl_ID (Cluster cfg)"
  have root: "abs_path [?c, ''cluster'', ''config'', x] = ConfigRoot ?c @ slash # x"
      "abs_path [?c, ''cluster'', ''config'', x, y] = ConfigRoot ?c @ slash # x @ slash # y" for x y
    using assms(1) by (simp_all add: cluster_keys abs_path_def)
  have out: "\<not> has_prefix (ConfigRoot ?c @ q) k" for q using assms(3) has_prefix_append by blast
  have "k \<noteq> ConfigRoot ?c @ q" for q using assms(3) by (auto simp: has_prefix_iff)
  then show ?thesis
    using assms(1,2) out by (simp add: sort_item_def Let_def config_keys root)
qed

context etcd_kv
begin

lemma loadSnapshot_items:
  assumes "loadSnapshot cfg svc w = (Inr snap, w')"
  obtains items where "snap = for_each (sort_item cfg) items empty_snapshot"
    "\<And>k b. (k, b) \<in> set items \<Longrightarrow> has_prefix (ConfigRoot (cl_ID (Cluster cfg))) k \<Longrightarrow> kv (service_state w) k = Some b"
proof -
  let ?p = "ConfigRoot (cl_ID (Cluster cfg))"
  obtain kvs rv e where g: "svc_get svc (service_state w) ?p = (Inr (kvs, rv), e)" "snap = for_each (sort_item cfg) (go_map kvs) empty_snapshot"
    using assms by (auto simp: loadSnapshot_def GetPrefix_def Let_def split: prod.splits sum.splits)
  have "kv (service_state w) k = Some b" if "(k, b) \<in> set (go_map kvs)" "has_prefix ?p k" for k b
  proof -
    have "map_of (rev kvs) k = Some b" using that(1) distinct_go_map [of kvs] by (simp add: map_of_go_map [symmetric])
    then show ?thesis using get_all [OF g(1) that(2)] by simp
  qed
  then show thesis using that g(2) by blast
qed

lemma seeded_merges_back:
  assumes "bootable cfg" and "mergeable cfg"
    and "\<forall>k b. kv (service_state w) k = Some b \<longrightarrow> has_prefix (ConfigRoot (cl_ID (Cluster cfg))) k \<longrightarrow> seed_pair cfg k b"
    and "loadSnapshot cfg svc (snd (Ensure cfg svc w)) = (Inr snap, w')"
  shows "Merge cfg (Some snap) = cfg"
proof -
  have ok: "id_ok (cl_ID (Cluster cfg))" "id_ok (NodeID (NodeCfg cfg))" using assms(1) by (simp_all add: bootable_def)
  obtain items where items: "snap = for_each (sort_item cfg) items empty_snapshot"
    "\<And>k b. (k, b) \<in> set items \<Longrightarrow> has_prefix (ConfigRoot (cl_ID (Cluster cfg))) k \<Longrightarrow> kv (service_state (snd (Ensure cfg svc w))) k = Some b"
    using loadSnapshot_items [OF assms(4)] by blast
  have seeded: "seed_pair cfg k b"
    if "kv (service_state (snd (Ensure cfg svc w))) k = Some b" "has_prefix (ConfigRoot (cl_ID (Cluster cfg))) k" for k b
    using boot_only_seeds [of cfg w] assms(3) that unfolding only_seeds_def by (metis option.inject)
  have "agrees cfg (for_each (sort_item cfg) items empty_snapshot)"
  proof (rule for_each_invariant [where P = "agrees cfg"])
    show "agrees cfg empty_snapshot" by (simp add: agrees_def empty_snapshot_def)
  next
    fix x s assume x: "x \<in> set items" and s: "agrees cfg s"
    obtain k b where kb: "x = (k, b)" by fastforce
    show "agrees cfg (sort_item cfg x s)"
    proof (cases "has_prefix (ConfigRoot (cl_ID (Cluster cfg))) k")
      case True
      then show ?thesis using sort_seed_agrees [OF assms(1,2) seeded s] items(2) x kb by blast
    next
      case False
      then show ?thesis using sort_item_outside [OF ok] s kb by simp
    qed
  qed
  then show ?thesis using Merge_agrees items(1) by blast
qed

end



end
