(* ===== verification/Leases.thy ===== *)
theory Leases
  imports Workers
begin

text \<open>
  \<^verbatim>\<open>internal/lease\<close> and the part of \<^verbatim>\<open>internal/runtime\<close> that reacts to it: the session of a node
  (\<^verbatim>\<open>session.go\<close>), the election of a leader (\<^verbatim>\<open>leadership.go\<close>), and the controllers and consumers
  \<^verbatim>\<open>controllerWhenLeader\<close> starts. The channel of a keepalive is the list of what it delivers.
\<close>

section \<open>Leases\<close>

text \<open>
  \<^verbatim>\<open>int64(d.Seconds())\<close> drops the fraction (in \<^verbatim>\<open>float64\<close>, which is exact enough for durations
  below some months); a lifetime below a second is replaced by the default.
\<close>

definition lease_ttl :: "Duration \<Rightarrow> int \<Rightarrow> int" where
  "lease_ttl d def = (let ttl = d div Second in if ttl \<le> 0 then def else ttl)"

datatype keep_event = KeepAnswer | KeepClosed | KeepCancelled error

text \<open>The keepalive loop: \<open>None\<close> while it goes on, else the result it returns with.\<close>

fun keep_loop :: "keep_event list \<Rightarrow> error option option" where
  "keep_loop [] = None"
| "keep_loop (KeepAnswer # evs) = keep_loop evs"
| "keep_loop (KeepClosed # evs) = Some None"
| "keep_loop (KeepCancelled err # evs) = Some (Some err)"

section \<open>The session\<close>

definition registration_of :: "Config \<Rightarrow> int \<Rightarrow> RegistrationDocument" where
  "registration_of cfg t =
     \<lparr>reg_NodeID = NodeID (NodeCfg cfg),
      reg_Memberships = map (\<lambda>m. let conf = mg_conf cfg (mc_ClusterGroup m) (mc_ManagementGroup m) in
          \<lparr>m_ClusterGroup = mc_ClusterGroup m, m_ManagementGroup = mc_ManagementGroup m,
           m_Priority = mg_Priority conf, m_Roles = mg_Roles conf\<rparr>) (Memberships (NodeCfg cfg)),
      reg_UpdatedAt = t\<rparr>"

text \<open>What \<^verbatim>\<open>Run\<close> does once it has set the lease id: \<open>None\<close> is no error and a running keepalive.\<close>

definition open_session :: "Config \<Rightarrow> 'e etcd_service \<Rightarrow> int \<Rightarrow> 'e world \<Rightarrow> error option \<times> 'e world" where
  "open_session cfg svc leaseID w =
     (let (t, w) = now w; c = cl_ID (Cluster cfg); node = NodeID (NodeCfg cfg)
      in case marshal_registration (registration_of cfg t) of
           None \<Rightarrow> (Some json_error, w)
         | Some registrationData \<Rightarrow>
             (case Put svc (Registry c node) registrationData 0 w of
                (Some err, w) \<Rightarrow> (Some err, w)
              | (None, w) \<Rightarrow>
                  (case marshal_session \<lparr>ses_NodeID = node, ses_UpdatedAt = t\<rparr> of
                     None \<Rightarrow> (Some json_error, w)
                   | Some sessionData \<Rightarrow>
                       (case PutWithLease svc (Session c node) sessionData leaseID w of
                          (Some err, w) \<Rightarrow> (Some err, w)
                        | (None, w) \<Rightarrow> KeepAlive svc leaseID w))))"

text \<open>
  \<^verbatim>\<open>SessionManager.Run\<close>; when it returns after the lease was granted, the deferred call clears the
  lease id. \<open>None\<close> as the first component: it has not returned.
\<close>

definition session_Run :: "Config \<Rightarrow> 'e etcd_service \<Rightarrow> keep_event list \<Rightarrow> 'e world \<Rightarrow> error option option \<times> 'e world" where
  "session_Run cfg svc keep w =
     (case GrantLease svc (lease_ttl (SessionTTL (Cluster cfg)) 30) w of
        (Inl err, w) \<Rightarrow> (Some (Some err), w)
      | (Inr leaseID, w) \<Rightarrow>
          (case open_session cfg svc leaseID (SetSessionLeaseID leaseID w) of
             (Some err, w) \<Rightarrow> (Some (Some err), ClearSessionLeaseID leaseID w)
           | (None, w) \<Rightarrow>
               (case keep_loop keep of
                  None \<Rightarrow> (None, w)
                | Some result \<Rightarrow> (Some result, ClearSessionLeaseID leaseID w))))"

section \<open>The election\<close>

datatype lease_event = Acquired | Lost

text \<open>The channel of events has room for eight; an event that does not fit is dropped.\<close>

definition emit :: "lease_event \<Rightarrow> lease_event list \<Rightarrow> lease_event list" where
  "emit event events = (if length events < 8 then events @ [event] else events)"

text \<open>The first half of \<open>tryLeadership\<close>: a new lease, and the attempt to create the key under it.\<close>

definition acquire :: "Config \<Rightarrow> 'e etcd_service \<Rightarrow> 'e world \<Rightarrow> (error + bool \<times> int) \<times> 'e world" where
  "acquire cfg svc w =
     (case GrantLease svc (lease_ttl (LeaderTTL (Cluster cfg)) 2) w of
        (Inl err, w) \<Rightarrow> (Inl err, w)
      | (Inr leaseID, w) \<Rightarrow>
          (let (t, w) = now w
           in case marshal_leadership \<lparr>l_OwnerNodeID = NodeID (NodeCfg cfg), l_LeaseID = leaseID, l_UpdatedAt = t\<rparr> of
                None \<Rightarrow> (Inl json_error, w)
              | Some data \<Rightarrow>
                  (case TryAcquireLeaseKey svc (Leadership (cl_ID (Cluster cfg))) data leaseID w of
                     (Inl err, w) \<Rightarrow> (Inl err, w)
                   | (Inr acquired, w) \<Rightarrow> (Inr (acquired, leaseID), w))))"

text \<open>
  The state of a node: where its leadership manager is (between attempts, or keeping a lease
  alive), the events nobody has received yet, and how many controllers and command consumers
  \<^verbatim>\<open>controllerWhenLeader\<close> has started.
\<close>

datatype leader_phase = Trying | Keeping int

record LeaderNode =
  lm_phase :: leader_phase
  lm_events :: "lease_event list"
  controllers :: nat
  consumers :: nat

definition new_node :: LeaderNode where
  "new_node = \<lparr>lm_phase = Trying, lm_events = [], controllers = 0, consumers = 0\<rparr>"

text \<open>\<open>tryLeadership\<close> up to its keepalive loop; an error of the keepalive emits nothing.\<close>

definition attempt :: "Config \<Rightarrow> 'e etcd_service \<Rightarrow> LeaderNode \<Rightarrow> 'e world \<Rightarrow> LeaderNode \<times> 'e world" where
  "attempt cfg svc n w =
     (case acquire cfg svc w of
        (Inl err, w) \<Rightarrow> (n, w)
      | (Inr (acquired, leaseID), w) \<Rightarrow>
          if \<not> acquired then (n, w)
          else
            let n = n\<lparr>lm_events := emit Acquired (lm_events n)\<rparr>
            in case KeepAlive svc leaseID w of
                 (Some err, w) \<Rightarrow> (n, w)
               | (None, w) \<Rightarrow> (n\<lparr>lm_phase := Keeping leaseID\<rparr>, w))"

text \<open>
  The end of the keepalive loop, after which \<open>Run\<close> waits and attempts again. The result of
  \<open>keep_loop\<close> above is the same here: either way the leader emits its loss.
\<close>

definition lose :: "LeaderNode \<Rightarrow> LeaderNode" where
  "lose n = n\<lparr>lm_phase := Trying, lm_events := emit Lost (lm_events n)\<rparr>"

text \<open>
  \<open>controllerWhenLeader\<close> on the next event: an acquired leadership starts a controller and a
  consumer, which run until the context of the whole agent ends; a lost one does nothing.
\<close>

definition receive :: "LeaderNode \<Rightarrow> LeaderNode" where
  "receive n = (case lm_events n of
     [] \<Rightarrow> n
   | Acquired # events \<Rightarrow> n\<lparr>lm_events := events, controllers := Suc (controllers n), consumers := Suc (consumers n)\<rparr>
   | Lost # events \<Rightarrow> n\<lparr>lm_events := events\<rparr>)"

section \<open>A cluster\<close>

text \<open>
  The nodes of a cluster over one etcd: \<open>cfgs\<close> gives the configuration of each. Besides the steps
  of the nodes, etcd may drop the leadership key when its lease expires, if \<open>expiry\<close> allows it, and
  the other parts of the agents may change anything but that key.
\<close>

inductive cluster_reaches ::
  "bool \<Rightarrow> (string \<Rightarrow> Config) \<Rightarrow> 'e etcd_service \<Rightarrow> ('e \<Rightarrow> string \<rightharpoonup> bytes) \<Rightarrow> 'e world \<Rightarrow> (string \<Rightarrow> LeaderNode) \<Rightarrow> 'e world \<Rightarrow> bool"
  for expiry cfgs svc kv w0 where
  start: "cluster_reaches expiry cfgs svc kv w0 (\<lambda>_. new_node) w0"
| attempts: "cluster_reaches expiry cfgs svc kv w0 ns w \<Longrightarrow> lm_phase (ns i) = Trying \<Longrightarrow>
    attempt (cfgs i) svc (ns i) w = (n, w') \<Longrightarrow> cluster_reaches expiry cfgs svc kv w0 (ns(i := n)) w'"
| closed: "cluster_reaches expiry cfgs svc kv w0 ns w \<Longrightarrow> lm_phase (ns i) = Keeping l \<Longrightarrow>
    cluster_reaches expiry cfgs svc kv w0 (ns(i := lose (ns i))) w"
| event: "cluster_reaches expiry cfgs svc kv w0 ns w \<Longrightarrow>
    cluster_reaches expiry cfgs svc kv w0 (ns(i := receive (ns i))) w"
| expire: "cluster_reaches expiry cfgs svc kv w0 ns w \<Longrightarrow> expiry \<Longrightarrow>
    kv e = (kv (service_state w))(Leadership (cl_ID (Cluster (cfgs i))) := None) \<Longrightarrow>
    cluster_reaches expiry cfgs svc kv w0 ns (w\<lparr>service_state := e\<rparr>)"
| other: "cluster_reaches expiry cfgs svc kv w0 ns w \<Longrightarrow>
    (\<And>i. leaves kv (Leadership (cl_ID (Cluster (cfgs i)))) w w') \<Longrightarrow> cluster_reaches expiry cfgs svc kv w0 ns w'"

section \<open>The contract of a lease service\<close>

text \<open>The laws the election needs on top of those of the keys: a keepalive leaves the keys alone.\<close>

locale etcd_lease = etcd_kv +
  assumes keepalive_kv: "svc_keepalive svc e l = (r, e') \<Longrightarrow> kv e' = kv e"
begin

lemma GrantLease_kv: "GrantLease svc ttl w = (r, w') \<Longrightarrow> kv (service_state w') = kv (service_state w)"
  by (auto simp: GrantLease_def dest: grant_kv split: prod.splits)

lemma KeepAlive_kv: "KeepAlive svc l w = (r, w') \<Longrightarrow> kv (service_state w') = kv (service_state w)"
  by (auto simp: KeepAlive_def dest: keepalive_kv split: prod.splits)

text \<open>An attempt that acquires finds the key absent and leaves it present; any other keeps a present key.\<close>

lemma acquire_cases:
  assumes "acquire cfg svc w = (r, w')"
  shows "if (\<exists>l. r = Inr (True, l))
     then kv (service_state w) (Leadership (cl_ID (Cluster cfg))) = None
       \<and> kv (service_state w') (Leadership (cl_ID (Cluster cfg))) \<noteq> None
     else kv (service_state w) (Leadership (cl_ID (Cluster cfg))) \<noteq> None \<longrightarrow>
       kv (service_state w') (Leadership (cl_ID (Cluster cfg))) \<noteq> None"
proof -
  obtain g w1 where g: "GrantLease svc (lease_ttl (LeaderTTL (Cluster cfg)) 2) w = (g, w1)" by fastforce
  have kv1: "kv (service_state w1) = kv (service_state w)" by (rule GrantLease_kv [OF g])
  show ?thesis
    using assms
    by (auto simp: acquire_def g now_def TryAcquireLeaseKey_def kv1 [symmetric]
        split: sum.splits option.splits prod.splits dest!: create_yes create_no create_err)
qed

end

section \<open>At most one leader while leases do not expire\<close>

text \<open>The controllers a node has started or will start for the events it has not received yet.\<close>

definition leads :: "LeaderNode \<Rightarrow> nat" where
  "leads n = controllers n + count_list (lm_events n) Acquired"

definition one_leader :: "('e \<Rightarrow> string \<rightharpoonup> bytes) \<Rightarrow> string \<Rightarrow> (string \<Rightarrow> LeaderNode) \<Rightarrow> 'e world \<Rightarrow> bool" where
  "one_leader kv key ns w \<longleftrightarrow> (\<forall>i. leads (ns i) \<le> 1) \<and> (\<forall>i j. 0 < leads (ns i) \<longrightarrow> 0 < leads (ns j) \<longrightarrow> i = j)
     \<and> (kv (service_state w) key = None \<longrightarrow> (\<forall>i. leads (ns i) = 0))"

lemma leads_new [simp]: "leads new_node = 0"
  by (simp add: leads_def new_node_def)

lemma leads_emit: "leads (n\<lparr>lm_events := emit Acquired (lm_events n)\<rparr>) \<le> Suc (leads n)"
  by (simp add: leads_def emit_def count_list_append)

lemma leads_lose [simp]: "leads (lose n) = leads n"
  by (simp add: leads_def lose_def emit_def count_list_append)

lemma leads_receive [simp]: "leads (receive n) = leads n"
  by (simp add: leads_def receive_def split: list.splits lease_event.splits)

lemma leads_phase [simp]: "leads (n\<lparr>lm_phase := p\<rparr>) = leads n"
  by (simp add: leads_def)

lemma one_leader_update:
  assumes "one_leader kv key ns w" and "leads n = leads (ns i)"
    and "kv (service_state w) key \<noteq> None \<Longrightarrow> kv (service_state w') key \<noteq> None"
  shows "one_leader kv key (ns(i := n)) w'"
proof -
  have same: "leads ((ns(i := n)) j) = leads (ns j)" for j using assms(2) by simp
  show ?thesis using assms(1,3) unfolding one_leader_def same by blast
qed

lemma one_leader_acquired:
  assumes "one_leader kv key ns w" and "kv (service_state w) key = None"
    and "leads n \<le> Suc (leads (ns i))" and "kv (service_state w') key \<noteq> None"
  shows "one_leader kv key (ns(i := n)) w'"
  using assms by (auto simp: one_leader_def)

context etcd_lease
begin

lemma attempt_one_leader:
  assumes "one_leader kv key ns w" and "attempt cfg svc (ns i) w = (n, w')" and "key = Leadership (cl_ID (Cluster cfg))"
  shows "one_leader kv key (ns(i := n)) w'"
proof -
  obtain r w1 where a: "acquire cfg svc w = (r, w1)" by fastforce
  note cases = acquire_cases [OF a, folded assms(3)]
  consider (won) l where "r = Inr (True, l)" | (not_won) "\<And>l. r \<noteq> Inr (True, l)" by blast
  then show ?thesis
  proof cases
    case won
    obtain k w2 where k: "KeepAlive svc l w1 = (k, w2)" by fastforce
    have "leads n \<le> Suc (leads (ns i))" and "w' = w2"
      using assms(2) leads_emit [of "ns i"] by (auto simp: attempt_def a won k Let_def split: option.splits)
    then show ?thesis
      using one_leader_acquired [where kv = kv, OF assms(1), of n i w'] cases KeepAlive_kv [OF k] won by simp
  next
    case not_won
    have "n = ns i" and "w' = w1"
      using assms(2) not_won by (auto simp: attempt_def a split: sum.splits if_splits prod.splits)
    then show ?thesis
      using one_leader_update [where kv = kv, OF assms(1), of n i w'] cases not_won by auto
  qed
qed

lemma one_leader_reached:
  assumes "cluster_reaches False cfgs svc kv w0 ns w" and "\<And>i. cl_ID (Cluster (cfgs i)) = c"
    and "kv (service_state w0) (Leadership c) = None"
  shows "one_leader kv (Leadership c) ns w"
  using assms(1)
proof (induction rule: cluster_reaches.induct)
  case start
  show ?case using assms(3) by (simp add: one_leader_def)
next
  case (attempts ns w i n w')
  show ?case by (rule attempt_one_leader [OF attempts(4,3)]) (simp add: assms(2))
next
  case (closed ns w i l)
  show ?case by (rule one_leader_update [where kv = kv, OF closed(3)]) simp_all
next
  case (event ns w i)
  show ?case by (rule one_leader_update [where kv = kv, OF event(2)]) simp_all
next
  case (other ns w w')
  then show ?case using assms(2) by (auto simp: leaves_def one_leader_def)
qed simp

end

section \<open>What an expired lease allows\<close>

text \<open>A service that grants and keeps leases and creates an absent key.\<close>

definition elects :: "'e etcd_service \<Rightarrow> ('e \<Rightarrow> string \<rightharpoonup> bytes) \<Rightarrow> bool" where
  "elects svc kv \<longleftrightarrow> (\<forall>e t. \<exists>l e'. svc_grant svc e t = (Inr l, e'))
     \<and> (\<forall>e k b l. kv e k = None \<longrightarrow> (\<exists>e'. svc_create svc e k b l = (Inr True, e')))
     \<and> (\<forall>e l. \<exists>e'. svc_keepalive svc e l = (None, e'))"

context etcd_lease
begin

lemma attempt_wins:
  assumes "elects svc kv" and "clock_ok w" and "kv (service_state w) (Leadership (cl_ID (Cluster cfg))) = None"
    and "lm_events n = []"
  shows "\<exists>l w'. attempt cfg svc n w = (n\<lparr>lm_phase := Keeping l, lm_events := [Acquired]\<rparr>, w') \<and> clock_ok w'"
proof -
  let ?key = "Leadership (cl_ID (Cluster cfg))"
  obtain l e where g: "svc_grant svc (service_state w) (lease_ttl (LeaderTTL (Cluster cfg)) 2) = (Inr l, e)"
    using assms(1) unfolding elects_def by blast
  have absent: "kv e ?key = None" using grant_kv [OF g] assms(3) by simp
  obtain data where data: "marshal_leadership
      \<lparr>l_OwnerNodeID = NodeID (NodeCfg cfg), l_LeaseID = l, l_UpdatedAt = clock w (ticks w)\<rparr> = Some data"
    using assms(2) time_text_ok [of "clock w (ticks w)"] by (auto simp: marshal_leadership_def clock_ok_def)
  obtain e2 where c: "svc_create svc e ?key data l = (Inr True, e2)"
    using assms(1) absent unfolding elects_def by blast
  obtain e3 where k: "svc_keepalive svc e2 l = (None, e3)" using assms(1) unfolding elects_def by blast
  have "attempt cfg svc n w = (n\<lparr>lm_phase := Keeping l, lm_events := [Acquired]\<rparr>,
      w\<lparr>service_state := e3, ticks := Suc (ticks w), sent := sent w @ [ReqGrant (lease_ttl (LeaderTTL (Cluster cfg)) 2),
        ReqCreate ?key data l, ReqKeepAlive l]\<rparr>)"
    using assms(4) by (simp add: attempt_def acquire_def GrantLease_def g now_def data TryAcquireLeaseKey_def c
        KeepAlive_def k emit_def)
  then show ?thesis using assms(2) by (auto simp: clock_ok_def)
qed

text \<open>One expiry is enough for two controllers that both run.\<close>

lemma takeover_keeps_old_controller:
  assumes "elects svc kv" and "clock_ok w0" and "\<And>i. cl_ID (Cluster (cfgs i)) = c" and "i \<noteq> j"
    and "kv (service_state w0) (Leadership c) = None"
    and "\<And>e. \<exists>e'. kv e' = (kv e)(Leadership c := None)"
  shows "\<exists>ns w l. cluster_reaches True cfgs svc kv w0 ns w
    \<and> ns i = \<lparr>lm_phase = Trying, lm_events = [], controllers = 1, consumers = 1\<rparr>
    \<and> ns j = \<lparr>lm_phase = Keeping l, lm_events = [], controllers = 1, consumers = 1\<rparr>"
proof -
  define keeping where "keeping l = \<lparr>lm_phase = Keeping l, lm_events = [], controllers = 1, consumers = 1\<rparr>" for l
  define trying where "trying = \<lparr>lm_phase = Trying, lm_events = [], controllers = 1, consumers = 1\<rparr>"
  have received: "receive (new_node\<lparr>lm_phase := Keeping l, lm_events := [Acquired]\<rparr>) = keeping l" for l
    by (simp add: receive_def new_node_def keeping_def)
  have gone: "receive (lose (keeping l)) = trying" for l
    by (simp add: receive_def lose_def emit_def keeping_def trying_def)
  have lead: "\<exists>l w'. cluster_reaches True cfgs svc kv w0 (ns(k := keeping l)) w' \<and> clock_ok w'"
    if h: "cluster_reaches True cfgs svc kv w0 ns w" "ns k = new_node" "clock_ok w" "kv (service_state w) (Leadership c) = None"
    for ns w k
  proof -
    obtain l w' where a: "attempt (cfgs k) svc (ns k) w = (new_node\<lparr>lm_phase := Keeping l, lm_events := [Acquired]\<rparr>, w')"
      and ok: "clock_ok w'"
      using attempt_wins [OF assms(1) h(3), of "cfgs k" "ns k"] h(2,4) assms(3) by (auto simp: new_node_def)
    have "lm_phase (ns k) = Trying" by (simp add: h(2) new_node_def)
    from cluster_reaches.event [OF cluster_reaches.attempts [OF h(1) this a], of k] ok
    show ?thesis by (auto simp: received)
  qed
  obtain l w where one: "cluster_reaches True cfgs svc kv w0 ((\<lambda>_. new_node)(i := keeping l)) w" "clock_ok w"
    using lead [OF cluster_reaches.start _ assms(2,5), of i] by blast
  have phase: "lm_phase (((\<lambda>_. new_node)(i := keeping l)) i) = Keeping l" by (simp add: keeping_def)
  from cluster_reaches.event [OF cluster_reaches.closed [OF one(1) phase], of i]
  have "cluster_reaches True cfgs svc kv w0 ((\<lambda>_. new_node)(i := trying)) w" by (simp only: gone fun_upd_same fun_upd_upd)
  moreover obtain e where e: "kv e = (kv (service_state w))(Leadership c := None)" using assms(6) by blast
  ultimately have "cluster_reaches True cfgs svc kv w0 ((\<lambda>_. new_node)(i := trying)) (w\<lparr>service_state := e\<rparr>)"
    using cluster_reaches.expire [of True cfgs svc kv w0 _ w e i] assms(3) by simp
  from lead [OF this, of j] obtain l' w' where
    "cluster_reaches True cfgs svc kv w0 ((\<lambda>_. new_node)(i := trying, j := keeping l')) w'"
    using assms(4) one(2) e by (auto simp: clock_ok_def)
  then show ?thesis using assms(4)
    by (intro exI [of _ "(\<lambda>_. new_node)(i := trying, j := keeping l')"] exI [of _ w'] exI [of _ l'])
      (simp add: trying_def keeping_def)
qed

end

section \<open>The session\<close>

text \<open>A service that grants leases and keeps them alive.\<close>

definition leases_work :: "'e etcd_service \<Rightarrow> bool" where
  "leases_work svc \<longleftrightarrow> (\<forall>e t. \<exists>l e'. svc_grant svc e t = (Inr l, e')) \<and> (\<forall>e l. fst (svc_keepalive svc e l) = None)"

lemma wait_without_lease:
  "sessionLeaseID w = 0 \<Longrightarrow> waitForSessionLease (replicate k (PollTick 0)) w = None"
  by (induction k arbitrary: w) (simp_all add: SessionLeaseID_def SetSessionLeaseID_def)

lemma role_waits_without_lease:
  "sessionLeaseID w = 0 \<Longrightarrow> applyDesired cfg svc os view (replicate k (PollTick 0)) wk desired managed w = None"
  by (simp add: applyDesired_def wait_without_lease)

lemma session_key_not_registry:
  assumes "id_ok c" and "id_ok n"
  shows "Session c n \<noteq> Registry c n"
  using entity_key_inject [OF assms(1), of "ESession n" "ERegistry n"] assms(2) by simp

context etcd_lease
begin

text \<open>The requests of a session against a service that answers, and what etcd has afterwards.\<close>

lemma open_session_sent:
  assumes "leases_work svc" and "puts_succeed svc" and "clock_ok w" and "id_ok (cl_ID (Cluster cfg))" and "id_ok (NodeID (NodeCfg cfg))"
  shows "\<exists>reg ses w'. open_session cfg svc l w = (None, w')
    \<and> marshal_registration (registration_of cfg (clock w (ticks w))) = Some reg
    \<and> sent w' = sent w @ [ReqPut (Registry (cl_ID (Cluster cfg)) (NodeID (NodeCfg cfg))) reg 0,
        ReqPut (Session (cl_ID (Cluster cfg)) (NodeID (NodeCfg cfg))) ses l, ReqKeepAlive l]
    \<and> kv (service_state w') (Registry (cl_ID (Cluster cfg)) (NodeID (NodeCfg cfg))) = Some reg
    \<and> kv (service_state w') (Session (cl_ID (Cluster cfg)) (NodeID (NodeCfg cfg))) = Some ses
    \<and> sessionLeaseID w' = sessionLeaseID w"
proof -
  let ?r = "Registry (cl_ID (Cluster cfg)) (NodeID (NodeCfg cfg))"
  let ?s = "Session (cl_ID (Cluster cfg)) (NodeID (NodeCfg cfg))"
  let ?t = "clock w (ticks w)"
  obtain stamp where "time_text ?t = Some stamp" using assms(3) time_text_ok [of ?t] by (auto simp: clock_ok_def)
  then obtain reg ses where docs: "marshal_registration (registration_of cfg ?t) = Some reg"
      "marshal_session \<lparr>ses_NodeID = NodeID (NodeCfg cfg), ses_UpdatedAt = ?t\<rparr> = Some ses"
    by (auto simp: marshal_registration_def marshal_session_def registration_of_def)
  let ?w1 = "w\<lparr>ticks := Suc (ticks w)\<rparr>"
  obtain w2 where p: "Put svc ?r reg 0 ?w1 = (None, w2)" using puts_succeed_Put [OF assms(2)] by (metis prod.collapse)
  obtain w3 where q: "Put svc ?s ses l w2 = (None, w3)" using puts_succeed_Put [OF assms(2)] by (metis prod.collapse)
  obtain e where k: "svc_keepalive svc (service_state w3) l = (None, e)"
    using assms(1) unfolding leases_work_def by (metis prod.collapse)
  have "open_session cfg svc l w = (None, w3\<lparr>service_state := e, sent := sent w3 @ [ReqKeepAlive l]\<rparr>)"
    by (simp add: open_session_def now_def docs p PutWithLease_def q KeepAlive_def k)
  moreover have "sent w3 = sent w @ [ReqPut ?r reg 0, ReqPut ?s ses l]" "sessionLeaseID w3 = sessionLeaseID w"
    using Put_sent [OF p] Put_sent [OF q] Put_frame(4) [of svc ?r reg 0 ?w1] Put_frame(4) [of svc ?s ses l w2] p q by simp_all
  moreover have "kv (service_state w3) ?r = Some reg" "kv (service_state w3) ?s = Some ses"
    using Put_ok [OF p] Put_ok [OF q] session_key_not_registry [OF assms(4,5)] by simp_all
  ultimately show ?thesis using docs(1) keepalive_kv [OF k] by simp
qed

lemma session_requests:
  assumes "leases_work svc" and "puts_succeed svc" and "clock_ok w" and "id_ok (cl_ID (Cluster cfg))" and "id_ok (NodeID (NodeCfg cfg))"
  shows "\<exists>l reg ses w'. session_Run cfg svc keep w = (keep_loop keep, w')
    \<and> marshal_registration (registration_of cfg (clock w (ticks w))) = Some reg
    \<and> sent w' = sent w @ [ReqGrant (lease_ttl (SessionTTL (Cluster cfg)) 30),
        ReqPut (Registry (cl_ID (Cluster cfg)) (NodeID (NodeCfg cfg))) reg 0,
        ReqPut (Session (cl_ID (Cluster cfg)) (NodeID (NodeCfg cfg))) ses l, ReqKeepAlive l]
    \<and> kv (service_state w') (Registry (cl_ID (Cluster cfg)) (NodeID (NodeCfg cfg))) = Some reg
    \<and> kv (service_state w') (Session (cl_ID (Cluster cfg)) (NodeID (NodeCfg cfg))) = Some ses
    \<and> sessionLeaseID w' = (if keep_loop keep = None then l else 0)"
proof -
  obtain l e where g: "svc_grant svc (service_state w) (lease_ttl (SessionTTL (Cluster cfg)) 30) = (Inr l, e)"
    using assms(1) unfolding leases_work_def by blast
  let ?w = "w\<lparr>service_state := e, sent := sent w @ [ReqGrant (lease_ttl (SessionTTL (Cluster cfg)) 30)], sessionLeaseID := l\<rparr>"
  have "clock_ok ?w" using assms(3) by (simp add: clock_ok_def)
  from open_session_sent [OF assms(1,2) this assms(4,5), of l] obtain reg ses w' where
    o: "open_session cfg svc l ?w = (None, w')" "sessionLeaseID w' = l"
      "marshal_registration (registration_of cfg (clock w (ticks w))) = Some reg"
      "sent w' = sent ?w @ [ReqPut (Registry (cl_ID (Cluster cfg)) (NodeID (NodeCfg cfg))) reg 0,
        ReqPut (Session (cl_ID (Cluster cfg)) (NodeID (NodeCfg cfg))) ses l, ReqKeepAlive l]"
      "kv (service_state w') (Registry (cl_ID (Cluster cfg)) (NodeID (NodeCfg cfg))) = Some reg"
      "kv (service_state w') (Session (cl_ID (Cluster cfg)) (NodeID (NodeCfg cfg))) = Some ses" by auto
  have "session_Run cfg svc keep w = (keep_loop keep, if keep_loop keep = None then w' else w'\<lparr>sessionLeaseID := 0\<rparr>)"
    using o(1,2) by (simp add: session_Run_def GrantLease_def g SetSessionLeaseID_def ClearSessionLeaseID_def split: option.splits)
  then show ?thesis using o
    by (intro exI [of _ l] exI [of _ reg] exI [of _ ses]
        exI [of _ "if keep_loop keep = None then w' else w'\<lparr>sessionLeaseID := 0\<rparr>"]) simp
qed

end

interpretation mem_lease: etcd_lease mem_service "\<lambda>e. map_of (fst e)"
  by unfold_locales (auto simp: mem_service_def)

section \<open>Two nodes over the in-memory service\<close>

definition duo_cfg :: "string \<Rightarrow> Config" where
  "duo_cfg n = (example_cfg ''manual'')\<lparr>NodeCfg := (NodeCfg (example_cfg ''manual''))\<lparr>NodeID := n\<rparr>\<rparr>"

lemma duo_cluster: "cl_ID (Cluster (duo_cfg n)) = ''c''"
  by (simp add: duo_cfg_def example_cfg_def)

lemma duo_start: "map_of (fst (service_state (example_world []))) (Leadership ''c'') = None" "clock_ok (example_world [])"
  by (simp add: example_world_def) (simp only: clock_ok_def example_clock_ok simp_thms)

lemma mem_puts: "puts_succeed mem_service"
  by (simp add: puts_succeed_def mem_service_def split_beta)

lemma mem_elects: "elects mem_service (\<lambda>e. map_of (fst e))" "leases_work mem_service"
  by (simp_all add: elects_def leases_work_def mem_service_def)

lemma mem_expires: "\<exists>e' :: mem_etcd. map_of (fst e') = (map_of (fst e))(k := None)"
  by (rule exI [of _ "(AList.delete k (fst e), 0 :: int)"]) (simp add: delete_conv')

section \<open>Properties\<close>

text \<open>
  C38: while no lease expires there is at most one controller in the cluster. Starting without a
  leadership key, whatever the nodes attempt, lose and receive in any order and whatever the
  service answers, at most one node ever starts a controller, and it starts one.
\<close>

theorem single_controller_without_expiry:
  assumes "etcd_lease svc kv" and "\<And>i. cl_ID (Cluster (cfgs i)) = c" and "kv (service_state w0) (Leadership c) = None"
    and "cluster_reaches False cfgs svc kv w0 ns w" and "0 < controllers (ns i)"
  shows "controllers (ns i) = 1 \<and> (\<forall>j. j \<noteq> i \<longrightarrow> controllers (ns j) = 0)"
proof -
  have "one_leader kv (Leadership c) ns w"
    by (rule etcd_lease.one_leader_reached [OF assms(1,4,2,3)])
  then have one: "leads (ns i) \<le> 1" "\<And>j. 0 < leads (ns i) \<Longrightarrow> 0 < leads (ns j) \<Longrightarrow> i = j"
    by (simp_all add: one_leader_def)
  have lead: "0 < leads (ns i)" using assms(5) by (simp add: leads_def)
  have "controllers (ns j) = 0" if "j \<noteq> i" for j
  proof (rule ccontr)
    assume "controllers (ns j) \<noteq> 0"
    then have "0 < leads (ns j)" by (simp add: leads_def)
    with one(2) [OF lead this] that show False by simp
  qed
  then show ?thesis using one(1) assms(5) by (simp add: leads_def)
qed

theorem single_controller_without_expiry_witness:
  "\<exists>ns w. cluster_reaches False duo_cfg mem_service (\<lambda>e. map_of (fst e)) (example_world []) ns w
     \<and> controllers (ns ''n'') = 1 \<and> controllers (ns ''m'') = 0"
proof -
  let ?run = "cluster_reaches False duo_cfg mem_service (\<lambda>e. map_of (fst e)) (example_world [])"
  obtain l w where "attempt (duo_cfg ''n'') mem_service new_node (example_world [])
      = (new_node\<lparr>lm_phase := Keeping l, lm_events := [Acquired]\<rparr>, w)"
    using mem_lease.attempt_wins [OF mem_elects(1) duo_start(2), of "duo_cfg ''n''" new_node] duo_start(1)
    by (auto simp: duo_cluster new_node_def)
  then have "?run ((\<lambda>_. new_node)(''n'' := new_node\<lparr>lm_phase := Keeping l, lm_events := [Acquired]\<rparr>)) w"
    by (intro cluster_reaches.attempts [where i = "''n''" and ns = "\<lambda>_. new_node", OF cluster_reaches.start]) (simp add: new_node_def)
  from cluster_reaches.event [OF this, of "''n''"] obtain ns where r: "?run ns w" "0 < controllers (ns ''n'')"
    by (fastforce simp: receive_def new_node_def)
  from single_controller_without_expiry [OF mem_lease.etcd_lease_axioms duo_cluster duo_start(1) r] r(1)
  show ?thesis by (intro exI [of _ ns] exI [of _ w]) simp
qed

text \<open>
  C39: an expired lease leads to two controllers. When a leader loses its lease and another
  node wins the next election, the first node has received its "lost" event and is back to
  attempting, and yet its controller and its command consumer still run beside the new ones.
\<close>

theorem lost_leader_keeps_controller:
  assumes "etcd_lease svc kv" and "elects svc kv" and "clock_ok w0" and "\<And>i. cl_ID (Cluster (cfgs i)) = c" and "i \<noteq> j"
    and "kv (service_state w0) (Leadership c) = None" and "\<And>e. \<exists>e'. kv e' = (kv e)(Leadership c := None)"
  shows "\<exists>ns w l. cluster_reaches True cfgs svc kv w0 ns w
    \<and> ns i = \<lparr>lm_phase = Trying, lm_events = [], controllers = 1, consumers = 1\<rparr>
    \<and> ns j = \<lparr>lm_phase = Keeping l, lm_events = [], controllers = 1, consumers = 1\<rparr>"
  by (rule etcd_lease.takeover_keeps_old_controller [OF assms])

theorem lost_leader_keeps_controller_witness:
  "\<exists>ns w l. cluster_reaches True duo_cfg mem_service (\<lambda>e. map_of (fst e)) (example_world []) ns w
    \<and> ns ''n'' = \<lparr>lm_phase = Trying, lm_events = [], controllers = 1, consumers = 1\<rparr>
    \<and> ns ''m'' = \<lparr>lm_phase = Keeping l, lm_events = [], controllers = 1, consumers = 1\<rparr>"
proof -
  have "''n'' \<noteq> ''m''" by simp
  from lost_leader_keeps_controller [OF mem_lease.etcd_lease_axioms mem_elects(1) duo_start(2) duo_cluster this duo_start(1) mem_expires]
  show ?thesis .
qed



end
