(* ===== verification/Runtime.thy ===== *)
theory Runtime
  imports Seeding Leases
begin

text \<open>
  \<^verbatim>\<open>internal/runtime/runtime.go\<close>: how an agent starts. It waits for etcd, loads a snapshot into
  its store, seeds its documents and starts the loops of its parts; the watch loop then feeds the
  store. The reaction to leadership events is in \<open>Leases\<close>.
\<close>

section \<open>Waiting for etcd\<close>

text \<open>What ends the wait after a failed attempt: the retry interval, or the end of the context.\<close>

datatype retry_wait = RetryElapsed | ContextDone error

text \<open>\<open>None\<close> is a wait that has not ended with these waits.\<close>

fun connectETCD :: "Config \<Rightarrow> 'e etcd_service \<Rightarrow> retry_wait list \<Rightarrow> 'e world \<Rightarrow> (error option \<times> 'e world) option" where
  "connectETCD cfg svc [] w =
     (case GetPrefix svc (Root (cl_ID (Cluster cfg))) w of (Inr r, w) \<Rightarrow> Some (None, w) | (Inl err, w) \<Rightarrow> None)"
| "connectETCD cfg svc (RetryElapsed # waits) w =
     (case GetPrefix svc (Root (cl_ID (Cluster cfg))) w of (Inr r, w) \<Rightarrow> Some (None, w)
      | (Inl err, w) \<Rightarrow> connectETCD cfg svc waits w)"
| "connectETCD cfg svc (ContextDone ended # waits) w =
     (case GetPrefix svc (Root (cl_ID (Cluster cfg))) w of (Inr r, w) \<Rightarrow> Some (None, w)
      | (Inl err, w) \<Rightarrow> Some (Some ended, w))"

section \<open>Starting\<close>

text \<open>The goroutines of an agent; the watch loop has its prefix and its first revision.\<close>

datatype loop = ApiServer | WatchLoop string int | ConfigWatcher | SessionLoop | RoleManager | LeadershipLoop | ControllerWhenLeader

definition api_loops :: "Config \<Rightarrow> loop list" where
  "api_loops cfg = (if DisableAPI (NodeCfg cfg) then [] else [ApiServer])"

definition agent_loops :: "Config \<Rightarrow> string \<Rightarrow> int \<Rightarrow> loop list" where
  "agent_loops cfg pfx rv =
     [WatchLoop pfx (rv + 1), ConfigWatcher, SessionLoop, RoleManager] @
     (if DisableController (NodeCfg cfg) then [] else [LeadershipLoop, ControllerWhenLeader])"

text \<open>
  \<open>Run\<close> up to the wait for the end of the context: the error it returns with, or none; the loops
  it has started, in order; and the store.
\<close>

definition Run_runtime :: "Config \<Rightarrow> 'e etcd_service \<Rightarrow> retry_wait list \<Rightarrow> StateStore \<Rightarrow> 'e world \<Rightarrow>
    (error option \<times> loop list \<times> StateStore \<times> 'e world) option" where
  "Run_runtime cfg svc waits st w =
     (let loops = api_loops cfg; pfx = Root (cl_ID (Cluster cfg))
      in case connectETCD cfg svc waits w of
           None \<Rightarrow> None
         | Some (Some err, w) \<Rightarrow> Some (Some err, loops, st, w)
         | Some (None, w) \<Rightarrow>
             (case GetPrefix svc pfx w of
                (Inl err, w) \<Rightarrow> Some (Some err, loops, st, w)
              | (Inr (items, rv), w) \<Rightarrow>
                  let st = LoadSnapshot st items rv
                  in case Ensure cfg svc w of
                       (Some err, w) \<Rightarrow> Some (Some err, loops, st, w)
                     | (None, w) \<Rightarrow> Some (None, loops @ agent_loops cfg pfx rv, st, w)))"

text \<open>The watch loop, from the responses of the watch to the store.\<close>

definition watchLoop :: "watch_response list \<Rightarrow> StateStore \<Rightarrow> StateStore" where
  "watchLoop resps st = fold (\<lambda>event s. Apply s event) (WatchPrefix resps) st"

text \<open>An error ends the loop: the store is frozen, whatever the service would have sent.\<close>

lemma watch_error_freezes_store: "watchLoop (resps @ WatchErr err # later) st = watchLoop resps st"
proof -
  have "WatchPrefix (resps @ WatchErr err # later) = WatchPrefix resps"
    by (induction resps rule: WatchPrefix.induct) auto
  then show ?thesis by (simp add: watchLoop_def)
qed

section \<open>The snapshot and the watch\<close>

text \<open>The service answers a prefix with keys it holds under this prefix.\<close>

locale etcd_prefix = etcd_kv +
  assumes get_only: "svc_get svc e p = (Inr (items, rv), e') \<Longrightarrow> (k, b) \<in> set items \<Longrightarrow> has_prefix p k \<and> kv e k \<noteq> None"
begin

lemma GetPrefix_kv: "GetPrefix svc p w = (r, w') \<Longrightarrow> kv (service_state w') = kv (service_state w)"
  by (auto simp: GetPrefix_def Let_def dest: get_kv split: prod.splits sum.splits)

lemma GetPrefix_items:
  assumes "GetPrefix svc p w = (Inr (items, rv), w')"
  shows "distinct (map fst items)" and "has_prefix p k \<Longrightarrow> map_of items k = kv (service_state w) k"
    and "k \<in> fst ` set items \<Longrightarrow> has_prefix p k \<and> kv (service_state w) k \<noteq> None"
proof -
  obtain kvs e where g: "svc_get svc (service_state w) p = (Inr (kvs, rv), e)" and items: "items = go_map kvs"
    using assms by (auto simp: GetPrefix_def Let_def split: prod.splits sum.splits)
  show "distinct (map fst items)" by (simp add: items distinct_go_map)
  show "has_prefix p k \<Longrightarrow> map_of items k = kv (service_state w) k" using get_all [OF g] by (simp add: items map_of_go_map)
  assume "k \<in> fst ` set items"
  then have "map_of (rev kvs) k \<noteq> None" by (simp add: items map_of_go_map [symmetric] map_of_eq_None_iff)
  then obtain b where "(k, b) \<in> set kvs" using map_of_SomeD by fastforce
  with get_only [OF g] show "has_prefix p k \<and> kv (service_state w) k \<noteq> None" by blast
qed

lemma connectETCD_kv: "connectETCD cfg svc waits w = Some (r, w') \<Longrightarrow> kv (service_state w') = kv (service_state w)"
proof (induction waits arbitrary: w)
  case (Cons wait waits)
  then show ?case by (cases wait) (auto dest!: GetPrefix_kv split: prod.splits sum.splits)
qed (auto dest!: GetPrefix_kv split: prod.splits sum.splits)

lemma started_with_snapshot:
  assumes "Run_runtime cfg svc waits st w = Some (None, loops, st', w')"
  shows "\<exists>items rv. st' = LoadSnapshot st items rv \<and> loops = api_loops cfg @ agent_loops cfg (Root (cl_ID (Cluster cfg))) rv
    \<and> distinct (map fst items)
    \<and> (\<forall>k. has_prefix (Root (cl_ID (Cluster cfg))) k \<longrightarrow> map_of items k = kv (service_state w) k)
    \<and> (\<forall>k \<in> fst ` set items. has_prefix (Root (cl_ID (Cluster cfg))) k \<and> kv (service_state w) k \<noteq> None)"
proof -
  let ?p = "Root (cl_ID (Cluster cfg))"
  obtain w1 where c: "connectETCD cfg svc waits w = Some (None, w1)"
    using assms by (auto simp: Run_runtime_def Let_def split: option.splits prod.splits)
  obtain items rv w2 where g: "GetPrefix svc ?p w1 = (Inr (items, rv), w2)"
    using assms by (auto simp: Run_runtime_def Let_def c split: prod.splits sum.splits)
  have "st' = LoadSnapshot st items rv" "loops = api_loops cfg @ agent_loops cfg ?p rv"
    using assms by (auto simp: Run_runtime_def Let_def c g split: prod.splits option.splits)
  then show ?thesis
    using GetPrefix_items [OF g] connectETCD_kv [OF c] by (intro exI [of _ items] exI [of _ rv]) auto
qed

end

interpretation mem_prefix: etcd_prefix mem_service "\<lambda>e. map_of (fst e)"
  by unfold_locales (force simp: mem_service_def map_of_eq_None_iff split: prod.splits)

lemma Root_prefix:
  assumes "id_ok c" and "entity_ok e"
  shows "has_prefix (Root c) (entity_key c e)"
proof -
  have "entity_tail e \<noteq> []" by (cases e) simp_all
  then have "has_prefix (abs_path [c, ''cluster''] @ ''/'') (abs_path (entity_segs c e))"
    using has_prefix_abs_path [of "[c, ''cluster'']" "entity_segs c e"] assms(1) entity_segs_ok [OF assms]
    by (simp add: entity_segs_def)
  then have "has_prefix (Root c @ ''/'') (entity_key c e)"
    by (simp only: Root_path [OF assms(1)] entity_key_path [OF assms])
  then show ?thesis by (auto simp: has_prefix_iff)
qed

section \<open>Properties\<close>

text \<open>
  C13: a started agent follows etcd. When \<^verbatim>\<open>Run\<close> has started its loops, the watch loop starts right
  after the revision of the snapshot in the store, and once the watch has delivered the changes
  since then, the writes of the agent's own bootstrap among them, the store holds under every
  key of the program what etcd holds. A node without controller runs no election.
\<close>

theorem started_agent_follows_etcd:
  assumes "etcd_prefix svc kv" and "cl_ID (Cluster cfg) = c" and "id_ok c"
    and "Run_runtime cfg svc waits st w = Some (None, loops, st', w')"
    and "\<And>k. kv (service_state w) k \<noteq> None \<Longrightarrow> has_prefix (Root c) k \<Longrightarrow> k \<in> entity_keys c"
    and "\<And>ev. ev \<in> set (WatchPrefix resps) \<Longrightarrow> ev_Key ev \<in> entity_keys c"
    and "\<And>k. k \<in> entity_keys c \<Longrightarrow> fold etcd_apply (WatchPrefix resps) (kv (service_state w)) k = kv e k"
    and "entity_strict x"
  shows "Get (watchLoop resps st') (entity_key c x) = map_option normalizeJSON (kv e (entity_key c x))
    \<and> WatchLoop (Root c) (revision st' + 1) \<in> set loops
    \<and> (DisableController (NodeCfg cfg) \<longleftrightarrow> LeadershipLoop \<notin> set loops)"
proof -
  from etcd_prefix.started_with_snapshot [OF assms(1,4), unfolded assms(2)] obtain items rv where
    s: "st' = LoadSnapshot st items rv" "loops = api_loops cfg @ agent_loops cfg (Root c) rv" "distinct (map fst items)"
      "\<And>k. has_prefix (Root c) k \<Longrightarrow> map_of items k = kv (service_state w) k"
      "\<And>k. k \<in> fst ` set items \<Longrightarrow> has_prefix (Root c) k \<and> kv (service_state w) k \<noteq> None" by blast
  note sep = entity_keys_separated [OF assms(3)]
  have same: "map_of items k = kv (service_state w) k" if "k \<in> entity_keys c" for k
    using that s(4) Root_prefix [OF assms(3)] entity_strict_ok by (auto simp: entity_keys_def)
  have "cache.tracks (entity_keys c) (map_of items) st'"
    unfolding s(1) using s(3,5) assms(5) by (intro tracks_LoadSnapshot [OF sep]) auto
  then have "cache.tracks (entity_keys c) (kv (service_state w)) st'" using same by (simp add: cache.tracks_def)
  then have "cache.tracks (entity_keys c) (fold etcd_apply (WatchPrefix resps) (kv (service_state w))) (watchLoop resps st')"
    unfolding watchLoop_def using assms(6) by (intro tracks_fold_Apply [OF sep]) auto
  moreover have "revision st' = rv" by (simp add: s(1) LoadSnapshot_def Let_def)
  ultimately show ?thesis
    using assms(7,8) by (auto simp: cache.tracks_def s(2) agent_loops_def api_loops_def)
qed

text \<open>The first agent of an empty cluster, and the first change it watches.\<close>

definition first_change :: Event where
  "first_change = \<lparr>ev_Type = EventPut, ev_Key = Desired ''c'' ''g'' ''x'', ev_Value = desired_json ''active'' True, ev_Revision = 2\<rparr>"

definition first_responses :: "watch_response list" where
  "first_responses = [WatchEvents [(False, Desired ''c'' ''g'' ''x'', Some (desired_json ''active'' True), 2)]]"

lemma first_change_watched: "WatchPrefix first_responses = [first_change]"
  by (simp add: first_responses_def watch_event_def first_change_def)

theorem started_agent_follows_etcd_witness:
  "\<exists>loops st' w'. Run_runtime (example_cfg ''manual'') mem_service [] new_store (example_world []) = Some (None, loops, st', w')
    \<and> Get (watchLoop first_responses st') (Desired ''c'' ''g'' ''x'') = Some (desired_json ''active'' True)
    \<and> LeadershipLoop \<in> set loops"
proof -
  let ?cfg = "example_cfg ''manual''" and ?w = "example_world []"
  let ?kv = "\<lambda>e :: mem_etcd. map_of (fst e)"
  have "case Run_runtime ?cfg mem_service [] new_store ?w of None \<Rightarrow> False | Some (err, _) \<Rightarrow> err = None" by code_simp
  then obtain loops st' w' where run: "Run_runtime ?cfg mem_service [] new_store ?w = Some (None, loops, st', w')"
    by (auto split: option.splits)
  have strict: "entity_strict (EDesired ''g'' ''x'')" by (simp add: entity_ok_defs)
  have "Desired ''c'' ''g'' ''x'' \<in> entity_keys ''c''" using entity_keysI [OF strict, of "''c''"] by simp
  then have changes: "ev_Key ev \<in> entity_keys ''c''" if "ev \<in> set (WatchPrefix first_responses)" for ev
    using that by (simp add: first_change_watched first_change_def)
  have "?kv (service_state ?w) = Map.empty" by (simp add: example_world_def)
  then have now: "fold etcd_apply (WatchPrefix first_responses) (?kv (service_state ?w)) k
      = ?kv ([(Desired ''c'' ''g'' ''x'', desired_json ''active'' True)], 0) k"
    and none: "?kv (service_state ?w) k = None" for k
    by (simp_all add: first_change_watched etcd_apply_def first_change_def)
  have cfg: "cl_ID (Cluster ?cfg) = ''c''" "\<not> DisableController (NodeCfg ?cfg)" by (simp_all add: example_cfg_def)
  define e where "e = ([(Desired ''c'' ''g'' ''x'', desired_json ''active'' True)], 0 :: int)"
  have key: "entity_key ''c'' (EDesired ''g'' ''x'') = Desired ''c'' ''g'' ''x''" by simp
  have "Get (watchLoop first_responses st') (entity_key ''c'' (EDesired ''g'' ''x''))
      = map_option normalizeJSON (?kv e (entity_key ''c'' (EDesired ''g'' ''x'')))
    \<and> WatchLoop (Root ''c'') (revision st' + 1) \<in> set loops
    \<and> (DisableController (NodeCfg ?cfg) \<longleftrightarrow> LeadershipLoop \<notin> set loops)"
    by (rule started_agent_follows_etcd [where kv = ?kv, OF mem_prefix.etcd_prefix_axioms cfg(1) id_ok_c run])
      (use none changes now strict in \<open>simp_all add: e_def\<close>)
  then show ?thesis using cfg(2) run by (simp add: key e_def desired_json_def)
qed

end
