(* ===== verification/Startup.thy ===== *)
theory Startup
  imports Runtime View
begin

text \<open>
  The start of the process: the flags of \<^verbatim>\<open>cmd/main.go\<close>, \<^verbatim>\<open>Load\<close> and the \<^verbatim>\<open>UnmarshalYAML\<close> methods of
  \<^verbatim>\<open>internal/config/config.go\<close>, the logger of \<^verbatim>\<open>internal/logging\<close>, and \<^verbatim>\<open>New\<close> of
  \<^verbatim>\<open>internal/runtime\<close>. The YAML package, the files and the connection to etcd are parameters.
\<close>

section \<open>Words\<close>

text \<open>
  The length of the space a string starts with, 0 if it starts with none: the runes of
  \<^verbatim>\<open>unicode.IsSpace\<close> in UTF-8. No encoding of a rune is found inside another, so
  looking at every byte is looking at every rune.
\<close>

definition space_len :: "string \<Rightarrow> nat" where
  "space_len s =
     (case map byte (take 3 s) of
        [] \<Rightarrow> 0
      | a # r \<Rightarrow>
          if 9 \<le> a \<and> a \<le> 13 \<or> a = 32 then 1
          else if a = 0xC2 then (case r of b # _ \<Rightarrow> if b = 0x85 \<or> b = 0xA0 then 2 else 0 | [] \<Rightarrow> 0)
          else (case r of
              [b, c] \<Rightarrow>
                if a = 0xE1 \<and> b = 0x9A \<and> c = 0x80
                  \<or> a = 0xE2 \<and> b = 0x80 \<and> (0x80 \<le> c \<and> c \<le> 0x8A \<or> c = 0xA8 \<or> c = 0xA9 \<or> c = 0xAF)
                  \<or> a = 0xE2 \<and> b = 0x81 \<and> c = 0x9F
                  \<or> a = 0xE3 \<and> b = 0x80 \<and> c = 0x80
                then 3 else 0
            | _ \<Rightarrow> 0))"

text \<open>\<^verbatim>\<open>strings.Fields\<close>; \<open>cur\<close> is the word that has been started, last byte first.\<close>

function fields_from :: "string \<Rightarrow> string \<Rightarrow> string list" where
  "fields_from cur s =
     (if s = [] then (if cur = [] then [] else [rev cur])
      else if space_len s = 0 then fields_from (hd s # cur) (tl s)
      else (if cur = [] then [] else [rev cur]) @ fields_from [] (drop (space_len s) s))"
  by pat_completeness auto
termination by (relation "measure (\<lambda>(cur, s). length s)") auto

declare fields_from.simps [simp del]

definition Fields :: "string \<Rightarrow> string list" where "Fields s = fields_from [] s"

section \<open>YAML\<close>

text \<open>
  What the program uses of the YAML package: the kind, the value and the content of a node, and
  decoding a node into a string, a list of strings and a role, each with its error.
\<close>

datatype yaml_kind = ScalarNode | SequenceNode | MappingNode | OtherNode

record 'n yaml =
  y_kind :: "'n \<Rightarrow> yaml_kind"
  y_value :: "'n \<Rightarrow> string"
  y_content :: "'n \<Rightarrow> 'n list"
  y_string :: "'n \<Rightarrow> error + string"
  y_strings :: "'n \<Rightarrow> error + string list"
  y_role :: "'n \<Rightarrow> error + RoleConfig"

definition UnmarshalYAML_Duration :: "'n yaml \<Rightarrow> 'n \<Rightarrow> error + Duration" where
  "UnmarshalYAML_Duration y n =
     (case y_string y n of
        Inl err \<Rightarrow> Inl err
      | Inr raw \<Rightarrow>
          (case ParseDuration raw of
             None \<Rightarrow> Inl (''invalid duration '' @ quoted raw @ '': '' @ time_error)
           | Some parsed \<Rightarrow> Inr parsed))"

definition UnmarshalYAML_ActorCommand :: "'n yaml \<Rightarrow> 'n \<Rightarrow> error + ActorCommand" where
  "UnmarshalYAML_ActorCommand y n =
     (case y_kind y n of
        ScalarNode \<Rightarrow> (case y_string y n of Inl err \<Rightarrow> Inl err | Inr raw \<Rightarrow> Inr (Fields raw))
      | SequenceNode \<Rightarrow> y_strings y n
      | _ \<Rightarrow> Inl ''actor command must be a string or a list'')"

text \<open>The keys and values of a mapping alternate in its content.\<close>

fun node_pairs :: "'n yaml \<Rightarrow> 'n list \<Rightarrow> (string \<times> 'n) list" where
  "node_pairs y (k # v # ns) = (y_value y k, v) # node_pairs y ns"
| "node_pairs y ns = []"

fun decode_roles :: "'n yaml \<Rightarrow> RoleConfig \<Rightarrow> (string \<times> 'n) list \<Rightarrow> error + RolesMap" where
  "decode_roles y defaults [] = Inr []"
| "decode_roles y defaults ((key, node) # raw) =
     (if key = ''defaults'' then decode_roles y defaults raw
      else case y_role y node of
          Inl err \<Rightarrow> Inl (''roles.'' @ key @ '': '' @ err)
        | Inr role \<Rightarrow> map_sum id (\<lambda>rs. (key, applyRoleDefaults role defaults) # rs) (decode_roles y defaults raw))"

definition UnmarshalYAML_RolesMap :: "'n yaml \<Rightarrow> 'n \<Rightarrow> error + RolesMap" where
  "UnmarshalYAML_RolesMap y n =
     (if y_kind y n \<noteq> MappingNode then Inl ''roles must be a YAML mapping''
      else
        let raw = go_map (node_pairs y (y_content y n))
        in case map_of raw ''defaults'' of
             None \<Rightarrow> decode_roles y zero_role raw
           | Some node \<Rightarrow>
               (case y_role y node of
                  Inl err \<Rightarrow> Inl (''roles.defaults: '' @ err)
                | Inr defaults \<Rightarrow> decode_roles y defaults raw))"

section \<open>Loading the configuration\<close>

definition Load :: "(string \<Rightarrow> error + string) \<Rightarrow> (string \<Rightarrow> error + Config) \<Rightarrow> string \<Rightarrow> error + Config" where
  "Load readFile unmarshalYAML path =
     (case readFile path of
        Inl err \<Rightarrow> Inl err
      | Inr data \<Rightarrow>
          (case unmarshalYAML data of
             Inl err \<Rightarrow> Inl err
           | Inr cfg \<Rightarrow>
               let cfg = applyDefaults cfg
               in case validate cfg of Some err \<Rightarrow> Inl err | None \<Rightarrow> Inr cfg))"

section \<open>Flags\<close>

record Flags =
  fl_Config :: string
  fl_Etcd :: "string list"
  fl_DisableAPI :: bool
  fl_DisableController :: bool

definition default_flags :: Flags where
  "default_flags = \<lparr>fl_Config = ''config.yaml'', fl_Etcd = [], fl_DisableAPI = False, fl_DisableController = False\<rparr>"

text \<open>
  One argument for the package \<^verbatim>\<open>flag\<close>: one or two dashes, a name, and perhaps a value after an
  equals sign. The first argument that is not a flag, or two dashes alone, ends the flags.
\<close>

datatype flag_arg = NoFlag | BadFlag | Flag string "string option"

definition flag_arg :: "string \<Rightarrow> flag_arg" where
  "flag_arg s =
     (if length s < 2 \<or> hd s \<noteq> CHR ''-'' \<or> s = ''--'' then NoFlag
      else
        let name = (if s ! 1 = CHR ''-'' then drop 2 s else drop 1 s)
        in if hd name = CHR ''-'' \<or> hd name = CHR ''='' then BadFlag
           else Flag (takeWhile (\<lambda>c. c \<noteq> CHR ''='') name)
             (if CHR ''='' \<in> set name then Some (tl (dropWhile (\<lambda>c. c \<noteq> CHR ''='') name)) else None))"

definition ParseBool :: "string \<Rightarrow> bool option" where
  "ParseBool s =
     (if s \<in> set [''1'', ''t'', ''T'', ''TRUE'', ''true'', ''True''] then Some True
      else if s \<in> set [''0'', ''f'', ''F'', ''FALSE'', ''false'', ''False''] then Some False
      else None)"

text \<open>\<^verbatim>\<open>repeatedFlag.Set\<close> appends.\<close>

definition repeatedFlag_Set :: "string list \<Rightarrow> string \<Rightarrow> string list" where
  "repeatedFlag_Set f v = f @ [v]"

definition set_string :: "string \<Rightarrow> string \<Rightarrow> Flags \<Rightarrow> Flags" where
  "set_string name v fl =
     (if name = ''config'' then fl\<lparr>fl_Config := v\<rparr> else fl\<lparr>fl_Etcd := repeatedFlag_Set (fl_Etcd fl) v\<rparr>)"

definition set_bool :: "string \<Rightarrow> bool \<Rightarrow> Flags \<Rightarrow> Flags" where
  "set_bool name b fl = (if name = ''disable-api'' then fl\<lparr>fl_DisableAPI := b\<rparr> else fl\<lparr>fl_DisableController := b\<rparr>)"

text \<open>\<^verbatim>\<open>flag.Parse\<close>, with the status of \<^verbatim>\<open>ExitOnError\<close> on the left.\<close>

fun parse_flags :: "string list \<Rightarrow> Flags \<Rightarrow> int + Flags" where
  "parse_flags [] fl = Inr fl"
| "parse_flags (s # args) fl =
     (case flag_arg s of
        NoFlag \<Rightarrow> Inr fl
      | BadFlag \<Rightarrow> Inl 2
      | Flag name val \<Rightarrow>
          if name = ''config'' \<or> name = ''etcd'' then
            (case val of
               Some v \<Rightarrow> parse_flags args (set_string name v fl)
             | None \<Rightarrow> (case args of [] \<Rightarrow> Inl 2 | v # args' \<Rightarrow> parse_flags args' (set_string name v fl)))
          else if name = ''disable-api'' \<or> name = ''disable-controller'' then
            (case ParseBool (case val of None \<Rightarrow> ''true'' | Some v \<Rightarrow> v) of
               None \<Rightarrow> Inl 2
             | Some b \<Rightarrow> parse_flags args (set_bool name b fl))
          else if name = ''help'' \<or> name = ''h'' then Inl 0 else Inl 2)"

definition override :: "Flags \<Rightarrow> Config \<Rightarrow> Config" where
  "override fl cfg =
     (let cfg = (if fl_Etcd fl \<noteq> [] then cfg\<lparr>EtcdCfg := (EtcdCfg cfg)\<lparr>Endpoints := fl_Etcd fl\<rparr>\<rparr> else cfg);
          cfg = (if fl_DisableAPI fl then cfg\<lparr>NodeCfg := (NodeCfg cfg)\<lparr>DisableAPI := True\<rparr>\<rparr> else cfg)
      in if fl_DisableController fl then cfg\<lparr>NodeCfg := (NodeCfg cfg)\<lparr>DisableController := True\<rparr>\<rparr> else cfg)"

section \<open>The logger\<close>

datatype log_sink = ToStdout | ToFile string

record BuiltLogger =
  bl_Level :: int
  bl_JSON :: bool
  bl_Sinks :: "log_sink list"

text \<open>
  \<^verbatim>\<open>logging.New\<close>, up to the core it hands to the logging package: debug (-1) unless the level can be
  read, and the sinks. \<open>openFile\<close> opens the log file, \<open>level_of\<close> reads a level.
\<close>

definition Logger_New :: "(string \<Rightarrow> error option) \<Rightarrow> (string \<Rightarrow> int option) \<Rightarrow> LoggerConfig \<Rightarrow> error + BuiltLogger" where
  "Logger_New openFile level_of cfg =
     (let level = (if Level cfg = [] then -1 else case level_of (Level cfg) of None \<Rightarrow> -1 | Some l \<Rightarrow> l);
          sinks = (if Console cfg \<or> File cfg = [] then [ToStdout] else []);
          opened = (if File cfg \<noteq> [] then openFile (File cfg) else None);
          sinks = (if File cfg \<noteq> [] then sinks @ [ToFile (File cfg)] else sinks)
      in case opened of
           Some err \<Rightarrow> Inl err
         | None \<Rightarrow>
             if sinks = [] then Inl ''logger has no output sinks''
             else Inr \<lparr>bl_Level = level, bl_JSON = (Format cfg = ''json''), bl_Sinks = sinks\<rparr>)"

section \<open>The runtime\<close>

text \<open>What the process uses of its host; \<open>h_dial\<close> is the constructor of the etcd client.\<close>

record host =
  h_readFile :: "string \<Rightarrow> error + string"
  h_yaml :: "string \<Rightarrow> error + Config"
  h_openFile :: "string \<Rightarrow> error option"
  h_level :: "string \<Rightarrow> int option"
  h_dial :: "string list \<Rightarrow> Duration \<Rightarrow> error option"

record Runtime =
  rt_cfg :: Config
  rt_logger :: BuiltLogger
  rt_store :: StateStore
  rt_api :: Server
  rt_controller :: Controller
  rt_workers :: "Worker list"

definition Etcd_New :: "(string list \<Rightarrow> Duration \<Rightarrow> error option) \<Rightarrow> string list \<Rightarrow> Duration \<Rightarrow> error option" where
  "Etcd_New dial endpoints dialTimeout = dial endpoints dialTimeout"

definition Runtime_New :: "host \<Rightarrow> Config \<Rightarrow> error + Runtime" where
  "Runtime_New h cfg =
     (case Logger_New (h_openFile h) (h_level h) (Logger cfg) of
        Inl err \<Rightarrow> Inl err
      | Inr logger \<Rightarrow>
          (case Etcd_New (h_dial h) (Endpoints (EtcdCfg cfg)) (DialTimeout (EtcdCfg cfg)) of
             Some err \<Rightarrow> Inl err
           | None \<Rightarrow> Inr \<lparr>rt_cfg = cfg, rt_logger = logger, rt_store = new_store,
               rt_api = \<lparr>addr = Listen (API cfg), clusterID = cl_ID (Cluster cfg), token = Token (API cfg)\<rparr>,
               rt_controller = new_controller, rt_workers = new_workers cfg\<rparr>))"

section \<open>The process\<close>

text \<open>
  The process has ended with a status, or its agent is running: the loops of its runtime and the
  store they share. \<open>None\<close> is a process that still waits for etcd.
\<close>

datatype process = Exited int | Running Runtime "loop list" StateStore

definition cancelled :: error where "cancelled = ''context canceled''"

definition main :: "host \<Rightarrow> 'e etcd_service \<Rightarrow> retry_wait list \<Rightarrow> string list \<Rightarrow> 'e world \<Rightarrow> (process \<times> 'e world) option" where
  "main h svc waits args w =
     (case parse_flags args default_flags of
        Inl status \<Rightarrow> Some (Exited status, w)
      | Inr fl \<Rightarrow>
          (case Load (h_readFile h) (h_yaml h) (fl_Config fl) of
             Inl err \<Rightarrow> Some (Exited 1, w)
           | Inr cfg \<Rightarrow>
               (case Runtime_New h (override fl cfg) of
                  Inl err \<Rightarrow> Some (Exited 1, w)
                | Inr rt \<Rightarrow>
                    (case Run_runtime (rt_cfg rt) svc waits (rt_store rt) w of
                       None \<Rightarrow> None
                     | Some (Some err, loops, st, w) \<Rightarrow> Some (Exited (if err = cancelled then 0 else 1), w)
                     | Some (None, loops, st, w) \<Rightarrow> Some (Running rt loops st, w)))))"

section \<open>Words of a command\<close>

text \<open>A word has no space in it, wherever one starts to read.\<close>

definition word_ok :: "string \<Rightarrow> bool" where
  "word_ok x \<longleftrightarrow> x \<noteq> [] \<and> (\<forall>c \<in> set x. 32 < byte c \<and> byte c < 128)"

lemma fields_word:
  assumes "\<forall>c \<in> set x. 32 < byte c \<and> byte c < 128"
  shows "fields_from cur (x @ s) = fields_from (rev x @ cur) s"
  using assms
proof (induction x arbitrary: cur)
  case (Cons c x)
  then have "space_len (c # x @ s) = 0" by (simp add: space_len_def split: list.splits)
  then show ?case using Cons by (subst fields_from.simps) simp
qed simp

lemma space_len_space [simp]: "space_len (CHR '' '' # s) = 1"
  by (simp add: space_len_def byte_def)

lemma fields_space: "fields_from cur (CHR '' '' # s) = (if cur = [] then [] else [rev cur]) @ fields_from [] s"
  by (subst fields_from.simps) simp

lemma fields_join: "\<forall>x \<in> set xs. word_ok x \<Longrightarrow> Fields (join '' '' xs) = xs"
proof (induction xs)
  case (Cons x xs)
  have x: "x \<noteq> []" "fields_from [] (x @ s) = fields_from (rev x) s" for s
    using Cons.prems fields_word [of x "[]" s] by (simp_all add: word_ok_def)
  show ?case
  proof (cases xs)
    case Nil
    then show ?thesis using x(1) x(2) [of "[]"] by (simp add: Fields_def fields_from.simps [of _ "[]"])
  next
    case (Cons y ys)
    then show ?thesis using x Cons.IH Cons.prems by (simp add: Fields_def fields_space)
  qed
qed (simp add: Fields_def fields_from.simps)

text \<open>What is left of a string has no empty word, so only a list can name an empty executable.\<close>

lemma fields_nonempty: "[] \<notin> set (fields_from cur s)"
  by (induction cur s rule: fields_from.induct) (subst fields_from.simps, auto)

text \<open>The two forms of an actor command agree.\<close>

lemma actor_command_forms:
  assumes "y_kind y n = ScalarNode" and "y_string y n = Inr (join '' '' argv)" and "\<forall>a \<in> set argv. word_ok a"
    and "y_kind y m = SequenceNode" and "y_strings y m = Inr argv"
  shows "UnmarshalYAML_ActorCommand y n = UnmarshalYAML_ActorCommand y m \<and> UnmarshalYAML_ActorCommand y m = Inr argv"
  using assms by (simp add: UnmarshalYAML_ActorCommand_def fields_join)

section \<open>Roles\<close>

lemma decode_roles_Inr:
  assumes "decode_roles y defaults raw = Inr rs" and "\<And>d. (''defaults'', d) \<in> set raw \<Longrightarrow> y_role y d = Inr defaults"
  shows "\<exists>roles. list_all2 (\<lambda>(k, node) (k', role). k' = k \<and> y_role y node = Inr role) raw roles
    \<and> rs = map (\<lambda>(key, role). (key, applyRoleDefaults role defaults)) (filter (\<lambda>(key, role). key \<noteq> ''defaults'') roles)"
  using assms
proof (induction raw arbitrary: rs)
  case (Cons x raw)
  obtain key node where x: "x = (key, node)" by fastforce
  obtain role where role: "y_role y node = Inr role"
    using Cons.prems by (cases "key = ''defaults''") (auto simp: x split: sum.splits)
  obtain rs1 where dec: "decode_roles y defaults raw = Inr rs1"
    using Cons.prems(1) role by (cases "decode_roles y defaults raw") (auto simp: x split: if_splits)
  then have rs: "rs = (if key = ''defaults'' then rs1 else (key, applyRoleDefaults role defaults) # rs1)"
    using Cons.prems(1) role by (auto simp: x)
  from Cons.IH [OF dec] Cons.prems(2) obtain roles where
    "list_all2 (\<lambda>(k, node) (k', role). k' = k \<and> y_role y node = Inr role) raw roles"
    "rs1 = map (\<lambda>(key, role). (key, applyRoleDefaults role defaults)) (filter (\<lambda>(key, role). key \<noteq> ''defaults'') roles)"
    by auto
  then show ?case by (intro exI [of _ "(key, role) # roles"]) (simp add: x role rs)
qed simp

text \<open>The roles of a file are those of \<open>roles_with_defaults\<close> on its decoded entries.\<close>

lemma roles_unmarshalled:
  assumes "UnmarshalYAML_RolesMap y n = Inr rs"
  shows "\<exists>raw. list_all2 (\<lambda>(k, node) (k', role). k' = k \<and> y_role y node = Inr role) (go_map (node_pairs y (y_content y n))) raw
    \<and> rs = roles_with_defaults raw"
proof -
  let ?nodes = "go_map (node_pairs y (y_content y n))"
  let ?dec = "\<lambda>(k, node) (k', role). k' = k \<and> y_role y node = Inr role"
  obtain defaults where dec: "decode_roles y defaults ?nodes = Inr rs"
      and def: "case map_of ?nodes ''defaults'' of None \<Rightarrow> defaults = zero_role | Some node \<Rightarrow> y_role y node = Inr defaults"
    using assms by (auto simp: UnmarshalYAML_RolesMap_def Let_def split: if_splits option.splits sum.splits)
  have "y_role y d = Inr defaults" if "(''defaults'', d) \<in> set ?nodes" for d
    using that def by (simp add: map_of_is_SomeI distinct_go_map)
  from decode_roles_Inr [OF dec this] obtain raw where raw: "list_all2 ?dec ?nodes raw"
      "rs = map (\<lambda>(key, role). (key, applyRoleDefaults role defaults)) (filter (\<lambda>(key, role). key \<noteq> ''defaults'') raw)" by blast
  have "map_of ys k = None \<longleftrightarrow> map_of xs k = None" "map_of xs k = Some node \<Longrightarrow> \<exists>role. y_role y node = Inr role \<and> map_of ys k = Some role"
    if "list_all2 ?dec xs ys" for xs ys k node
    using that by (induction rule: list_all2_induct) (auto split: if_splits)
  from this [OF raw(1), of "''defaults''"] have "go_index (map_of raw) zero_role ''defaults'' = defaults"
    using def by (auto simp: go_index_def split: option.splits)
  then show ?thesis using raw by (auto simp: roles_with_defaults_def Let_def)
qed

section \<open>The configuration an agent runs under\<close>

lemma override_fields [simp]:
  "Cluster (override fl cfg) = Cluster cfg" "Roles (override fl cfg) = Roles cfg" "ManagementGroups (override fl cfg) = ManagementGroups cfg"
  "NodeID (NodeCfg (override fl cfg)) = NodeID (NodeCfg cfg)" "Memberships (NodeCfg (override fl cfg)) = Memberships (NodeCfg cfg)"
  "RetryInterval (EtcdCfg (override fl cfg)) = RetryInterval (EtcdCfg cfg)"
  "Endpoints (EtcdCfg (override fl cfg)) = (if fl_Etcd fl = [] then Endpoints (EtcdCfg cfg) else fl_Etcd fl)"
  "DisableAPI (NodeCfg (override fl cfg)) \<longleftrightarrow> fl_DisableAPI fl \<or> DisableAPI (NodeCfg cfg)"
  "DisableController (NodeCfg (override fl cfg)) \<longleftrightarrow> fl_DisableController fl \<or> DisableController (NodeCfg cfg)"
  by (simp_all add: override_def Let_def)

lemma default_dur_nonzero: "d \<noteq> 0 \<Longrightarrow> default_dur t d \<noteq> 0"
  by (simp add: default_dur_def)

lemma default_timeouts_nonzero:
  "Exec (default_timeouts t) \<noteq> 0" "Converge (default_timeouts t) \<noteq> 0" "rt_RetryInterval (default_timeouts t) \<noteq> 0"
  "CheckInterval (default_timeouts t) \<noteq> 0" "DetailsMaxSize (default_timeouts t) \<noteq> 0"
  by (simp_all add: default_timeouts_def default_dur_nonzero Second_def)

lemma config_ok_override: "config_ok cfg \<Longrightarrow> config_ok (override fl cfg)"
  by (simp add: config_ok_def membership_ok_def)

text \<open>Whatever passes validation gives each worker a role that is defined.\<close>

lemma workers_defined:
  assumes "config_ok cfg" and "wk \<in> set (new_workers cfg)"
  shows "wk_role wk \<in> fst ` set (Roles cfg) \<and> wk_membership wk \<in> set (Memberships (NodeCfg cfg))"
proof -
  obtain m r where m: "m \<in> set (Memberships (NodeCfg cfg))" "wk = NewWorker m r"
      "r \<in> set (mg_Roles (mg_conf cfg (mc_ClusterGroup m) (mc_ManagementGroup m)))"
    using assms(2) by (auto simp: new_workers_def)
  have "membership_ok cfg m" using assms(1) m(1) by (simp add: config_ok_def)
  then show ?thesis using m by (auto simp: membership_ok_def mg_conf_def go_index_def NewWorker_def)
qed

text \<open>The endpoints of the flag do not replace those of the file: the file is validated without them.\<close>

lemma endpoints_required_in_file:
  assumes "parse_flags args default_flags = Inr fl" and "h_readFile h (fl_Config fl) = Inr data" and "h_yaml h data = Inr cfg"
    and "Endpoints (EtcdCfg cfg) = []"
  shows "main h svc waits args w = Some (Exited 1, w)"
proof -
  have "\<not> config_ok (applyDefaults cfg)" using assms(4) by (simp add: config_ok_def applyDefaults_def)
  then have "validate (applyDefaults cfg) \<noteq> None" by (simp add: validate_iff)
  then show ?thesis using assms(1-3) by (auto simp: main_def Load_def)
qed

section \<open>Properties\<close>

lemma running_configuration:
  assumes "main h svc waits args w = Some (Running rt loops st, w')"
  shows "\<exists>fl data cfg. parse_flags args default_flags = Inr fl \<and> h_readFile h (fl_Config fl) = Inr data \<and> h_yaml h data = Inr cfg
    \<and> config_ok (applyDefaults cfg) \<and> rt_cfg rt = override fl (applyDefaults cfg) \<and> rt_workers rt = new_workers (rt_cfg rt)
    \<and> token (rt_api rt) = Token (API cfg)
    \<and> (\<exists>rv. loops = api_loops (rt_cfg rt) @ agent_loops (rt_cfg rt) (Root (cl_ID (Cluster cfg))) rv)"
proof -
  obtain fl where fl: "parse_flags args default_flags = Inr fl" using assms by (auto simp: main_def split: sum.splits)
  obtain cfg0 where load: "Load (h_readFile h) (h_yaml h) (fl_Config fl) = Inr cfg0"
    using assms by (auto simp: main_def fl split: sum.splits)
  then obtain data cfg where cfg: "h_readFile h (fl_Config fl) = Inr data" "h_yaml h data = Inr cfg" "validate cfg0 = None" "cfg0 = applyDefaults cfg"
    by (auto simp: Load_def Let_def split: sum.splits option.splits)
  obtain rt0 where rt0: "Runtime_New h (override fl cfg0) = Inr rt0" using assms by (auto simp: main_def fl load split: sum.splits)
  have run: "Run_runtime (rt_cfg rt0) svc waits (rt_store rt0) w = Some (None, loops, st, w')" and rt: "rt0 = rt"
    using assms by (auto simp: main_def fl load rt0 split: sum.splits option.splits prod.splits)
  have fields: "rt_cfg rt = override fl cfg0" "rt_workers rt = new_workers (rt_cfg rt)"
      "rt_api rt = \<lparr>addr = Listen (API (rt_cfg rt)), clusterID = cl_ID (Cluster (rt_cfg rt)), token = Token (API (rt_cfg rt))\<rparr>"
    using rt0 unfolding rt by (auto simp: Runtime_New_def split: sum.splits option.splits)
  have "Token (API (override fl cfg0)) = Token (API cfg)" "cl_ID (Cluster cfg0) = cl_ID (Cluster cfg)"
    by (simp_all add: override_def Let_def cfg(4) applyDefaults_def)
  moreover have "\<exists>rv. loops = api_loops (rt_cfg rt) @ agent_loops (rt_cfg rt) (Root (cl_ID (Cluster (rt_cfg rt)))) rv"
    using run unfolding rt by (auto simp: Run_runtime_def Let_def split: option.splits prod.splits sum.splits)
  ultimately show ?thesis using fl cfg fields by (auto simp: validate_iff)
qed


definition example_host :: host where
  "example_host = \<lparr>h_readFile = (\<lambda>path. if path = ''a.yaml'' then Inr [] else Inl ''no such file''),
     h_yaml = (\<lambda>data. Inr (example_cfg ''manual'')), h_openFile = (\<lambda>path. None), h_level = (\<lambda>l. None), h_dial = (\<lambda>es t. None)\<rparr>"


end
